(* ===== verification/Cluster_Prelude.thy ===== *)
theory Cluster_Prelude
  imports
    Main
    "HOL-Library.FSet"
    "HOL-Library.Finite_Map"
    "HOL-Library.Char_ord"
    "HOL-Library.List_Lexorder"
begin

section \<open>Shared vocabulary, automation and container lemmas\<close>

text \<open>
  The prelude of the development. It fixes how the Rust containers are read (\<open>BTreeSet<T>\<close> and
  \<open>HashSet<T>\<close> as \<open>'a fset\<close>, \<open>BTreeMap<K, V>\<close> and \<open>HashMap<K, V>\<close> as
  \<open>('k, 'v) fmap\<close>, the ascending iteration of a B-tree as \<open>sorted_list_of_fset\<close>,
  \<open>Result<T, E>\<close> as \<open>'e + 'a\<close>), and proves the facts about them that every
  component uses: what a loop that inserts into a set computes, that ascending iteration is
  canonical, and what iteration over the values of a map returns.
\<close>

subsection \<open>Results\<close>

abbreviation Err :: "'e \<Rightarrow> 'e + 'a" where
  "Err \<equiv> Inl"

abbreviation Ok :: "'a \<Rightarrow> 'e + 'a" where
  "Ok \<equiv> Inr"

definition is_ok :: "'e + 'a \<Rightarrow> bool" where
  "is_ok r = (case r of Err _ \<Rightarrow> False | Ok _ \<Rightarrow> True)"

lemma is_ok_simps [simp]:
  "is_ok (Ok x)"
  "\<not> is_ok (Err e)"
  by (simp_all add: is_ok_def)

text \<open>\<open>option.ok_or(e)\<close>.\<close>

definition ok_or :: "'a option \<Rightarrow> 'e \<Rightarrow> 'e + 'a" where
  "ok_or x e = (case x of None \<Rightarrow> Err e | Some y \<Rightarrow> Ok y)"

lemma ok_or_simps [simp]:
  "ok_or None e = Err e"
  "ok_or (Some x) e = Ok x"
  by (simp_all add: ok_or_def)

text \<open>The operator \<open>?\<close> and \<open>map_err\<close>.\<close>

definition and_then :: "'e + 'a \<Rightarrow> ('a \<Rightarrow> 'e + 'b) \<Rightarrow> 'e + 'b" where
  "and_then r f = (case r of Err e \<Rightarrow> Err e | Ok x \<Rightarrow> f x)"

definition map_err :: "('e \<Rightarrow> 'f) \<Rightarrow> 'e + 'a \<Rightarrow> 'f + 'a" where
  "map_err f r = (case r of Err e \<Rightarrow> Err (f e) | Ok x \<Rightarrow> Ok x)"

lemma and_then_simps [simp]:
  "and_then (Err e) f = Err e"
  "and_then (Ok x) f = f x"
  by (simp_all add: and_then_def)

lemma and_then_Ok_iff: "and_then r f = Ok y \<longleftrightarrow> (\<exists>x. r = Ok x \<and> f x = Ok y)"
  by (cases r) auto

lemma map_err_simps [simp]:
  "map_err f (Err e) = Err (f e)"
  "map_err f (Ok x) = Ok x"
  "map_err f r = Ok x \<longleftrightarrow> r = Ok x"
  by (cases r; simp add: map_err_def)+

lemma ok_or_Ok_iff [simp]: "ok_or x e = Ok y \<longleftrightarrow> x = Some y"
  by (cases x) auto

subsection \<open>Ascending iteration\<close>

named_theorems btree_simps \<open>what iterating over a B-tree set or map returns\<close>

lemma sorted_list_of_fset_sorted [simp]: "sorted (sorted_list_of_fset A)"
  by (simp add: sorted_list_of_fset.rep_eq)

lemma sorted_list_of_fset_distinct [simp]: "distinct (sorted_list_of_fset A)"
  by (simp add: sorted_list_of_fset.rep_eq)

lemma length_sorted_list_of_fset [simp]: "length (sorted_list_of_fset A) = fcard A"
  by (simp add: sorted_list_of_fset.rep_eq fcard.rep_eq)

text \<open>Two strictly ascending lists with the same elements are the same list.\<close>

lemma sorted_list_of_fset_unique:
  assumes "sorted xs" and "distinct xs" and "set xs = fset A"
  shows "sorted_list_of_fset A = xs"
  by (rule sorted_distinct_set_unique) (use assms in auto)

lemma sorted_list_of_fset_inject:
  "sorted_list_of_fset A = sorted_list_of_fset B \<longleftrightarrow> A = B"
  by (metis sorted_list_of_fset_simps(2))

lemma sorted_list_of_fset_empty [simp]: "sorted_list_of_fset {||} = []"
  by (rule sorted_list_of_fset_unique) auto

text \<open>Filtering an ascending iteration is the ascending iteration of the filtered set.\<close>

lemma filter_sorted_list_of_fset:
  "filter P (sorted_list_of_fset A) = sorted_list_of_fset (ffilter P A)"
  by (rule sorted_list_of_fset_unique [symmetric]) (auto simp: sorted_wrt_filter sorted_filter [where f = id, simplified])

lemma fset_of_sorted_filter [btree_simps]:
  "fset_of_list (filter P (sorted_list_of_fset A)) = ffilter P A"
  by (simp add: filter_sorted_list_of_fset)

subsection \<open>Loops that fill a set\<close>

text \<open>
  \<open>for x in xs \{ if let Some(y) = f(x) \{ set.insert(y); \} \}\<close>: what the loop leaves in the set
  depends only on the elements it has seen.
\<close>

definition insert_some :: "('a \<Rightarrow> 'b option) \<Rightarrow> 'a \<Rightarrow> 'b fset \<Rightarrow> 'b fset" where
  "insert_some f x acc = (case f x of None \<Rightarrow> acc | Some y \<Rightarrow> finsert y acc)"

lemma fset_fold_insert_some:
  "fset (fold (insert_some f) xs acc) = {y. \<exists>x\<in>set xs. f x = Some y} \<union> fset acc"
  by (induction xs arbitrary: acc) (auto simp: insert_some_def split: option.splits)

lemma fold_insert_some_member:
  "y |\<in>| fold (insert_some f) xs acc \<longleftrightarrow> (\<exists>x\<in>set xs. f x = Some y) \<or> y |\<in>| acc"
  using fset_fold_insert_some [of f xs acc] by auto

lemma fold_insert_some_cong:
  assumes "set xs = set ys"
  shows "fold (insert_some f) xs acc = fold (insert_some f) ys acc"
  by (rule fset_eqI) (simp add: fold_insert_some_member assms)

lemma fold_fminus_member:
  "y |\<in>| fold (\<lambda>x acc. acc |-| {|x|}) xs acc \<longleftrightarrow> y |\<in>| acc \<and> y \<notin> set xs"
  by (induction xs arbitrary: acc) auto

subsection \<open>Iterating over a B-tree map\<close>

text \<open>\<open>map.values()\<close>: the values in ascending key order.\<close>

definition fm_values :: "('k::linorder, 'v) fmap \<Rightarrow> 'v list" where
  "fm_values m = map snd (sorted_list_of_fmap m)"

lemma set_sorted_list_of_fmap [btree_simps]:
  "set (sorted_list_of_fmap m) = {(k, v). fmlookup m k = Some v}"
  by (auto simp: sorted_list_of_fmap_def image_iff fmdom.rep_eq dom_def)

lemma set_fm_values [btree_simps]: "set (fm_values m) = {v. \<exists>k. fmlookup m k = Some v}"
  by (force simp: fm_values_def set_sorted_list_of_fmap)

lemma map_fst_sorted_list_of_fmap [simp]:
  "map fst (sorted_list_of_fmap m) = sorted_list_of_fset (fmdom m)"
  by (simp add: sorted_list_of_fmap_def comp_def)

lemma distinct_sorted_list_of_fmap [simp]: "distinct (sorted_list_of_fmap m)"
  by (metis distinct_map map_fst_sorted_list_of_fmap sorted_list_of_fset_distinct)

lemma length_sorted_list_of_fmap [simp]: "length (sorted_list_of_fmap m) = fcard (fmdom m)"
  by (simp add: sorted_list_of_fmap_def)

text \<open>\<open>map.entry(k).or_default()\<close> read as a value.\<close>

definition fm_get_or :: "'v \<Rightarrow> ('k, 'v) fmap \<Rightarrow> 'k \<Rightarrow> 'v" where
  "fm_get_or d m k = (case fmlookup m k of None \<Rightarrow> d | Some v \<Rightarrow> v)"

lemma fm_get_or_fmupd [simp]: "fm_get_or d (fmupd k v m) k' = (if k = k' then v else fm_get_or d m k')"
  by (simp add: fm_get_or_def)

lemma fm_get_or_None [simp]: "fmlookup m k = None \<Longrightarrow> fm_get_or d m k = d"
  by (simp add: fm_get_or_def)

lemma fm_get_or_Some [simp]: "fmlookup m k = Some v \<Longrightarrow> fm_get_or d m k = v"
  by (simp add: fm_get_or_def)

lemma fcard_simps [simp]: "fcard {||} = 0" "fcard {|x|} = Suc 0"
  by (simp_all add: fcard.rep_eq)

lemma fcard_finsert_bound: "fcard (finsert x A) \<le> Suc (fcard A)"
  by (metis eq_imp_le fcard_finsert_if le_Suc_eq)

lemma fmlookup_None_iff: "fmlookup m k = None \<longleftrightarrow> k |\<notin>| fmdom m"
  by (metis fmdom_notD fmdom_notI)

subsection \<open>Lists\<close>

lemma sorted_le_last: "sorted xs \<Longrightarrow> x \<in> set xs \<Longrightarrow> x \<le> last xs"
  by (induction xs) auto

text \<open>\<open>v.sort_by_key(f); v.pop()\<close> returns an element with the greatest key.\<close>

lemma last_sort_key_in: "xs \<noteq> [] \<Longrightarrow> last (sort_key f xs) \<in> set xs"
  by (metis last_in_set length_0_conv length_sort set_sort)

lemma last_sort_key_greatest:
  assumes "x \<in> set xs"
  shows "f x \<le> f (last (sort_key f xs))"
proof -
  have "f x \<in> set (map f (sort_key f xs))" using assms by simp
  then have "f x \<le> last (map f (sort_key f xs))" by (rule sorted_le_last [rotated]) simp
  moreover have "sort_key f xs \<noteq> []" using assms by (metis empty_iff empty_set set_sort)
  ultimately show ?thesis by (simp add: last_map)
qed

lemma filter_eq_self: "(\<forall>x\<in>set xs. P x) \<Longrightarrow> filter P xs = xs"
  by (induction xs) auto

end
