(* ===== verification/Rust_Str.thy ===== *)
theory Rust_Str
  imports Cluster_Prelude "HOL-Library.Word"
begin

section \<open>Rust strings as UTF-8 byte strings\<close>

text \<open>
  A Rust \<open>str\<close> is a sequence of bytes that is well-formed UTF-8, and \<open>len\<close>,
  \<open>bytes\<close>, \<open>starts_with\<close>, equality and the order all work on those bytes. The model
  therefore reads a \<open>str\<close> as a HOL \<open>string\<close>, whose characters are the 256 byte values;
  \<open>utf8_decode\<close> says which byte strings are well-formed and what code points they hold.
  Everything here is the part of the standard library the program calls: ASCII classification,
  \<open>trim\<close> (which removes Unicode white space), \<open>trim_start_matches\<close>, \<open>split\<close>,
  \<open>split_once\<close>, \<open>strip_prefix\<close>, decimal printing and \<open>from_str_radix\<close>.
\<close>

type_synonym byte = char
type_synonym rstr = string

subsection \<open>Bytes\<close>

abbreviation code :: "byte \<Rightarrow> nat" where
  "code b \<equiv> of_char b"

lemma code_less [simp]: "code b < 256"
  using of_char_mod_256 [of b, where ?'a = nat] by (metis mod_less_divisor zero_less_numeral)

lemma code_inject: "code a = code b \<longleftrightarrow> a = b"
  by simp

lemma code_char_of [simp]: "n < 256 \<Longrightarrow> code (char_of n) = n"
  by simp

definition is_ascii_digit :: "byte \<Rightarrow> bool" where
  "is_ascii_digit b \<longleftrightarrow> 48 \<le> code b \<and> code b \<le> 57"

definition is_ascii_hexdigit :: "byte \<Rightarrow> bool" where
  "is_ascii_hexdigit b \<longleftrightarrow> (48 \<le> code b \<and> code b \<le> 57) \<or> (65 \<le> code b \<and> code b \<le> 70) \<or> (97 \<le> code b \<and> code b \<le> 102)"

definition is_ascii_alphanumeric :: "byte \<Rightarrow> bool" where
  "is_ascii_alphanumeric b \<longleftrightarrow> (48 \<le> code b \<and> code b \<le> 57) \<or> (65 \<le> code b \<and> code b \<le> 90) \<or> (97 \<le> code b \<and> code b \<le> 122)"

text \<open>Printable ASCII without the space: \<open>U+0021 ..= U+007E\<close>.\<close>

definition is_ascii_graphic :: "byte \<Rightarrow> bool" where
  "is_ascii_graphic b \<longleftrightarrow> 33 \<le> code b \<and> code b \<le> 126"

definition to_ascii_lowercase :: "byte \<Rightarrow> byte" where
  "to_ascii_lowercase b = (if 65 \<le> code b \<and> code b \<le> 90 then char_of (code b + 32) else b)"

lemmas ascii_defs =
  is_ascii_digit_def is_ascii_hexdigit_def is_ascii_alphanumeric_def is_ascii_graphic_def

lemma code_to_ascii_lowercase:
  "code (to_ascii_lowercase b) = (if 65 \<le> code b \<and> code b \<le> 90 then code b + 32 else code b)"
  by (simp add: to_ascii_lowercase_def)

lemma to_ascii_lowercase_idem [simp]: "to_ascii_lowercase (to_ascii_lowercase b) = to_ascii_lowercase b"
  by (simp add: to_ascii_lowercase_def)

lemma hexdigit_graphic: "is_ascii_hexdigit b \<Longrightarrow> is_ascii_graphic b"
  by (auto simp: ascii_defs)

lemma alphanumeric_graphic: "is_ascii_alphanumeric b \<Longrightarrow> is_ascii_graphic b"
  by (auto simp: ascii_defs)

subsection \<open>UTF-8\<close>

definition is_cont :: "nat \<Rightarrow> bool" where
  "is_cont b \<longleftrightarrow> 128 \<le> b \<and> b \<le> 191"

text \<open>
  The well-formed byte sequences of the Unicode standard (its table 3-7), as
  \<open>core::str::from_utf8\<close> accepts them: no overlong form, no surrogate, nothing above
  \<open>U+10FFFF\<close>. \<open>None\<close> is a malformed sequence, \<open>Some cs\<close> the code points.
\<close>

fun utf8_decode :: "nat list \<Rightarrow> nat list option" where
  "utf8_decode [] = Some []"
| "utf8_decode (b # bs) =
    (if b < 128 then map_option ((#) b) (utf8_decode bs)
     else case bs of
       [] \<Rightarrow> None
     | b2 # bs2 \<Rightarrow>
         if 194 \<le> b \<and> b \<le> 223 then
           (if is_cont b2
            then map_option ((#) ((b - 192) * 64 + (b2 - 128))) (utf8_decode bs2) else None)
         else case bs2 of
           [] \<Rightarrow> None
         | b3 # bs3 \<Rightarrow>
             if 224 \<le> b \<and> b \<le> 239 then
               (if is_cont b2 \<and> is_cont b3 \<and> (b = 224 \<longrightarrow> 160 \<le> b2) \<and> (b = 237 \<longrightarrow> b2 \<le> 159)
                then map_option ((#) ((b - 224) * 4096 + (b2 - 128) * 64 + (b3 - 128))) (utf8_decode bs3)
                else None)
             else case bs3 of
               [] \<Rightarrow> None
             | b4 # bs4 \<Rightarrow>
                 if 240 \<le> b \<and> b \<le> 244 \<and> is_cont b2 \<and> is_cont b3 \<and> is_cont b4
                    \<and> (b = 240 \<longrightarrow> 144 \<le> b2) \<and> (b = 244 \<longrightarrow> b2 \<le> 143)
                 then map_option ((#) ((b - 240) * 262144 + (b2 - 128) * 4096 + (b3 - 128) * 64 + (b4 - 128)))
                        (utf8_decode bs4)
                 else None)"

definition utf8_chars :: "rstr \<Rightarrow> nat list option" where
  "utf8_chars s = utf8_decode (map code s)"

text \<open>The invariant of the type \<open>str\<close>, and what \<open>String::from_utf8\<close> tests.\<close>

definition utf8_valid :: "rstr \<Rightarrow> bool" where
  "utf8_valid s \<longleftrightarrow> utf8_chars s \<noteq> None"

text \<open>\<open>char::is_control\<close>: the general category Cc.\<close>

definition is_control :: "nat \<Rightarrow> bool" where
  "is_control c \<longleftrightarrow> c < 32 \<or> (127 \<le> c \<and> c < 160)"

text \<open>\<open>s.chars().any(char::is_control)\<close>; a \<open>str\<close> always decodes.\<close>

definition any_control :: "rstr \<Rightarrow> bool" where
  "any_control s = (case utf8_chars s of None \<Rightarrow> False | Some cs \<Rightarrow> list_ex is_control cs)"

lemma utf8_chars_ascii: "\<forall>b\<in>set s. code b < 128 \<Longrightarrow> utf8_chars s = Some (map code s)"
  by (induction s) (auto simp: utf8_chars_def)

lemma utf8_valid_ascii: "\<forall>b\<in>set s. code b < 128 \<Longrightarrow> utf8_valid s"
  by (simp add: utf8_valid_def utf8_chars_ascii)

lemma utf8_valid_graphic: "list_all is_ascii_graphic s \<Longrightarrow> utf8_valid s"
  by (rule utf8_valid_ascii) (auto simp: list_all_iff ascii_defs)

subsection \<open>White space\<close>

text \<open>The UTF-8 encodings of the code points with the Unicode property \<open>White_Space\<close>.\<close>

definition ws_codes :: "nat list list" where
  "ws_codes =
    [[9], [10], [11], [12], [13], [32], [194, 133], [194, 160], [225, 154, 128],
     [226, 128, 128], [226, 128, 129], [226, 128, 130], [226, 128, 131], [226, 128, 132],
     [226, 128, 133], [226, 128, 134], [226, 128, 135], [226, 128, 136], [226, 128, 137],
     [226, 128, 138], [226, 128, 168], [226, 128, 169], [226, 128, 175], [226, 129, 159],
     [227, 128, 128]]"

definition ws_seqs :: "rstr list" where
  "ws_seqs = map (map char_of) ws_codes"

text \<open>The rest of \<open>s\<close> after the first of the (non-empty) prefixes \<open>ps\<close> that it starts with.\<close>

fun strip_any :: "rstr list \<Rightarrow> rstr \<Rightarrow> rstr option" where
  "strip_any [] s = None"
| "strip_any (p # ps) s =
    (if p \<noteq> [] \<and> take (length p) s = p then Some (drop (length p) s) else strip_any ps s)"

lemma strip_any_length: "strip_any ps s = Some r \<Longrightarrow> length r < length s"
proof (induction ps)
  case (Cons p ps)
  have "length s - length p < length s" if "p \<noteq> []" "take (length p) s = p"
    using that by (metis diff_less length_greater_0_conv take_eq_Nil)
  with Cons show ?case by (auto split: if_splits)
qed simp

function trim_seqs :: "rstr list \<Rightarrow> rstr \<Rightarrow> rstr" where
  "trim_seqs ps s = (case strip_any ps s of None \<Rightarrow> s | Some r \<Rightarrow> trim_seqs ps r)"
  by pat_completeness auto
termination
  by (relation "measure (\<lambda>(ps, s). length s)") (auto dest: strip_any_length)

declare trim_seqs.simps [simp del]

definition trim_start :: "rstr \<Rightarrow> rstr" where
  "trim_start s = trim_seqs ws_seqs s"

definition trim_end :: "rstr \<Rightarrow> rstr" where
  "trim_end s = rev (trim_seqs (map rev ws_seqs) (rev s))"

text \<open>
  \<open>str::trim\<close>. White space is found by its encoding: in well-formed UTF-8 the string starts (ends)
  with the encoding of a code point exactly when its first (last) code point is that one.
\<close>

definition trim :: "rstr \<Rightarrow> rstr" where
  "trim s = trim_end (trim_start s)"

lemma strip_any_None_iff:
  "strip_any ps s = None \<longleftrightarrow> (\<forall>p\<in>set ps. p = [] \<or> take (length p) s \<noteq> p)"
  by (induction ps) auto

lemma trim_seqs_id: "\<forall>p\<in>set ps. p = [] \<or> take (length p) s \<noteq> p \<Longrightarrow> trim_seqs ps s = s"
  by (subst trim_seqs.simps) (simp add: strip_any_None_iff [symmetric])

lemma trim_seqs_stuck: "strip_any ps (trim_seqs ps s) = None"
proof (induction ps s rule: trim_seqs.induct)
  case (1 ps s)
  then show ?case
    by (cases "strip_any ps s") (simp_all add: trim_seqs.simps [of ps s])
qed

lemma trim_seqs_Nil [simp]: "trim_seqs ps [] = []"
  by (rule trim_seqs_id) auto

lemma strip_any_hd:
  assumes "\<forall>p\<in>set ps. p \<noteq> [] \<longrightarrow> hd p \<noteq> c"
  shows "strip_any ps (c # s) = None"
  using assms by (induction ps) (auto simp: neq_Nil_conv)

text \<open>A text that starts and ends with printable ASCII is not changed by \<open>trim\<close>.\<close>

lemma ws_heads: "p \<in> set ws_seqs \<Longrightarrow> \<not> is_ascii_graphic (hd p)"
  by (auto simp: ws_seqs_def ws_codes_def ascii_defs)

lemma ws_lasts: "p \<in> set (map rev ws_seqs) \<Longrightarrow> \<not> is_ascii_graphic (hd p)"
  by (auto simp: ws_seqs_def ws_codes_def ascii_defs)

lemma trim_start_graphic: "s = [] \<or> is_ascii_graphic (hd s) \<Longrightarrow> trim_start s = s"
proof (cases s)
  case (Cons c cs)
  assume "s = [] \<or> is_ascii_graphic (hd s)"
  with Cons have "strip_any ws_seqs (c # cs) = None"
    using strip_any_hd [of ws_seqs c] ws_heads by force
  with Cons show ?thesis by (simp add: trim_start_def trim_seqs.simps)
qed (simp add: trim_start_def)

lemma trim_end_graphic:
  assumes "s = [] \<or> is_ascii_graphic (last s)"
  shows "trim_end s = s"
proof (cases s rule: rev_cases)
  case Nil
  then show ?thesis by (simp add: trim_end_def)
next
  case (snoc xs c)
  with assms have "is_ascii_graphic c" by simp
  then have "strip_any (map rev ws_seqs) (c # rev xs) = None"
    using strip_any_hd [of "map rev ws_seqs" c] ws_lasts by blast
  with snoc show ?thesis by (simp add: trim_end_def trim_seqs.simps)
qed

lemma trim_graphic_ends:
  "s = [] \<or> (is_ascii_graphic (hd s) \<and> is_ascii_graphic (last s)) \<Longrightarrow> trim s = s"
  by (auto simp: trim_def trim_start_graphic trim_end_graphic)

lemma trim_graphic: "list_all is_ascii_graphic s \<Longrightarrow> trim s = s"
  by (rule trim_graphic_ends) (cases s, auto simp: list_all_iff)

lemma trim_Nil [simp]: "trim [] = []"
  by (simp add: trim_graphic_ends)


text \<open>No encoding of a white-space code point is a prefix (or a suffix) of another one, so removing
  white space from the front of \<open>w @ s\<close> removes exactly \<open>w\<close> first.\<close>

definition prefix_free :: "'a list list \<Rightarrow> bool" where
  "prefix_free ps \<longleftrightarrow> list_all (\<lambda>p. p \<noteq> [] \<and> list_all (\<lambda>q. take (length p) q = p \<longrightarrow> p = q) ps) ps"

lemma ws_codes_prefix_free: "prefix_free ws_codes"
  by (simp add: prefix_free_def ws_codes_def)

lemma ws_codes_suffix_free: "prefix_free (map rev ws_codes)"
  by (simp add: prefix_free_def ws_codes_def)

lemma ws_codes_bytes: "p \<in> set ws_codes \<Longrightarrow> map code (map char_of p :: rstr) = p"
  by (auto simp: ws_codes_def)

lemma prefix_free_map:
  assumes "prefix_free ps" and "\<forall>p\<in>set ps. map g (map f p) = p"
  shows "prefix_free (map (map f) ps)"
  unfolding prefix_free_def list_all_iff
proof (intro ballI conjI impI)
  fix p assume "p \<in> set (map (map f) ps)"
  then obtain p' where p': "p = map f p'" "p' \<in> set ps" by auto
  with assms(1) show "p \<noteq> []" by (auto simp: prefix_free_def list_all_iff)
  fix q assume "q \<in> set (map (map f) ps)" and t: "take (length p) q = p"
  then obtain q' where q': "q = map f q'" "q' \<in> set ps" by auto
  have "map g (take (length p) q) = map g p" using t by simp
  then have "take (length p') q' = p'" using p' q' assms(2) by (simp add: take_map [symmetric])
  then show "p = q" using assms(1) p' q' by (auto simp: prefix_free_def list_all_iff)
qed

lemma ws_seqs_prefix_free: "prefix_free ws_seqs"
  unfolding ws_seqs_def
  by (rule prefix_free_map [where g = code]) (use ws_codes_prefix_free ws_codes_bytes in auto)

lemma ws_seqs_suffix_free: "prefix_free (map rev ws_seqs)"
proof -
  have "map rev ws_seqs = map (map char_of) (map rev ws_codes)"
    by (simp add: ws_seqs_def rev_map)
  moreover have "\<forall>p\<in>set (map rev ws_codes). map code (map char_of p :: rstr) = p"
    using ws_codes_bytes by (auto simp: rev_map [symmetric])
  ultimately show ?thesis
    using prefix_free_map [OF ws_codes_suffix_free, where g = code] by simp
qed

lemma take_append_comparable:
  assumes "take (length p) (q @ s) = p" and "length p \<le> length q"
  shows "take (length p) q = p"
  using assms by simp

lemma strip_any_prefix_free:
  assumes pf: "\<forall>p\<in>set ps \<union> {w}. p \<noteq> [] \<and> (\<forall>q\<in>set ps \<union> {w}. take (length p) q = p \<longrightarrow> p = q)"
    and w: "w \<in> set ps"
  shows "strip_any ps (w @ s) = Some s"
  using assms
proof (induction ps)
  case (Cons p ps)
  show ?case
  proof (cases "take (length p) (w @ s) = p")
    case True
    have "p = w"
    proof (cases "length p \<le> length w")
      case True
      with \<open>take (length p) (w @ s) = p\<close> have "take (length p) w = p" by simp
      with Cons.prems show ?thesis by auto
    next
      case False
      with True have "take (length w) p = w"
        by (metis append_eq_conv_conj min.absorb3 not_le take_take order_le_less)
      with Cons.prems show ?thesis by auto
    qed
    with Cons.prems show ?thesis by simp
  next
    case False
    then have "w \<noteq> p" by auto
    with Cons.prems have "w \<in> set ps" by auto
    with Cons.prems have "strip_any ps (w @ s) = Some s" by (intro Cons.IH) auto
    with False show ?thesis by simp
  qed
qed simp

lemma trim_seqs_append:
  assumes "prefix_free ps" and "w \<in> set ps"
  shows "trim_seqs ps (w @ s) = trim_seqs ps s"
proof -
  have "strip_any ps (w @ s) = Some s"
    by (rule strip_any_prefix_free) (use assms in \<open>auto simp: prefix_free_def list_all_iff\<close>)
  then show ?thesis by (simp add: trim_seqs.simps [of ps "w @ s"])
qed

lemma trim_seqs_concat:
  "prefix_free ps \<Longrightarrow> set ws \<subseteq> set ps \<Longrightarrow> trim_seqs ps (concat ws @ s) = trim_seqs ps s"
  by (induction ws) (auto simp: trim_seqs_append)

text \<open>\<open>trim\<close> removes any amount of white space around a text that starts and ends with printable
  ASCII.\<close>

lemma trim_white_space:
  assumes "set ws1 \<subseteq> set ws_seqs" and "set ws2 \<subseteq> set ws_seqs"
    and "s \<noteq> []" and "is_ascii_graphic (hd s)" and "is_ascii_graphic (last s)"
  shows "trim (concat ws1 @ s @ concat ws2) = s"
proof -
  have "trim_start (concat ws1 @ s @ concat ws2) = trim_start (s @ concat ws2)"
    using assms(1) by (simp add: trim_start_def trim_seqs_concat ws_seqs_prefix_free)
  also have "\<dots> = s @ concat ws2" using assms(3,4) by (simp add: trim_start_graphic)
  finally have "trim (concat ws1 @ s @ concat ws2) = trim_end (s @ concat ws2)"
    by (simp add: trim_def)
  also have "\<dots> = rev (trim_seqs (map rev ws_seqs) (concat (map rev (rev ws2)) @ rev s))"
    by (simp add: trim_end_def rev_concat rev_map)
  also have "\<dots> = trim_end s"
    using assms(2) by (subst trim_seqs_concat) (auto simp: ws_seqs_suffix_free trim_end_def)
  also have "\<dots> = s" using assms(5) by (simp add: trim_end_graphic)
  finally show ?thesis .
qed

subsection \<open>Prefixes and splitting\<close>

definition starts_with :: "rstr \<Rightarrow> rstr \<Rightarrow> bool" where
  "starts_with s p \<longleftrightarrow> take (length p) s = p"

definition strip_prefix :: "rstr \<Rightarrow> rstr \<Rightarrow> rstr option" where
  "strip_prefix s p = (if starts_with s p then Some (drop (length p) s) else None)"

lemma starts_with_append [simp]: "starts_with (p @ s) p"
  by (simp add: starts_with_def)

lemma strip_prefix_append [simp]: "strip_prefix (p @ s) p = Some s"
  by (simp add: strip_prefix_def)

lemma starts_with_iff: "starts_with s p \<longleftrightarrow> (\<exists>r. s = p @ r)"
  unfolding starts_with_def by (metis append_eq_conv_conj append_take_drop_id)

text \<open>\<open>trim_start_matches(p)\<close> for a non-empty \<open>p\<close>: the prefix is removed as often as it is there.\<close>

definition trim_start_matches :: "rstr \<Rightarrow> rstr \<Rightarrow> rstr" where
  "trim_start_matches p s = trim_seqs [p] s"

lemma trim_start_matches_id: "p \<noteq> [] \<Longrightarrow> \<not> starts_with s p \<Longrightarrow> trim_start_matches p s = s"
  by (simp add: trim_start_matches_def trim_seqs_id starts_with_def)

lemma trim_start_matches_append:
  "p \<noteq> [] \<Longrightarrow> trim_start_matches p (p @ s) = trim_start_matches p s"
  by (simp add: trim_start_matches_def trim_seqs.simps [of "[p]" "p @ s"])

lemma trim_start_matches_stuck: "p \<noteq> [] \<Longrightarrow> \<not> starts_with (trim_start_matches p s) p"
  using trim_seqs_stuck [of "[p]" s]
  by (auto simp: trim_start_matches_def starts_with_def split: if_splits)

text \<open>What the trimming functions remove: a sequence of the given strings, and nothing else.\<close>

lemma strip_any_Some_split: "strip_any ps s = Some r \<Longrightarrow> \<exists>p\<in>set ps. s = p @ r"
proof (induction ps)
  case (Cons p ps)
  have "s = p @ drop (length p) s" if "take (length p) s = p" using that by (metis append_take_drop_id)
  with Cons show ?case by (auto split: if_splits)
qed simp

lemma trim_seqs_split: "\<exists>ws. set ws \<subseteq> set ps \<and> s = concat ws @ trim_seqs ps s"
proof (induction ps s rule: trim_seqs.induct)
  case (1 ps s)
  show ?case
  proof (cases "strip_any ps s")
    case None
    then have "trim_seqs ps s = s" by (simp add: trim_seqs.simps [of ps s])
    then show ?thesis by (intro exI [of _ "[]"]) simp
  next
    case (Some r)
    from 1 [OF Some] obtain ws where ws: "set ws \<subseteq> set ps" "r = concat ws @ trim_seqs ps r" by blast
    from strip_any_Some_split [OF Some] obtain p where p: "p \<in> set ps" "s = p @ r" by blast
    have "trim_seqs ps s = trim_seqs ps r" using Some by (simp add: trim_seqs.simps [of ps s])
    then show ?thesis using ws p by (intro exI [of _ "p # ws"]) simp
  qed
qed

lemma trim_split:
  "\<exists>ws1 ws2. set ws1 \<subseteq> set ws_seqs \<and> set ws2 \<subseteq> set ws_seqs \<and> s = concat ws1 @ trim s @ concat ws2"
proof -
  obtain ws1 where w1: "set ws1 \<subseteq> set ws_seqs" "s = concat ws1 @ trim_start s"
    using trim_seqs_split [of ws_seqs s] by (auto simp: trim_start_def)
  obtain ws where w: "set ws \<subseteq> set (map rev ws_seqs)"
      "rev (trim_start s) = concat ws @ trim_seqs (map rev ws_seqs) (rev (trim_start s))"
    using trim_seqs_split by blast
  from w(2) have "trim_start s = trim s @ rev (concat ws)"
    by (metis rev_append rev_rev_ident trim_def trim_end_def)
  moreover have "rev (concat ws) = concat (rev (map rev ws))" by (simp add: rev_concat rev_map)
  moreover have "set (rev (map rev ws)) \<subseteq> set ws_seqs" using w(1) by auto
  ultimately show ?thesis using w1 by metis
qed

lemma trim_start_matches_split: "\<exists>n. s = concat (replicate n p) @ trim_start_matches p s"
proof -
  obtain ws where ws: "set ws \<subseteq> {p}" "s = concat ws @ trim_start_matches p s"
    using trim_seqs_split [of "[p]" s] by (auto simp: trim_start_matches_def)
  then have "ws = replicate (length ws) p" by (simp add: replicate_eqI subset_singleton_iff) (auto intro: replicate_eqI)
  with ws(2) show ?thesis by metis
qed

text \<open>\<open>s.split(c)\<close> for a one-byte \<open>c\<close>: always at least one piece.\<close>

fun split_on :: "byte \<Rightarrow> rstr \<Rightarrow> rstr list" where
  "split_on c [] = [[]]"
| "split_on c (b # bs) =
    (if b = c then [] # split_on c bs
     else case split_on c bs of [] \<Rightarrow> [[b]] | p # ps \<Rightarrow> (b # p) # ps)"

lemma split_on_nonempty [simp]: "split_on c s \<noteq> []"
  by (cases s) (auto split: list.splits)

lemma split_on_no_sep: "c \<notin> set s \<Longrightarrow> split_on c s = [s]"
  by (induction s) auto

lemma split_on_append: "c \<notin> set p \<Longrightarrow> split_on c (p @ c # s) = p # split_on c s"
  by (induction p) auto

text \<open>\<open>s.split_once(c)\<close>: at the first \<open>c\<close>.\<close>

fun split_once :: "byte \<Rightarrow> rstr \<Rightarrow> (rstr \<times> rstr) option" where
  "split_once c [] = None"
| "split_once c (b # bs) =
    (if b = c then Some ([], bs) else map_option (\<lambda>(k, v). (b # k, v)) (split_once c bs))"

lemma split_once_append [simp]: "c \<notin> set k \<Longrightarrow> split_once c (k @ c # v) = Some (k, v)"
  by (induction k) auto

subsection \<open>Numbers\<close>

text \<open>Decimal printing of an unsigned integer (\<open>\{\}\<close> in a format string).\<close>

fun show_dec :: "nat \<Rightarrow> rstr" where
  "show_dec n = (if n < 10 then [char_of (48 + n)] else show_dec (n div 10) @ [char_of (48 + n mod 10)])"

declare show_dec.simps [simp del]

fun read_dec :: "rstr \<Rightarrow> nat" where
  "read_dec s = foldl (\<lambda>acc b. 10 * acc + (code b - 48)) 0 s"

lemma read_show_dec: "read_dec (show_dec n) = n"
proof (induction n rule: show_dec.induct)
  case (1 n)
  show ?case
  proof (cases "n < 10")
    case True
    then show ?thesis by (simp add: show_dec.simps [of n])
  next
    case False
    have "48 + n mod 10 < 256" by (simp add: trans_less_add1)
    with False "1.IH" show ?thesis by (simp add: show_dec.simps [of n])
  qed
qed

lemma show_dec_inject [simp]: "show_dec m = show_dec n \<longleftrightarrow> m = n"
  by (metis read_show_dec)

lemma show_dec_digits: "b \<in> set (show_dec n) \<Longrightarrow> is_ascii_digit b"
proof (induction n rule: show_dec.induct)
  case (1 n)
  have "48 + n mod 10 < 256" "48 + n mod 10 \<le> 57" by simp_all
  with 1 show ?case
    by (cases "n < 10") (auto simp: show_dec.simps [of n] is_ascii_digit_def)
qed

text \<open>The value of a hexadecimal digit.\<close>

definition hex_value :: "byte \<Rightarrow> nat option" where
  "hex_value b =
    (if 48 \<le> code b \<and> code b \<le> 57 then Some (code b - 48)
     else if 97 \<le> code b \<and> code b \<le> 102 then Some (code b - 87)
     else if 65 \<le> code b \<and> code b \<le> 70 then Some (code b - 55) else None)"

lemma hex_value_Some_iff: "hex_value b \<noteq> None \<longleftrightarrow> is_ascii_hexdigit b"
  by (auto simp: hex_value_def is_ascii_hexdigit_def)

lemma hex_value_less: "hex_value b = Some v \<Longrightarrow> v < 16"
  by (auto simp: hex_value_def split: if_splits)

fun hex_digits :: "nat \<Rightarrow> rstr \<Rightarrow> nat option" where
  "hex_digits acc [] = Some acc"
| "hex_digits acc (b # bs) =
    (case hex_value b of None \<Rightarrow> None
     | Some v \<Rightarrow> if acc * 16 + v < 256 then hex_digits (acc * 16 + v) bs else None)"

text \<open>
  \<open>u8::from_str_radix(s, 16)\<close>: an empty text and a lone sign are refused, a leading \<open>+\<close> before at
  least one digit is accepted (a \<open>-\<close> is not, the type being unsigned), and a value that leaves
  eight bits is refused.
\<close>

definition u8_from_str_radix16 :: "rstr \<Rightarrow> 8 word option" where
  "u8_from_str_radix16 s =
    (case s of
       [] \<Rightarrow> None
     | [b] \<Rightarrow> if b = CHR ''+'' \<or> b = CHR ''-'' then None else map_option of_nat (hex_digits 0 [b])
     | b # bs \<Rightarrow> map_option of_nat (hex_digits 0 (if b = CHR ''+'' then bs else s)))"

text \<open>\<open>\{b:02X\}\<close>: two upper-case hexadecimal digits.\<close>

definition hex_digit_upper :: "nat \<Rightarrow> byte" where
  "hex_digit_upper n = char_of (if n < 10 then 48 + n else 55 + n)"

definition show_hex02 :: "byte \<Rightarrow> rstr" where
  "show_hex02 b = [hex_digit_upper (code b div 16), hex_digit_upper (code b mod 16)]"

lemma hex_value_digit_upper: "n < 16 \<Longrightarrow> hex_value (hex_digit_upper n) = Some n"
  by (simp add: hex_value_def hex_digit_upper_def)

lemma hex_digit_upper_range:
  assumes "n < 16"
  shows "48 \<le> code (hex_digit_upper n) \<and> code (hex_digit_upper n) \<le> 70 \<and> hex_digit_upper n \<noteq> CHR ''+''"
proof -
  have "code (hex_digit_upper n) = (if n < 10 then 48 + n else 55 + n)"
    using assms by (simp add: hex_digit_upper_def)
  with assms have "48 \<le> code (hex_digit_upper n) \<and> code (hex_digit_upper n) \<le> 70" by simp
  moreover have "code (CHR ''+'') = 43" by simp
  ultimately show ?thesis by force
qed

lemma from_str_radix_show_hex02: "u8_from_str_radix16 (show_hex02 b) = Some (of_nat (code b))"
proof -
  have d: "code b div 16 < 16" "code b mod 16 < 16"
    using code_less [of b] by (simp_all add: less_mult_imp_div_less)
  have "code b div 16 * 16 + code b mod 16 = code b" by simp
  then show ?thesis
    using d hex_digit_upper_range [OF d(1)]
    by (simp add: u8_from_str_radix16_def show_hex02_def hex_value_digit_upper)
qed

end
