(* ===== verification/Cid.thy ===== *)
theory Cid
  imports Rust_Str
begin

section \<open>Content ids\<close>

text \<open>
  \<open>is_valid_cid\<close> of \<open>crates/cluster-core/src/lib.rs\<close>: the grammar of the only payload the mesh
  carries. \<open>cid_v0\<close> and \<open>cid_v1\<close> state the two forms the documentation names, the second one
  through the RFC 4648 decoding of the first byte, and the checker is shown to accept exactly these.
\<close>

definition MAX_CID_LEN :: nat where
  "MAX_CID_LEN = 128"

definition B58 :: rstr where
  "B58 = ''123456789ABCDEFGHJKLMNPQRSTUVWXYZabcdefghijkmnopqrstuvwxyz''"

definition base32_char :: "byte \<Rightarrow> bool" where
  "base32_char c \<longleftrightarrow> (97 \<le> code c \<and> code c \<le> 122) \<or> (50 \<le> code c \<and> code c \<le> 55)"

definition is_valid_cid :: "rstr \<Rightarrow> bool" where
  "is_valid_cid s =
    (if length s = 46 \<and> starts_with s ''Qm'' then list_all (\<lambda>c. c \<in> set B58) (drop 2 s)
     else if length s < 8 \<or> length s > MAX_CID_LEN \<or> s ! 0 \<noteq> CHR ''b'' then False
     else let body = drop 1 s
          in list_all base32_char body \<and> body ! 0 = CHR ''a''
             \<and> 101 \<le> code (body ! 1) \<and> code (body ! 1) \<le> 104)"

subsection \<open>The documented grammar\<close>

text \<open>The five-bit value of a base32 character, and the first byte that the first two encode.\<close>

definition b32_value :: "byte \<Rightarrow> nat" where
  "b32_value c = (if 97 \<le> code c then code c - 97 else code c - 50 + 26)"

definition b32_first_byte :: "rstr \<Rightarrow> nat" where
  "b32_first_byte body = b32_value (body ! 0) * 8 + b32_value (body ! 1) div 4"

definition cid_v0 :: "rstr \<Rightarrow> bool" where
  "cid_v0 s \<longleftrightarrow> (\<exists>body. s = ''Qm'' @ body \<and> length body = 44 \<and> set body \<subseteq> set B58)"

definition cid_v1 :: "rstr \<Rightarrow> bool" where
  "cid_v1 s \<longleftrightarrow>
    (\<exists>body. s = CHR ''b'' # body \<and> 7 \<le> length body \<and> length s \<le> MAX_CID_LEN
       \<and> list_all base32_char body \<and> b32_first_byte body = 1)"

lemma base32_value_less: "base32_char c \<Longrightarrow> b32_value c < 32"
  by (auto simp: base32_char_def b32_value_def)

lemma b32_version_byte:
  assumes "base32_char x" and "base32_char y"
  shows "b32_value x * 8 + b32_value y div 4 = 1
    \<longleftrightarrow> x = CHR ''a'' \<and> 101 \<le> code y \<and> code y \<le> 104"
proof -
  have "b32_value x * 8 + b32_value y div 4 = 1 \<longleftrightarrow> b32_value x = 0 \<and> b32_value y div 4 = 1"
    using base32_value_less [OF assms(1)] base32_value_less [OF assms(2)] by (cases "b32_value x") auto
  also have "b32_value x = 0 \<longleftrightarrow> code x = code (CHR ''a'')"
    using assms(1) by (auto simp: base32_char_def b32_value_def)
  also have "b32_value y div 4 = 1 \<longleftrightarrow> 101 \<le> code y \<and> code y \<le> 104"
    using assms(2) by (auto simp: base32_char_def b32_value_def)
  finally show ?thesis by (simp only: code_inject)
qed

lemma B58_alphanumeric: "c \<in> set B58 \<Longrightarrow> is_ascii_alphanumeric c"
  by (auto simp: B58_def is_ascii_alphanumeric_def)

lemma base32_alphanumeric: "base32_char c \<Longrightarrow> is_ascii_alphanumeric c"
  by (auto simp: base32_char_def is_ascii_alphanumeric_def)

lemma cid_v0_iff:
  "cid_v0 s \<longleftrightarrow> length s = 46 \<and> starts_with s ''Qm'' \<and> list_all (\<lambda>c. c \<in> set B58) (drop 2 s)"
  by (auto simp: cid_v0_def starts_with_iff list_all_iff)

lemma cid_v1_iff:
  "cid_v1 s \<longleftrightarrow> 8 \<le> length s \<and> length s \<le> MAX_CID_LEN \<and> s ! 0 = CHR ''b''
     \<and> list_all base32_char (drop 1 s) \<and> drop 1 s ! 0 = CHR ''a''
     \<and> 101 \<le> code (drop 1 s ! 1) \<and> code (drop 1 s ! 1) \<le> 104"
proof (cases s)
  case (Cons c body)
  have "b32_first_byte body = 1 \<longleftrightarrow> body ! 0 = CHR ''a'' \<and> 101 \<le> code (body ! 1) \<and> code (body ! 1) \<le> 104"
    if "7 \<le> length body" "list_all base32_char body"
  proof -
    from that have "0 < length body" "1 < length body" by auto
    with that have "base32_char (body ! 0)" "base32_char (body ! 1)" by (simp_all only: list_all_length)
    then show ?thesis unfolding b32_first_byte_def by (rule b32_version_byte)
  qed
  with Cons show ?thesis by (auto simp: cid_v1_def)
qed (simp add: cid_v1_def)

lemma cid_v1_not_Qm: "cid_v1 s \<Longrightarrow> \<not> starts_with s ''Qm''"
  by (auto simp: cid_v1_def starts_with_iff)

text \<open>C38. The checker accepts exactly the two documented forms: a CIDv0 (\<open>Qm\<close> and 44 base58btc
  characters) or a base32 CIDv1 whose decoded version byte is \<open>0x01\<close>, of at most \<open>MAX_CID_LEN\<close>
  bytes.\<close>

theorem is_valid_cid_grammar: "is_valid_cid s \<longleftrightarrow> cid_v0 s \<or> cid_v1 s"
proof (cases "length s = 46 \<and> starts_with s ''Qm''")
  case True
  then show ?thesis using cid_v1_not_Qm by (auto simp: is_valid_cid_def cid_v0_iff)
next
  case False
  then show ?thesis by (auto simp: is_valid_cid_def cid_v0_iff cid_v1_iff Let_def)
qed

lemma valid_cid_alphanumeric: "is_valid_cid s \<Longrightarrow> list_all is_ascii_alphanumeric s"
proof -
  assume "is_valid_cid s"
  have abc: "is_ascii_alphanumeric (CHR ''Q'')" "is_ascii_alphanumeric (CHR ''m'')"
      "is_ascii_alphanumeric (CHR ''b'')"
    by (simp_all add: is_ascii_alphanumeric_def)
  note \<open>is_valid_cid s\<close>
  moreover have "list_all is_ascii_alphanumeric s" if "length s = 46" "starts_with s ''Qm''"
      "list_all (\<lambda>c. c \<in> set B58) (drop 2 s)"
    using that B58_alphanumeric abc by (auto simp: starts_with_iff list_all_iff)
  moreover have "list_all is_ascii_alphanumeric s" if "s ! 0 = CHR ''b''" "list_all base32_char (drop 1 s)"
    using that base32_alphanumeric abc by (cases s) (auto simp: list_all_iff)
  ultimately show ?thesis by (auto simp: is_valid_cid_def Let_def split: if_splits)
qed

lemma valid_cid_length: "is_valid_cid s \<Longrightarrow> 8 \<le> length s \<and> length s \<le> MAX_CID_LEN"
  by (auto simp: is_valid_cid_def MAX_CID_LEN_def split: if_splits)

end
