(* ===== verification/Seed.thy ===== *)
theory Seed
  imports Rust_Str
begin

section \<open>Group seeds\<close>

text \<open>
  \<open>crates/cluster-core/src/seed.rs\<close>: the link text that carries a group id and up to eight peer
  multiaddrs. The builder, the percent codec, the encoder and the decoder are translated as they are,
  with every early return of the decoder as a value of \<open>seed_error\<close>. The theorems say which seeds
  survive a round trip, what every decoded seed satisfies and what a valid address names.
\<close>

definition SEED_PREFIX :: rstr where
  "SEED_PREFIX = ''citrate-cluster://seed?''"

definition SEED_VERSION :: rstr where
  "SEED_VERSION = ''1''"

definition MAX_SEED_ADDRS :: nat where
  "MAX_SEED_ADDRS = 8"

definition MAX_SEED_LEN :: nat where
  "MAX_SEED_LEN = 2048"

definition MAX_GROUP_LEN :: nat where
  "MAX_GROUP_LEN = 256"

definition MAX_ADDR_LEN :: nat where
  "MAX_ADDR_LEN = 256"

lemmas seed_consts =
  SEED_PREFIX_def SEED_VERSION_def MAX_SEED_ADDRS_def MAX_SEED_LEN_def MAX_GROUP_LEN_def MAX_ADDR_LEN_def

record group_seed =
  gs_group :: rstr
  gs_addrs :: "rstr list"

datatype seed_error = NotASeed | TooLong | Version | Encoding | Group | AddrCount | Addr

fun seed_error_text :: "seed_error \<Rightarrow> rstr" where
  "seed_error_text NotASeed = ''not a cluster seed''"
| "seed_error_text TooLong = ''seed is too long''"
| "seed_error_text Version = ''unsupported seed version''"
| "seed_error_text Encoding = ''seed has a bad escape or is not UTF-8''"
| "seed_error_text Group = ''seed has a missing or malformed group id''"
| "seed_error_text AddrCount = ''seed must carry between 1 and 8 addresses''"
| "seed_error_text Addr = ''seed has a malformed peer address''"

subsection \<open>Validation\<close>

definition valid_group :: "rstr \<Rightarrow> bool" where
  "valid_group g \<longleftrightarrow> trim g \<noteq> [] \<and> length g \<le> MAX_GROUP_LEN \<and> \<not> any_control g"

text \<open>\<open>parts.windows(2).any(...)\<close>.\<close>

fun any_window2 :: "('a \<Rightarrow> 'a \<Rightarrow> bool) \<Rightarrow> 'a list \<Rightarrow> bool" where
  "any_window2 P (x # y # ys) \<longleftrightarrow> P x y \<or> any_window2 P (y # ys)"
| "any_window2 P _ \<longleftrightarrow> False"

definition valid_addr :: "rstr \<Rightarrow> bool" where
  "valid_addr a =
    (if length a > MAX_ADDR_LEN \<or> \<not> starts_with a ''/'' then False
     else if \<not> list_all is_ascii_graphic a then False
     else let parts = split_on (CHR ''/'') (drop 1 a)
          in if list_ex (\<lambda>p. p = []) parts then False
             else any_window2 (\<lambda>w0 w1. w0 = ''p2p'' \<and> list_all is_ascii_alphanumeric w1) parts)"

definition seed_validate :: "group_seed \<Rightarrow> seed_error + unit" where
  "seed_validate seed =
    (if \<not> valid_group (gs_group seed) then Err Group
     else if gs_addrs seed = [] \<or> length (gs_addrs seed) > MAX_SEED_ADDRS then Err AddrCount
     else if \<not> list_all valid_addr (gs_addrs seed) then Err Addr
     else Ok ())"

definition group_seed_new :: "rstr \<Rightarrow> rstr list \<Rightarrow> seed_error + group_seed" where
  "group_seed_new grp addrs =
    (let seed = \<lparr>gs_group = grp, gs_addrs = addrs\<rparr>
     in case seed_validate seed of Err e \<Rightarrow> Err e | Ok _ \<Rightarrow> Ok seed)"

subsection \<open>The percent codec\<close>

definition pct_keep :: "byte \<Rightarrow> bool" where
  "pct_keep b \<longleftrightarrow> is_ascii_graphic b \<and> b \<notin> {CHR ''%'', CHR ''&'', CHR ''='', CHR ''#'', CHR ''+''}"

definition pct_encode_byte :: "byte \<Rightarrow> rstr" where
  "pct_encode_byte b = (if pct_keep b then [b] else CHR ''%'' # show_hex02 b)"

definition pct_encode :: "rstr \<Rightarrow> rstr" where
  "pct_encode s = concat (map pct_encode_byte s)"

fun pct_decode_bytes :: "rstr \<Rightarrow> seed_error + rstr" where
  "pct_decode_bytes [] = Ok []"
| "pct_decode_bytes (b # bs) =
    (if b = CHR ''%'' then
       case bs of
         h1 # h2 # rest \<Rightarrow>
           if \<not> utf8_valid [h1, h2] then Err Encoding
           else (case u8_from_str_radix16 [h1, h2] of
                   None \<Rightarrow> Err Encoding
                 | Some v \<Rightarrow> map_sum id ((#) (char_of (unat v))) (pct_decode_bytes rest))
       | _ \<Rightarrow> Err Encoding
     else map_sum id ((#) b) (pct_decode_bytes bs))"

definition pct_decode :: "rstr \<Rightarrow> seed_error + rstr" where
  "pct_decode s =
    (case pct_decode_bytes s of
       Err e \<Rightarrow> Err e
     | Ok out \<Rightarrow> if utf8_valid out then Ok out else Err Encoding)"

subsection \<open>Encoder and decoder\<close>

definition seed_encode :: "group_seed \<Rightarrow> rstr" where
  "seed_encode seed =
    SEED_PREFIX @ ''v='' @ SEED_VERSION @ ''&g='' @ pct_encode (gs_group seed)
      @ concat (map (\<lambda>a. ''&a='' @ pct_encode a) (gs_addrs seed))"

text \<open>The decoder's loop variables: the version, the group and the addresses seen so far.\<close>

type_synonym decode_vars = "rstr option \<times> rstr option \<times> rstr list"

definition decode_pair :: "rstr \<Rightarrow> decode_vars \<Rightarrow> seed_error + decode_vars" where
  "decode_pair pair vars =
    (case vars of (version, grp, addrs) \<Rightarrow>
      (case (case split_once (CHR ''='') pair of Some kv \<Rightarrow> kv | None \<Rightarrow> (pair, [])) of (k, v) \<Rightarrow>
         if k = ''v'' then
           (case pct_decode v of Err e \<Rightarrow> Err e | Ok x \<Rightarrow> Ok (Some x, grp, addrs))
         else if k = ''g'' then
           (if grp \<noteq> None then Err Group
            else case pct_decode v of Err e \<Rightarrow> Err e | Ok x \<Rightarrow> Ok (version, Some x, addrs))
         else if k = ''a'' then
           (if length addrs \<ge> MAX_SEED_ADDRS then Err AddrCount
            else case pct_decode v of Err e \<Rightarrow> Err e | Ok x \<Rightarrow> Ok (version, grp, addrs @ [x]))
         else Ok (version, grp, addrs)))"

fun decode_pairs :: "rstr list \<Rightarrow> decode_vars \<Rightarrow> seed_error + decode_vars" where
  "decode_pairs [] vars = Ok vars"
| "decode_pairs (p # ps) vars =
    (case decode_pair p vars of Err e \<Rightarrow> Err e | Ok vars' \<Rightarrow> decode_pairs ps vars')"

definition seed_decode :: "rstr \<Rightarrow> seed_error + group_seed" where
  "seed_decode text =
    (let t = trim text
     in if length t > MAX_SEED_LEN then Err TooLong
        else case strip_prefix t SEED_PREFIX of
          None \<Rightarrow> Err NotASeed
        | Some query \<Rightarrow>
            (case decode_pairs (filter (\<lambda>p. p \<noteq> []) (split_on (CHR ''&'') query)) (None, None, []) of
               Err e \<Rightarrow> Err e
             | Ok (version, grp, addrs) \<Rightarrow>
                 if version \<noteq> Some SEED_VERSION then Err Version
                 else case ok_or grp Group of
                   Err e \<Rightarrow> Err e
                 | Ok g \<Rightarrow>
                     let seed = \<lparr>gs_group = g, gs_addrs = addrs\<rparr>
                     in case seed_validate seed of Err e \<Rightarrow> Err e | Ok _ \<Rightarrow> Ok seed))"

subsection \<open>The codec is a bijection on its image\<close>

lemma show_hex02_graphic: "c \<in> set (show_hex02 b) \<Longrightarrow> pct_keep c"
proof -
  assume "c \<in> set (show_hex02 b)"
  moreover have "code b div 16 < 16" "code b mod 16 < 16"
    using code_less [of b] by (simp_all add: less_mult_imp_div_less)
  ultimately obtain n where n: "c = hex_digit_upper n" "n < 16" by (auto simp: show_hex02_def)
  then have "code c = (if n < 10 then 48 + n else 55 + n)" by (simp add: hex_digit_upper_def)
  with n(2) show "pct_keep c"
    by (auto simp: pct_keep_def is_ascii_graphic_def split: if_splits)
qed

lemma pct_encode_Nil [simp]: "pct_encode [] = []"
  by (simp add: pct_encode_def)

lemma pct_encode_Cons [simp]: "pct_encode (b # bs) = pct_encode_byte b @ pct_encode bs"
  by (simp add: pct_encode_def)

lemma pct_encode_byte_chars: "c \<in> set (pct_encode_byte b) \<Longrightarrow> pct_keep c \<or> c = CHR ''%''"
  by (auto simp: pct_encode_byte_def dest: show_hex02_graphic split: if_splits)

lemma pct_encode_chars: "c \<in> set (pct_encode s) \<Longrightarrow> pct_keep c \<or> c = CHR ''%''"
  by (induction s) (auto dest: pct_encode_byte_chars)

lemma pct_encode_no_sep [simp]:
  "CHR ''&'' \<notin> set (pct_encode s)"
  "CHR ''='' \<notin> set (pct_encode s)"
  using pct_encode_chars by (auto simp: pct_keep_def)

lemma pct_encode_graphic: "list_all is_ascii_graphic (pct_encode s)"
proof -
  have "is_ascii_graphic (CHR ''%'')" by (simp add: is_ascii_graphic_def)
  then show ?thesis using pct_encode_chars by (auto simp: list_all_iff pct_keep_def)
qed

lemma length_pct_encode: "length s \<le> length (pct_encode s)"
  by (induction s) (auto simp: pct_encode_byte_def)

lemma hex02_utf8: "utf8_valid (show_hex02 b)"
  by (rule utf8_valid_graphic) (auto simp: list_all_iff pct_keep_def dest!: show_hex02_graphic)

lemma pct_decode_bytes_encode_byte:
  "pct_decode_bytes (pct_encode_byte b @ s) = map_sum id ((#) b) (pct_decode_bytes s)"
proof (cases "pct_keep b")
  case True
  then show ?thesis by (auto simp: pct_encode_byte_def pct_keep_def)
next
  case False
  have "unat (of_nat (code b) :: 8 word) = code b"
    using code_less [of b] by (simp add: unat_of_nat)
  then have "u8_from_str_radix16 (show_hex02 b) = Some (of_nat (code b)) \<and> char_of (unat (of_nat (code b) :: 8 word)) = b"
    by (simp add: from_str_radix_show_hex02)
  with False show ?thesis using hex02_utf8 [of b] by (simp add: pct_encode_byte_def show_hex02_def)
qed

lemma pct_decode_bytes_encode: "pct_decode_bytes (pct_encode s) = Ok s"
  by (induction s) (simp_all add: pct_decode_bytes_encode_byte)

lemma pct_decode_encode: "utf8_valid s \<Longrightarrow> pct_decode (pct_encode s) = Ok s"
  by (simp add: pct_decode_def pct_decode_bytes_encode)

subsection \<open>The round trip\<close>

lemma split_on_fields:
  assumes "c \<notin> set p" and "\<And>x. x \<in> set xs \<Longrightarrow> c \<notin> set (f x)"
  shows "split_on c (p @ concat (map (\<lambda>x. c # f x) xs)) = p # map f xs"
  using assms
proof (induction xs arbitrary: p)
  case Nil
  then show ?case by (simp add: split_on_no_sep)
next
  case (Cons x xs)
  have "split_on c (p @ concat (map (\<lambda>x. c # f x) (x # xs)))
      = p # split_on c (f x @ concat (map (\<lambda>x. c # f x) xs))"
    using Cons.prems(1) by (simp add: split_on_append)
  also have "split_on c (f x @ concat (map (\<lambda>x. c # f x) xs)) = f x # map f xs"
    using Cons.prems by (intro Cons.IH) auto
  finally show ?case by simp
qed

definition seed_fields :: "group_seed \<Rightarrow> rstr list" where
  "seed_fields seed =
    [''v='' @ SEED_VERSION, ''g='' @ pct_encode (gs_group seed)] @ map (\<lambda>a. ''a='' @ pct_encode a) (gs_addrs seed)"

definition seed_query :: "group_seed \<Rightarrow> rstr" where
  "seed_query seed = (''v='' @ SEED_VERSION) @ concat (map (\<lambda>f. CHR ''&'' # f) (tl (seed_fields seed)))"

lemma strip_prefix_encode: "strip_prefix (seed_encode seed) SEED_PREFIX = Some (seed_query seed)"
proof -
  have "concat (map (\<lambda>a. ''&a='' @ pct_encode a) as)
      = concat (map (\<lambda>f. CHR ''&'' # f) (map (\<lambda>a. ''a='' @ pct_encode a) as))" for as
    by (induction as) auto
  then show ?thesis by (simp add: seed_encode_def seed_query_def seed_fields_def)
qed

lemma split_seed_query: "split_on (CHR ''&'') (seed_query seed) = seed_fields seed"
proof -
  have "split_on (CHR ''&'') (seed_query seed) = (''v='' @ SEED_VERSION) # map (\<lambda>f. f) (tl (seed_fields seed))"
    unfolding seed_query_def
    by (rule split_on_fields) (auto simp: seed_fields_def SEED_VERSION_def)
  then show ?thesis by (simp add: seed_fields_def)
qed

lemma seed_fields_nonempty: "filter (\<lambda>p. p \<noteq> []) (seed_fields seed) = seed_fields seed"
  by (rule filter_eq_self) (auto simp: seed_fields_def)

lemma decode_pair_addr:
  assumes "utf8_valid a" and "length addrs < MAX_SEED_ADDRS"
  shows "decode_pair (''a='' @ pct_encode a) (v, g, addrs) = Ok (v, g, addrs @ [a])"
proof -
  have "split_once (CHR ''='') (''a'' @ CHR ''='' # pct_encode a) = Some (''a'', pct_encode a)"
    by (rule split_once_append) simp
  with assms show ?thesis by (simp add: decode_pair_def pct_decode_encode)
qed

lemma decode_pairs_addrs:
  "list_all utf8_valid as \<Longrightarrow> length addrs + length as \<le> MAX_SEED_ADDRS \<Longrightarrow>
    decode_pairs (map (\<lambda>a. ''a='' @ pct_encode a) as) (v, g, addrs) = Ok (v, g, addrs @ as)"
proof (induction as arbitrary: addrs)
  case (Cons a as)
  then have "decode_pair (''a='' @ pct_encode a) (v, g, addrs) = Ok (v, g, addrs @ [a])"
    by (intro decode_pair_addr) auto
  with Cons.IH [of "addrs @ [a]"] Cons.prems show ?case by simp
qed simp

lemma decode_pair_head:
  "decode_pair (''v='' @ SEED_VERSION) (None, g, addrs) = Ok (Some SEED_VERSION, g, addrs)"
  "utf8_valid grp \<Longrightarrow> decode_pair (''g='' @ pct_encode grp) (v, None, addrs) = Ok (v, Some grp, addrs)"
proof -
  have "utf8_valid ''1''" by (rule utf8_valid_graphic) (simp add: is_ascii_graphic_def)
  then show "decode_pair (''v='' @ SEED_VERSION) (None, g, addrs) = Ok (Some SEED_VERSION, g, addrs)"
    by (simp add: decode_pair_def SEED_VERSION_def pct_decode_def)
  assume "utf8_valid grp"
  then have "pct_decode (pct_encode grp) = Ok grp" by (rule pct_decode_encode)
  moreover have "split_once (CHR ''='') (''g'' @ CHR ''='' # pct_encode grp) = Some (''g'', pct_encode grp)"
    by (rule split_once_append) simp
  ultimately show "decode_pair (''g='' @ pct_encode grp) (v, None, addrs) = Ok (v, Some grp, addrs)"
    by (simp add: decode_pair_def)
qed

lemma decode_pairs_fields:
  assumes "utf8_valid (gs_group seed)" and "list_all utf8_valid (gs_addrs seed)"
    and "length (gs_addrs seed) \<le> MAX_SEED_ADDRS"
  shows "decode_pairs (seed_fields seed) (None, None, [])
    = Ok (Some SEED_VERSION, Some (gs_group seed), gs_addrs seed)"
  using assms decode_pairs_addrs [of "gs_addrs seed" "[]"] decode_pair_head
  by (simp add: seed_fields_def)

lemma valid_addr_graphic: "valid_addr a \<Longrightarrow> list_all is_ascii_graphic a"
  by (simp add: valid_addr_def split: if_splits)

lemma group_seed_new_Ok_iff:
  "group_seed_new grp addrs = Ok seed \<longleftrightarrow>
    seed = \<lparr>gs_group = grp, gs_addrs = addrs\<rparr> \<and> valid_group grp \<and> addrs \<noteq> []
    \<and> length addrs \<le> MAX_SEED_ADDRS \<and> list_all valid_addr addrs"
  by (auto simp: group_seed_new_def seed_validate_def Let_def)

lemma seed_encode_graphic: "list_all is_ascii_graphic (seed_encode seed)"
proof -
  have lit: "list_all is_ascii_graphic ''&a=''" "list_all is_ascii_graphic ''&g=''"
      "list_all is_ascii_graphic (SEED_PREFIX @ ''v='' @ SEED_VERSION)"
    by (simp_all add: is_ascii_graphic_def SEED_PREFIX_def SEED_VERSION_def)
  have "list_all is_ascii_graphic (concat (map (\<lambda>a. ''&a='' @ pct_encode a) as))" for as
    using lit(1) by (induction as) (simp_all add: pct_encode_graphic)
  with lit(2,3) show ?thesis by (simp add: seed_encode_def pct_encode_graphic)
qed

lemma seed_decode_of_encode:
  assumes "group_seed_new grp addrs = Ok seed" and "utf8_valid grp" and t: "trim text = seed_encode seed"
  shows "seed_decode text = (if length (seed_encode seed) \<le> MAX_SEED_LEN then Ok seed else Err TooLong)"
proof -
  from assms(1) have seed: "seed = \<lparr>gs_group = grp, gs_addrs = addrs\<rparr>"
    and v: "valid_group grp" "addrs \<noteq> []" "length addrs \<le> MAX_SEED_ADDRS" "list_all valid_addr addrs"
    by (auto simp: group_seed_new_Ok_iff)
  have "list_all utf8_valid addrs"
    using v(4) by (auto simp: list_all_iff intro!: utf8_valid_graphic dest: valid_addr_graphic)
  then have "decode_pairs (seed_fields seed) (None, None, []) = Ok (Some SEED_VERSION, Some grp, addrs)"
    using decode_pairs_fields [of seed] assms(2) v(3) by (simp add: seed)
  moreover have "seed_validate \<lparr>gs_group = grp, gs_addrs = addrs\<rparr> = Ok ()"
    using v by (simp add: seed_validate_def)
  ultimately show ?thesis
    unfolding seed_decode_def t
    by (simp add: Let_def strip_prefix_encode split_seed_query seed_fields_nonempty)
      (simp add: seed)
qed

text \<open>
  C26. A seed that the builder accepts, encoded and pasted back with any white space around it, decodes
  to itself, unless its text is longer than \<open>MAX_SEED_LEN\<close>: then the decoder refuses it as too long.
\<close>

theorem seed_round_trip:
  assumes "group_seed_new grp addrs = Ok seed" and "utf8_valid grp"
    and "set ws1 \<subseteq> set ws_seqs" and "set ws2 \<subseteq> set ws_seqs"
  shows "seed_decode (concat ws1 @ seed_encode seed @ concat ws2)
    = (if length (seed_encode seed) \<le> MAX_SEED_LEN then Ok seed else Err TooLong)"
proof -
  have "seed_encode seed \<noteq> []" by (simp add: seed_encode_def SEED_PREFIX_def)
  then have "trim (concat ws1 @ seed_encode seed @ concat ws2) = seed_encode seed"
    using seed_encode_graphic [of seed] assms(3,4)
    by (intro trim_white_space) (auto simp: list_all_iff)
  then show ?thesis by (rule seed_decode_of_encode [OF assms(1,2)])
qed

lemma seed_example_new:
  "group_seed_new ''a b&c'' [''/ip4/10.0.0.1/tcp/4211/p2p/16Uiu2'']
    = Ok \<lparr>gs_group = ''a b&c'', gs_addrs = [''/ip4/10.0.0.1/tcp/4211/p2p/16Uiu2'']\<rparr>"
  by code_simp

theorem seed_round_trip_witness:
  "group_seed_new ''a b&c'' [''/ip4/10.0.0.1/tcp/4211/p2p/16Uiu2'']
     = Ok \<lparr>gs_group = ''a b&c'', gs_addrs = [''/ip4/10.0.0.1/tcp/4211/p2p/16Uiu2'']\<rparr>
   \<and> seed_decode ('' citrate-cluster://seed?v=1&g=a%20b%26c&a=/ip4/10.0.0.1/tcp/4211/p2p/16Uiu2'' @ [CHR 0x0A])
     = Ok \<lparr>gs_group = ''a b&c'', gs_addrs = [''/ip4/10.0.0.1/tcp/4211/p2p/16Uiu2'']\<rparr>"
proof -
  let ?seed = "\<lparr>gs_group = ''a b&c'', gs_addrs = [''/ip4/10.0.0.1/tcp/4211/p2p/16Uiu2'']\<rparr>"
  have enc: "seed_encode ?seed = ''citrate-cluster://seed?v=1&g=a%20b%26c&a=/ip4/10.0.0.1/tcp/4211/p2p/16Uiu2''"
    by code_simp
  have "utf8_valid ''a b&c''" by code_simp
  moreover have "set ['' ''] \<subseteq> set ws_seqs" "set [[CHR 0x0A]] \<subseteq> set ws_seqs"
    by code_simp+
  ultimately have "seed_decode (concat ['' ''] @ seed_encode ?seed @ concat [[CHR 0x0A]])
      = (if length (seed_encode ?seed) \<le> MAX_SEED_LEN then Ok ?seed else Err TooLong)"
    by (rule seed_round_trip [OF seed_example_new])
  then show ?thesis using seed_example_new by (simp add: enc MAX_SEED_LEN_def)
qed

text \<open>Whatever text the decoder accepts, the seed it returns is one the builder accepts: the
  group is not blank, not too long and free of control characters, and there are one to eight valid
  addresses.\<close>

theorem seed_decode_valid:
  assumes "seed_decode text = Ok seed"
  shows "group_seed_new (gs_group seed) (gs_addrs seed) = Ok seed \<and> length (trim text) \<le> MAX_SEED_LEN"
  using assms
  by (auto simp: seed_decode_def group_seed_new_def Let_def ok_or_def
      split: if_splits option.splits sum.splits)

theorem seed_decode_valid_witness:
  "group_seed_new ''g1'' [''/dns4/h/p2p/ab''] = Ok \<lparr>gs_group = ''g1'', gs_addrs = [''/dns4/h/p2p/ab'']\<rparr>
   \<and> length (trim ''citrate-cluster://seed?v=1&g=g1&a=/dns4/h/p2p/ab'') \<le> MAX_SEED_LEN"
proof -
  let ?seed = "\<lparr>gs_group = ''g1'', gs_addrs = [''/dns4/h/p2p/ab'']\<rparr>"
  have "group_seed_new ''g1'' [''/dns4/h/p2p/ab''] = Ok ?seed" and "utf8_valid ''g1''"
    by code_simp+
  moreover have enc: "seed_encode ?seed = ''citrate-cluster://seed?v=1&g=g1&a=/dns4/h/p2p/ab''" by code_simp
  moreover have "trim (seed_encode ?seed) = seed_encode ?seed"
    by (rule trim_graphic) (rule seed_encode_graphic)
  ultimately have "seed_decode ''citrate-cluster://seed?v=1&g=g1&a=/dns4/h/p2p/ab'' = Ok ?seed"
    using seed_decode_of_encode [of "''g1''" "[''/dns4/h/p2p/ab'']" ?seed "seed_encode ?seed"]
    by (simp add: MAX_SEED_LEN_def)
  from seed_decode_valid [OF this] show ?thesis by simp
qed

subsection \<open>What a valid address names\<close>

fun join_on :: "byte \<Rightarrow> rstr list \<Rightarrow> rstr" where
  "join_on c [] = []"
| "join_on c (p # ps) = p @ concat (map (\<lambda>q. c # q) ps)"

lemma join_split_on: "join_on c (split_on c s) = s"
  by (induction s) (auto split: list.splits dest: arg_cong [where f = "join_on c"])

lemma any_window2_split: "any_window2 P xs \<Longrightarrow> \<exists>us x y vs. xs = us @ x # y # vs \<and> P x y"
proof (induction P xs rule: any_window2.induct)
  case (1 P x y ys)
  show ?case
  proof (cases "P x y")
    case True
    then have "x # y # ys = [] @ x # y # ys \<and> P x y" by simp
    then show ?thesis by blast
  next
    case False
    with 1 obtain us a b vs where "y # ys = us @ a # b # vs" "P a b" by auto
    then have "x # y # ys = (x # us) @ a # b # vs \<and> P a b" by simp
    then show ?thesis by blast
  qed
qed auto

lemma join_on_append: "c # join_on c (us @ v # vs) = concat (map (\<lambda>q. c # q) us) @ c # v @ concat (map (\<lambda>q. c # q) vs)"
  by (cases us) auto

text \<open>An address that the seed accepts contains \<open>/p2p/\<close> followed by a non-empty alphanumeric peer
  id that ends the address or is followed by a slash; it starts with a slash, holds printable ASCII
  only and is at most \<open>MAX_ADDR_LEN\<close> bytes long.\<close>

theorem valid_addr_names_peer:
  assumes "valid_addr a"
  shows "(\<exists>pre pid post. a = pre @ ''/p2p/'' @ pid @ post \<and> pid \<noteq> [] \<and> list_all is_ascii_alphanumeric pid
            \<and> (post = [] \<or> hd post = CHR ''/''))
    \<and> starts_with a ''/'' \<and> list_all is_ascii_graphic a \<and> length a \<le> MAX_ADDR_LEN"
proof -
  let ?parts = "split_on (CHR ''/'') (drop 1 a)"
  from assms have a: "starts_with a ''/''" "list_all is_ascii_graphic a" "length a \<le> MAX_ADDR_LEN"
    and ne: "\<not> list_ex (\<lambda>p. p = []) ?parts"
    and w: "any_window2 (\<lambda>w0 w1. w0 = ''p2p'' \<and> list_all is_ascii_alphanumeric w1) ?parts"
    by (auto simp: valid_addr_def Let_def split: if_splits)
  from any_window2_split [OF w] obtain us pid vs where
    parts: "?parts = us @ ''p2p'' # pid # vs" and pid: "list_all is_ascii_alphanumeric pid" by auto
  have "a = CHR ''/'' # drop 1 a" using a(1) by (cases a) (auto simp: starts_with_def)
  also have "\<dots> = CHR ''/'' # join_on (CHR ''/'') (us @ ''p2p'' # pid # vs)"
    by (simp add: parts [symmetric] join_split_on)
  also have "\<dots> = concat (map (\<lambda>q. CHR ''/'' # q) us) @ ''/p2p/'' @ pid @ concat (map (\<lambda>q. CHR ''/'' # q) vs)"
    by (simp add: join_on_append)
  finally have "a = concat (map (\<lambda>q. CHR ''/'' # q) us) @ ''/p2p/'' @ pid @ concat (map (\<lambda>q. CHR ''/'' # q) vs)" .
  moreover have "pid \<noteq> []" using ne parts by (auto simp: list_ex_iff)
  moreover have "concat (map (\<lambda>q. CHR ''/'' # q) vs) = [] \<or> hd (concat (map (\<lambda>q. CHR ''/'' # q) vs)) = CHR ''/''"
    by (cases vs) auto
  ultimately show ?thesis using pid a by blast
qed

theorem valid_addr_names_peer_witness:
  "list_all is_ascii_graphic ''/ip4/10.0.0.1/tcp/4211/p2p/16Uiu2'' \<and> valid_addr ''/ip4/10.0.0.1/tcp/4211/p2p/16Uiu2''"
proof -
  have "valid_addr ''/ip4/10.0.0.1/tcp/4211/p2p/16Uiu2''" by code_simp
  with valid_addr_names_peer [OF this] show ?thesis by simp
qed

subsection \<open>A seed the builder accepts and the decoder refuses\<close>

lemma length_seed_encode_ge:
  "29 + sum_list (map (\<lambda>a. 3 + length a) (gs_addrs seed)) \<le> length (seed_encode seed)"
proof -
  have "sum_list (map (\<lambda>a. 3 + length a) as) \<le> length (concat (map (\<lambda>a. ''&a='' @ pct_encode a) as))" for as
    by (induction as) (auto simp: add_le_mono length_pct_encode)
  from this [of "gs_addrs seed"] show ?thesis
    by (simp add: seed_encode_def SEED_PREFIX_def SEED_VERSION_def)
qed

definition long_addr :: rstr where
  "long_addr = ''/p2p/'' @ replicate 251 (CHR ''a'')"

lemma long_addr_valid: "valid_addr long_addr"
proof -
  have n: "CHR ''/'' \<notin> set (replicate 251 (CHR ''a''))" by simp
  have "split_on (CHR ''/'') (''p2p'' @ CHR ''/'' # replicate 251 (CHR ''a'')) = [''p2p'', replicate 251 (CHR ''a'')]"
    by (subst split_on_append) (simp_all add: split_on_no_sep [OF n])
  then have "split_on (CHR ''/'') (drop 1 long_addr) = [''p2p'', replicate 251 (CHR ''a'')]"
    by (simp add: long_addr_def)
  moreover have "list_all is_ascii_graphic long_addr" "starts_with long_addr ''/''"
    by (simp_all add: long_addr_def list_all_iff is_ascii_graphic_def starts_with_def)
  moreover have "list_all is_ascii_alphanumeric (replicate 251 (CHR ''a''))"
    by (simp add: list_all_iff is_ascii_alphanumeric_def)
  moreover have "length long_addr \<le> MAX_ADDR_LEN" by (simp add: long_addr_def MAX_ADDR_LEN_def)
  ultimately show ?thesis by (simp add: valid_addr_def)
qed

text \<open>The builder and the decoder do not apply the same rules: eight valid addresses of 256 bytes
  make a seed that \<open>GroupSeed::new\<close> accepts and whose own text \<open>GroupSeed::decode\<close> refuses.\<close>

theorem seed_new_accepts_undecodable:
  "\<exists>seed. group_seed_new ''g'' (replicate 8 long_addr) = Ok seed \<and> seed_decode (seed_encode seed) = Err TooLong"
proof -
  let ?seed = "\<lparr>gs_group = ''g'', gs_addrs = replicate 8 long_addr\<rparr>"
  have "valid_group ''g''" by code_simp
  then have "group_seed_new ''g'' (replicate 8 long_addr) = Ok ?seed"
    by (simp add: group_seed_new_Ok_iff long_addr_valid list_all_iff MAX_SEED_ADDRS_def)
  moreover have "MAX_SEED_LEN < length (seed_encode ?seed)"
    using length_seed_encode_ge [of ?seed] by (simp add: sum_list_replicate long_addr_def MAX_SEED_LEN_def)
  moreover have "trim (seed_encode ?seed) = seed_encode ?seed"
    by (rule trim_graphic) (rule seed_encode_graphic)
  ultimately show ?thesis by (simp add: seed_decode_def)
qed

text \<open>The hexadecimal parser that the decoder uses takes a sign, so an escape of a sign and one digit is
  decoded.\<close>

lemma pct_decode_accepts_sign: "pct_decode ''%+F'' = Ok [char_of (15 :: nat)]"
  by code_simp

end
