(* ===== verification/Admission.thy ===== *)
theory Admission
  imports Rust_Str
begin

section \<open>Roles, canonical addresses and the allowed set\<close>

text \<open>
  The first layer of \<open>cluster-core\<close> (\<open>crates/cluster-core/src/lib.rs\<close>): which role rank a
  role name has, the canonical form of an address, the set of addresses a roster allows and the
  admission test. Roles are ranked in \<open>u8\<close>; a roster is the list of \<open>(address, role)\<close> pairs as
  the client sent it.
\<close>

type_synonym roster = "(rstr \<times> rstr) list"

definition MIN_CLUSTER_RANK :: "8 word" where
  "MIN_CLUSTER_RANK = 2"

definition role_rank :: "rstr \<Rightarrow> 8 word" where
  "role_rank role =
    (if role = ''owner'' then 5
     else if role = ''admin'' then 4
     else if role = ''partner'' then 3
     else if role = ''member'' then 2
     else if role = ''agent'' then 1
     else if role = ''guest'' then 0
     else 0)"

definition canonical_address :: "rstr \<Rightarrow> rstr option" where
  "canonical_address raw =
    (let h = map to_ascii_lowercase (trim_start_matches ''0x'' (trim raw))
     in if length h = 40 \<and> list_all is_ascii_hexdigit h then Some h else None)"

definition allowed_peers :: "rstr list \<Rightarrow> rstr list" where
  "allowed_peers roster = sorted_list_of_fset (fold (insert_some canonical_address) roster {||})"

text \<open>One iteration of the loop of \<open>allowed_set\<close>.\<close>

definition allowed_entry :: "rstr \<times> rstr \<Rightarrow> rstr option" where
  "allowed_entry e =
    (case e of (addr, role) \<Rightarrow>
       if MIN_CLUSTER_RANK \<le> role_rank role then canonical_address addr else None)"

definition allowed_set :: "roster \<Rightarrow> rstr fset" where
  "allowed_set roster = fold (insert_some allowed_entry) roster {||}"

definition admit :: "rstr \<Rightarrow> rstr fset \<Rightarrow> bool" where
  "admit address allowed =
    (case canonical_address address of None \<Rightarrow> False | Some a \<Rightarrow> a |\<in>| allowed)"

subsection \<open>Canonical addresses\<close>

text \<open>What a canonical address is: forty lower-case hexadecimal digits.\<close>

definition is_canonical :: "rstr \<Rightarrow> bool" where
  "is_canonical a \<longleftrightarrow> length a = 40 \<and> list_all (\<lambda>b. is_ascii_hexdigit b \<and> to_ascii_lowercase b = b) a"

named_theorems canon \<open>canonical addresses are fixed points\<close>

lemma hexdigit_lowercase [simp]: "is_ascii_hexdigit (to_ascii_lowercase b) \<longleftrightarrow> is_ascii_hexdigit b"
  by (auto simp: is_ascii_hexdigit_def code_to_ascii_lowercase)

lemma canonical_address_canonical: "canonical_address raw = Some a \<Longrightarrow> is_canonical a"
  by (auto simp: canonical_address_def is_canonical_def Let_def list_all_iff split: if_splits)

lemma hex_no_0x:
  assumes "list_all is_ascii_hexdigit h"
  shows "\<not> starts_with h ''0x''"
proof
  assume "starts_with h ''0x''"
  then obtain r where "h = ''0x'' @ r" by (auto simp: starts_with_iff)
  with assms show False by (simp add: is_ascii_hexdigit_def)
qed

lemma hex_graphic: "list_all is_ascii_hexdigit h \<Longrightarrow> list_all is_ascii_graphic h"
  by (auto simp: list_all_iff hexdigit_graphic)

text \<open>
  The shape of every accepted address: white space, any number of \<open>0x\<close>, forty hexadecimal digits of
  either case, white space.
\<close>

lemma canonical_address_shape:
  assumes "set ws1 \<subseteq> set ws_seqs" and "set ws2 \<subseteq> set ws_seqs"
    and "length h = 40" and "list_all is_ascii_hexdigit h"
  shows "canonical_address (concat ws1 @ (concat (replicate n ''0x'') @ h) @ concat ws2)
         = Some (map to_ascii_lowercase h)"
proof -
  let ?s = "concat (replicate n ''0x'') @ h"
  have h: "list_all is_ascii_graphic h" using assms(4) by (rule hex_graphic)
  have "list_all is_ascii_graphic ''0x''" by (simp add: ascii_defs)
  then have "list_all is_ascii_graphic (concat (replicate n ''0x''))" by (induction n) auto
  with h have g: "list_all is_ascii_graphic ?s" by simp
  have "?s \<noteq> []" using assms(3) by auto
  with g have "is_ascii_graphic (hd ?s)" "is_ascii_graphic (last ?s)"
    by (metis list_all_iff hd_in_set, metis list_all_iff last_in_set)
  with \<open>?s \<noteq> []\<close> have t: "trim (concat ws1 @ ?s @ concat ws2) = ?s"
    using assms(1,2) by (intro trim_white_space) auto
  have "trim_start_matches ''0x'' ?s = h"
  proof (induction n)
    case 0
    show ?case by (simp add: trim_start_matches_id hex_no_0x assms(4))
  next
    case (Suc n)
    then show ?case
      using trim_start_matches_append [of "''0x''" "concat (replicate n ''0x'') @ h"] by simp
  qed
  with t assms(3,4) show ?thesis by (simp add: canonical_address_def Let_def list_all_iff)
qed

lemma canonical_address_fixed [canon]:
  assumes "is_canonical a"
  shows "canonical_address a = Some a"
proof -
  have "map to_ascii_lowercase a = a"
    using assms by (auto simp: is_canonical_def list_all_iff intro: map_idI)
  moreover have "list_all is_ascii_hexdigit a" using assms by (auto simp: is_canonical_def list_all_iff)
  ultimately show ?thesis
    using canonical_address_shape [of "[]" "[]" a 0] assms by (simp add: is_canonical_def)
qed

lemma canonical_address_idem [canon]:
  "canonical_address raw = Some a \<Longrightarrow> canonical_address a = Some a"
  by (rule canonical_address_fixed) (rule canonical_address_canonical)

lemma is_canonical_iff: "is_canonical a \<longleftrightarrow> canonical_address a = Some a"
  using canonical_address_canonical canonical_address_fixed by blast

lemma is_canonical_graphic: "is_canonical a \<Longrightarrow> list_all is_ascii_graphic a"
  by (rule hex_graphic) (auto simp: is_canonical_def list_all_iff)

subsection \<open>The allowed set\<close>

lemma role_rank_member:
  "MIN_CLUSTER_RANK \<le> role_rank role \<longleftrightarrow> role \<in> {''owner'', ''admin'', ''partner'', ''member''}"
  by (simp add: MIN_CLUSTER_RANK_def role_rank_def word_le_nat_alt)

lemma role_rank_le: "role_rank role \<le> 5"
  by (simp add: role_rank_def word_le_nat_alt)

lemma allowed_entry_Some:
  "allowed_entry (addr, role) = Some a \<longleftrightarrow>
    MIN_CLUSTER_RANK \<le> role_rank role \<and> canonical_address addr = Some a"
  by (simp add: allowed_entry_def)

lemma allowed_set_member:
  "a |\<in>| allowed_set roster \<longleftrightarrow>
    (\<exists>addr role. (addr, role) \<in> set roster \<and> MIN_CLUSTER_RANK \<le> role_rank role
       \<and> canonical_address addr = Some a)"
proof -
  have "a |\<in>| allowed_set roster \<longleftrightarrow> (\<exists>e\<in>set roster. allowed_entry e = Some a)"
    by (simp add: allowed_set_def fold_insert_some_member)
  also have "\<dots> \<longleftrightarrow> (\<exists>addr role. (addr, role) \<in> set roster \<and> allowed_entry (addr, role) = Some a)"
    by (metis surj_pair)
  finally show ?thesis by (simp add: allowed_entry_Some)
qed

lemma allowed_set_canonical: "a |\<in>| allowed_set roster \<Longrightarrow> is_canonical a"
  by (auto simp: allowed_set_member intro: canonical_address_canonical)

lemma allowed_set_Nil [simp]: "allowed_set [] = {||}"
  by (simp add: allowed_set_def)

lemma allowed_set_cong: "set r1 = set r2 \<Longrightarrow> allowed_set r1 = allowed_set r2"
  unfolding allowed_set_def by (rule fold_insert_some_cong)

lemma allowed_peers_set: "set (allowed_peers roster) = {a. \<exists>raw\<in>set roster. canonical_address raw = Some a}"
  by (simp add: allowed_peers_def fset_fold_insert_some)

subsection \<open>Properties\<close>

text \<open>An address is accepted exactly when it is white space, any number of \<open>0x\<close>, forty hexadecimal
  digits of either case and white space; its canonical form is the forty digits in lower case.\<close>

theorem canonical_address_forms:
  "canonical_address raw = Some a \<longleftrightarrow>
    (\<exists>ws1 ws2 n h. set ws1 \<subseteq> set ws_seqs \<and> set ws2 \<subseteq> set ws_seqs
       \<and> raw = concat ws1 @ (concat (replicate n ''0x'') @ h) @ concat ws2
       \<and> length h = 40 \<and> list_all is_ascii_hexdigit h \<and> a = map to_ascii_lowercase h)"
proof
  assume a: "canonical_address raw = Some a"
  let ?h = "trim_start_matches ''0x'' (trim raw)"
  have h: "length ?h = 40" "list_all is_ascii_hexdigit ?h" "a = map to_ascii_lowercase ?h"
    using a by (auto simp: canonical_address_def Let_def list_all_iff split: if_splits)
  obtain ws1 ws2 where ws: "set ws1 \<subseteq> set ws_seqs" "set ws2 \<subseteq> set ws_seqs"
      "raw = concat ws1 @ trim raw @ concat ws2" using trim_split by blast
  obtain n where "trim raw = concat (replicate n ''0x'') @ ?h"
    using trim_start_matches_split by blast
  with ws(3) have "raw = concat ws1 @ (concat (replicate n ''0x'') @ ?h) @ concat ws2" by simp
  with ws(1,2) h show "\<exists>ws1 ws2 n h. set ws1 \<subseteq> set ws_seqs \<and> set ws2 \<subseteq> set ws_seqs
       \<and> raw = concat ws1 @ (concat (replicate n ''0x'') @ h) @ concat ws2
       \<and> length h = 40 \<and> list_all is_ascii_hexdigit h \<and> a = map to_ascii_lowercase h" by blast
next
  assume "\<exists>ws1 ws2 n h. set ws1 \<subseteq> set ws_seqs \<and> set ws2 \<subseteq> set ws_seqs
       \<and> raw = concat ws1 @ (concat (replicate n ''0x'') @ h) @ concat ws2
       \<and> length h = 40 \<and> list_all is_ascii_hexdigit h \<and> a = map to_ascii_lowercase h"
  then show "canonical_address raw = Some a" using canonical_address_shape by blast
qed

text \<open>The gate: an address is admitted by the allowed set of a roster exactly when the roster gives
  the same address, in any spelling, one of the roles owner, admin, partner and member.\<close>

theorem admission_gate:
  "admit address (allowed_set roster) \<longleftrightarrow>
    (\<exists>raw role. (raw, role) \<in> set roster \<and> role \<in> {''owner'', ''admin'', ''partner'', ''member''}
       \<and> canonical_address raw \<noteq> None \<and> canonical_address raw = canonical_address address)"
  by (auto simp: admit_def allowed_set_member role_rank_member split: option.splits)

text \<open>The peers of a roster are computed deterministically: the list is the strictly ascending
  enumeration of the canonical forms, whatever the order, the spelling and the repetitions of the
  roster, and computing it again from the result gives the result.\<close>

theorem allowed_peers_deterministic:
  "sorted_wrt (<) (allowed_peers roster)
   \<and> set (allowed_peers roster) = {a. Some a \<in> canonical_address ` set roster}
   \<and> allowed_peers (allowed_peers roster) = allowed_peers roster"
proof (intro conjI)
  show "sorted_wrt (<) (allowed_peers roster)"
    by (simp add: allowed_peers_def strict_sorted_iff)
  show "set (allowed_peers roster) = {a. Some a \<in> canonical_address ` set roster}"
    by (force simp: allowed_peers_set)
  have "a |\<in>| fold (insert_some canonical_address) (allowed_peers roster) {||} \<longleftrightarrow>
      a |\<in>| fold (insert_some canonical_address) roster {||}" for a
    using canonical_address_idem by (fastforce simp: fold_insert_some_member allowed_peers_set)
  then have "fold (insert_some canonical_address) (allowed_peers roster) {||} =
      fold (insert_some canonical_address) roster {||}" by (rule fset_eqI)
  then show "allowed_peers (allowed_peers roster) = allowed_peers roster"
    by (simp only: allowed_peers_def [of "allowed_peers roster"]) (simp add: allowed_peers_def [of roster])
qed

end
