(* ===== verification/Membership.thy ===== *)
theory Membership
  imports Admission
begin

section \<open>The membership state machine\<close>

text \<open>
  \<open>ClusterMembership\<close> of \<open>crates/cluster-core/src/lib.rs\<close>: the role-gated allowed set of the last
  roster and the peers admitted now. Each method is a function from the state before to the state
  after, with the returned value where the method returns one. The second half states the abstract
  admission machine of \<open>formal/ClusterAdmission.tla\<close> by its actions, says which actions every operation
  is meant to be, and shows that this is what the operation does.
\<close>

record cluster_membership =
  mem_allowed :: "rstr fset"
  mem_admitted :: "rstr fset"

definition membership_new :: "roster \<Rightarrow> cluster_membership" where
  "membership_new roster = \<lparr>mem_allowed = allowed_set roster, mem_admitted = {||}\<rparr>"

definition membership_join :: "rstr \<Rightarrow> rstr \<Rightarrow> cluster_membership \<Rightarrow> bool \<times> cluster_membership" where
  "membership_join address role m =
    (if role_rank role < MIN_CLUSTER_RANK then (False, m)
     else case canonical_address address of
       Some a \<Rightarrow>
         if a |\<in>| mem_allowed m then (True, m\<lparr>mem_admitted := finsert a (mem_admitted m)\<rparr>)
         else (False, m)
     | None \<Rightarrow> (False, m))"

definition membership_leave :: "rstr \<Rightarrow> cluster_membership \<Rightarrow> cluster_membership" where
  "membership_leave address m =
    (case canonical_address address of
       Some a \<Rightarrow> m\<lparr>mem_admitted := mem_admitted m |-| {|a|}\<rparr>
     | None \<Rightarrow> m)"

definition membership_reconcile :: "roster \<Rightarrow> cluster_membership \<Rightarrow> rstr list \<times> cluster_membership" where
  "membership_reconcile roster m =
    (let m1 = m\<lparr>mem_allowed := allowed_set roster\<rparr>;
         evicted = filter (\<lambda>a. a |\<notin>| mem_allowed m1) (sorted_list_of_fset (mem_admitted m1))
     in (evicted, m1\<lparr>mem_admitted := fold (\<lambda>e s. s |-| {|e|}) evicted (mem_admitted m1)\<rparr>))"

definition membership_admitted :: "cluster_membership \<Rightarrow> rstr list" where
  "membership_admitted m = sorted_list_of_fset (mem_admitted m)"

definition membership_allowed :: "cluster_membership \<Rightarrow> rstr list" where
  "membership_allowed m = sorted_list_of_fset (mem_allowed m)"

definition is_admitted :: "rstr \<Rightarrow> cluster_membership \<Rightarrow> bool" where
  "is_admitted address m =
    (case canonical_address address of None \<Rightarrow> False | Some a \<Rightarrow> a |\<in>| mem_admitted m)"

definition invariant_holds :: "cluster_membership \<Rightarrow> bool" where
  "invariant_holds m \<longleftrightarrow> mem_admitted m |\<subseteq>| mem_allowed m"

definition sync_admitted :: "rstr fset \<Rightarrow> cluster_membership \<Rightarrow> cluster_membership" where
  "sync_admitted candidates m = m\<lparr>mem_admitted := ffilter (\<lambda>a. a |\<in>| mem_allowed m) candidates\<rparr>"

subsection \<open>What each operation does\<close>

named_theorems membership_simps \<open>the fields of the state after each membership operation\<close>

lemma membership_new_simps [membership_simps]:
  "mem_allowed (membership_new roster) = allowed_set roster"
  "mem_admitted (membership_new roster) = {||}"
  by (simp_all add: membership_new_def)

lemma membership_join_allowed [membership_simps]:
  "mem_allowed (snd (membership_join address role m)) = mem_allowed m"
  by (simp add: membership_join_def split: option.splits)

lemma membership_join_True_iff:
  "fst (membership_join address role m) \<longleftrightarrow>
     MIN_CLUSTER_RANK \<le> role_rank role \<and> admit address (mem_allowed m)"
  by (auto simp: membership_join_def admit_def not_less split: option.splits)

lemma membership_join_admitted [membership_simps]:
  "mem_admitted (snd (membership_join address role m)) =
    (if fst (membership_join address role m)
     then finsert (the (canonical_address address)) (mem_admitted m) else mem_admitted m)"
  by (simp add: membership_join_def split: option.splits)

lemma membership_leave_simps [membership_simps]:
  "mem_allowed (membership_leave address m) = mem_allowed m"
  "mem_admitted (membership_leave address m) =
    (case canonical_address address of None \<Rightarrow> mem_admitted m | Some a \<Rightarrow> mem_admitted m |-| {|a|})"
  by (simp_all add: membership_leave_def split: option.splits)

lemma membership_reconcile_allowed [membership_simps]:
  "mem_allowed (snd (membership_reconcile roster m)) = allowed_set roster"
  by (simp add: membership_reconcile_def Let_def)

lemma membership_reconcile_evicted [membership_simps]:
  "fst (membership_reconcile roster m) = sorted_list_of_fset (mem_admitted m |-| allowed_set roster)"
proof -
  have "ffilter (\<lambda>a. a |\<notin>| allowed_set roster) (mem_admitted m) = mem_admitted m |-| allowed_set roster"
    by auto
  then show ?thesis by (simp add: membership_reconcile_def Let_def filter_sorted_list_of_fset)
qed

lemma membership_reconcile_admitted [membership_simps]:
  "mem_admitted (snd (membership_reconcile roster m)) = mem_admitted m |\<inter>| allowed_set roster"
  by (rule fset_eqI) (auto simp: membership_reconcile_def Let_def fold_fminus_member)

lemma sync_admitted_simps [membership_simps]:
  "mem_allowed (sync_admitted candidates m) = mem_allowed m"
  "mem_admitted (sync_admitted candidates m) = candidates |\<inter>| mem_allowed m"
  by (auto simp: sync_admitted_def)

lemma invariant_holds_simps [simp]:
  "invariant_holds (membership_new roster)"
  "invariant_holds (snd (membership_reconcile roster m))"
  "invariant_holds (sync_admitted candidates m)"
  by (auto simp: invariant_holds_def membership_simps)

lemma invariant_holds_join: "invariant_holds m \<Longrightarrow> invariant_holds (snd (membership_join address role m))"
  by (auto simp: invariant_holds_def membership_simps membership_join_True_iff admit_def split: option.splits)

lemma invariant_holds_leave: "invariant_holds m \<Longrightarrow> invariant_holds (membership_leave address m)"
  by (auto simp: invariant_holds_def membership_simps split: option.splits)

subsection \<open>Runs of operations\<close>

datatype membership_op =
    MJoin rstr rstr
  | MLeave rstr
  | MReconcile roster
  | MSync "rstr fset"

fun membership_step :: "membership_op \<Rightarrow> cluster_membership \<Rightarrow> cluster_membership" where
  "membership_step (MJoin address role) m = snd (membership_join address role m)"
| "membership_step (MLeave address) m = membership_leave address m"
| "membership_step (MReconcile roster) m = snd (membership_reconcile roster m)"
| "membership_step (MSync candidates) m = sync_admitted candidates m"

definition membership_run :: "membership_op list \<Rightarrow> cluster_membership \<Rightarrow> cluster_membership" where
  "membership_run ops m = fold membership_step ops m"

text \<open>The roster in force after a run.\<close>

fun last_roster :: "roster \<Rightarrow> membership_op list \<Rightarrow> roster" where
  "last_roster r [] = r"
| "last_roster r (MReconcile r' # ops) = last_roster r' ops"
| "last_roster r (_ # ops) = last_roster r ops"

lemma membership_step_invariant: "invariant_holds m \<Longrightarrow> invariant_holds (membership_step op m)"
  by (cases op) (simp_all add: invariant_holds_join invariant_holds_leave)

lemma membership_run_allowed:
  "mem_allowed m = allowed_set r \<Longrightarrow> mem_allowed (membership_run ops m) = allowed_set (last_roster r ops)"
proof (induction r ops arbitrary: m rule: last_roster.induct)
  case (2 r r' ops)
  then show ?case by (simp add: membership_run_def membership_simps)
qed (simp_all add: membership_run_def membership_simps)

lemma membership_run_invariant: "invariant_holds m \<Longrightarrow> invariant_holds (membership_run ops m)"
  unfolding membership_run_def
  by (induction ops arbitrary: m) (simp_all add: membership_step_invariant)

subsection \<open>The abstract admission machine\<close>

text \<open>
  The actions of \<open>formal/ClusterAdmission.tla\<close> over the pair of the allowed and the admitted set, each
  with its guard: an action that is not enabled has no successor.
\<close>

type_synonym ca_state = "rstr fset \<times> rstr fset"

datatype ca_action = CAJoin rstr | CALeave rstr | CAReconcile "rstr fset"

fun ca_exec :: "ca_action \<Rightarrow> ca_state \<Rightarrow> ca_state option" where
  "ca_exec (CAJoin p) (al, ad) = (if p |\<in>| al \<and> p |\<notin>| ad then Some (al, finsert p ad) else None)"
| "ca_exec (CALeave p) (al, ad) = (if p |\<in>| ad then Some (al, ad |-| {|p|}) else None)"
| "ca_exec (CAReconcile na) (al, ad) = Some (na, ad |\<inter>| na)"

fun ca_execs :: "ca_action list \<Rightarrow> ca_state \<Rightarrow> ca_state option" where
  "ca_execs [] st = Some st"
| "ca_execs (a # as) st = Option.bind (ca_exec a st) (ca_execs as)"

text \<open>
  What each operation is meant to do to the pair. A join of an address that the roster allows, with a
  role above the threshold, is \<open>Join\<close>, unless it is admitted already; a leave of an admitted one is
  \<open>Leave\<close>; a roster change is one \<open>Reconcile\<close>. \<open>sync_admitted\<close>, which the module does not have, is a
  \<open>Leave\<close> of everybody who is not on the wire any more or not allowed, and a \<open>Join\<close> of every allowed peer
  that has appeared there. Everything else is no action at all.
\<close>

fun op_actions :: "membership_op \<Rightarrow> ca_state \<Rightarrow> ca_action list" where
  "op_actions (MJoin address role) (al, ad) =
    (case canonical_address address of
       None \<Rightarrow> []
     | Some a \<Rightarrow> if MIN_CLUSTER_RANK \<le> role_rank role \<and> a |\<in>| al \<and> a |\<notin>| ad then [CAJoin a] else [])"
| "op_actions (MLeave address) (al, ad) =
    (case canonical_address address of
       None \<Rightarrow> []
     | Some a \<Rightarrow> if a |\<in>| ad then [CALeave a] else [])"
| "op_actions (MReconcile roster) (al, ad) = [CAReconcile (allowed_set roster)]"
| "op_actions (MSync candidates) (al, ad) =
    map CALeave (sorted_list_of_fset (ad |-| (candidates |\<inter>| al)))
    @ map CAJoin (sorted_list_of_fset ((candidates |\<inter>| al) |-| ad))"

fun spec_run :: "membership_op list \<Rightarrow> ca_state \<Rightarrow> ca_state option" where
  "spec_run [] st = Some st"
| "spec_run (op # ops) st = Option.bind (ca_execs (op_actions op st) st) (spec_run ops)"

definition ca_safe :: "ca_state \<Rightarrow> bool" where
  "ca_safe st \<longleftrightarrow> snd st |\<subseteq>| fst st"

lemma ca_exec_safe: "ca_exec a st = Some st' \<Longrightarrow> ca_safe st \<Longrightarrow> ca_safe st'"
  by (cases a; cases st) (auto simp: ca_safe_def split: if_splits)

lemma ca_execs_append: "ca_execs (as @ bs) st = Option.bind (ca_execs as st) (ca_execs bs)"
proof (induction as arbitrary: st)
  case (Cons a as)
  then show ?case by (cases "ca_exec a st") simp_all
qed simp

lemma ca_execs_leaves:
  assumes "distinct ps" and "set ps \<subseteq> fset ad"
  shows "ca_execs (map CALeave ps) (al, ad) = Some (al, ad |-| fset_of_list ps)"
  using assms
proof (induction ps arbitrary: ad)
  case (Cons p ps)
  then have "set ps \<subseteq> fset (ad |-| {|p|})" by auto
  moreover have "ad |-| {|p|} |-| fset_of_list ps = ad |-| fset_of_list (p # ps)" by auto
  ultimately show ?case using Cons by simp
qed simp

lemma ca_execs_joins:
  assumes "distinct ps" and "set ps \<subseteq> fset al" and "set ps \<inter> fset ad = {}"
  shows "ca_execs (map CAJoin ps) (al, ad) = Some (al, ad |\<union>| fset_of_list ps)"
  using assms
proof (induction ps arbitrary: ad)
  case (Cons p ps)
  then have "set ps \<inter> fset (finsert p ad) = {}" by auto
  moreover have "finsert p ad |\<union>| fset_of_list ps = ad |\<union>| fset_of_list (p # ps)" by auto
  ultimately show ?case using Cons by simp
qed simp

definition ca_abs :: "cluster_membership \<Rightarrow> ca_state" where
  "ca_abs m = (mem_allowed m, mem_admitted m)"

lemma membership_step_actions: "ca_execs (op_actions op (ca_abs m)) (ca_abs m) = Some (ca_abs (membership_step op m))"
proof (cases op)
  case (MJoin address role)
  then show ?thesis
    by (auto simp: ca_abs_def membership_simps membership_join_True_iff admit_def split: option.splits)
next
  case (MLeave address)
  then show ?thesis
    by (auto simp: ca_abs_def membership_simps split: option.splits)
next
  case (MReconcile roster)
  then show ?thesis by (simp add: ca_abs_def membership_simps)
next
  case (MSync candidates)
  let ?al = "mem_allowed m" and ?ad = "mem_admitted m" and ?new = "candidates |\<inter>| mem_allowed m"
  have "fset_of_list (sorted_list_of_fset A) = A" for A :: "rstr fset" by (simp add: fset_eq_iff fset_of_list_elem)
  then have "ca_execs (map CALeave (sorted_list_of_fset (?ad |-| ?new))) (?al, ?ad) = Some (?al, ?ad |\<inter>| ?new)"
    "ca_execs (map CAJoin (sorted_list_of_fset (?new |-| ?ad))) (?al, ?ad |\<inter>| ?new) = Some (?al, ?new)"
    by (subst ca_execs_leaves ca_execs_joins; auto)+
  then show ?thesis by (simp add: MSync ca_abs_def membership_simps ca_execs_append)
qed

lemma spec_run_membership: "spec_run ops (ca_abs m) = Some (ca_abs (membership_run ops m))"
  unfolding membership_run_def
  by (induction ops arbitrary: m) (simp_all add: membership_step_actions)

subsection \<open>Properties\<close>

text \<open>In every state that joins, leaves, roster changes and synchronisations reach from a new
  membership, the admitted peers are among those that the roster in force allows.\<close>

theorem membership_run_safe:
  "let m = membership_run ops (membership_new roster)
   in invariant_holds m \<and> mem_admitted m |\<subseteq>| allowed_set (last_roster roster ops)"
proof -
  let ?m = "membership_run ops (membership_new roster)"
  have "invariant_holds ?m" by (rule membership_run_invariant) simp
  moreover have "mem_allowed ?m = allowed_set (last_roster roster ops)"
    by (rule membership_run_allowed) (simp add: membership_simps)
  ultimately show ?thesis by (simp add: Let_def invariant_holds_def)
qed

text \<open>C34. The implementation refines the formal model, action by action: whatever sequence of joins,
  leaves, roster changes and synchronisations is called, each call takes the pair of the allowed and
  the admitted set through exactly the actions it is meant to be, every one of them enabled when its
  turn comes, and does nothing where it is meant to do nothing.\<close>

theorem membership_run_refines:
  "spec_run ops (allowed_set roster, {||}) = Some (ca_abs (membership_run ops (membership_new roster)))"
proof -
  have "ca_abs (membership_new roster) = (allowed_set roster, {||})"
    by (simp add: ca_abs_def membership_simps)
  then show ?thesis using spec_run_membership [of ops "membership_new roster"] by simp
qed

text \<open>A roster change evicts exactly the admitted peers that the new roster does not allow, reports
  them in ascending order, keeps every other admitted peer and admits nobody.\<close>

theorem reconcile_evicts_exactly:
  "case membership_reconcile roster m of (evicted, m') \<Rightarrow>
     sorted_wrt (<) evicted
     \<and> set evicted = fset (mem_admitted m) - fset (allowed_set roster)
     \<and> fset (mem_admitted m') = fset (mem_admitted m) \<inter> fset (allowed_set roster)
     \<and> mem_allowed m' = allowed_set roster"
proof -
  obtain evicted m' where r: "membership_reconcile roster m = (evicted, m')" by fastforce
  have "evicted = sorted_list_of_fset (mem_admitted m |-| allowed_set roster)"
    "mem_admitted m' = mem_admitted m |\<inter>| allowed_set roster" "mem_allowed m' = allowed_set roster"
    using membership_reconcile_evicted [of roster m] membership_reconcile_admitted [of roster m]
      membership_reconcile_allowed [of roster m] by (simp_all add: r)
  then show ?thesis by (simp add: r strict_sorted_iff)
qed

end
