(* ===== verification/Transport.thy ===== *)
theory Transport
  imports Membership
begin

section \<open>Transports\<close>

text \<open>
  The traits \<open>ClusterTransport\<close> (\<open>crates/cluster-core/src/lib.rs\<close>) and \<open>MeshTransport\<close>
  (\<open>crates/cluster-daemon/src/transport.rs\<close>) are records of operations over the transport's state
  type; the supertrait is the record the subtrait extends. A type that implements a trait is a value
  of the record. What the daemon relies on is stated as locales, and \<open>InProcessTransport\<close>, the
  transport of a daemon without networking, is shown to meet the connection contract.
\<close>

record mesh_message =
  msg_from :: rstr
  msg_data :: rstr

record 't cluster_transport =
  tr_dial :: "rstr \<Rightarrow> 't \<Rightarrow> 't"
  tr_disconnect :: "rstr \<Rightarrow> 't \<Rightarrow> 't"
  tr_connected :: "'t \<Rightarrow> rstr list"

record 't mesh_transport = "'t cluster_transport" +
  tr_publish :: "rstr \<Rightarrow> rstr \<Rightarrow> 't \<Rightarrow> 't"
  tr_drain :: "'t \<Rightarrow> mesh_message list \<times> 't"
  tr_authorize :: "rstr \<Rightarrow> 't \<Rightarrow> 't"
  tr_add_peers :: "rstr list \<Rightarrow> 't \<Rightarrow> (rstr + nat) \<times> 't"
  tr_seed_addrs :: "'t \<Rightarrow> rstr + rstr list"

subsection \<open>The contract of a cluster transport\<close>

text \<open>
  The peers the session names are canonical addresses. Dialing a peer connects at most that peer;
  disconnecting one removes it from the connected list and nothing else.
\<close>

locale cluster_transport_laws =
  fixes T :: "('t, 'z) cluster_transport_scheme"
    and tinv :: "'t \<Rightarrow> bool"
  assumes dial_tinv: "tinv t \<Longrightarrow> is_canonical p \<Longrightarrow> tinv (tr_dial T p t)"
    and disconnect_tinv: "tinv t \<Longrightarrow> is_canonical p \<Longrightarrow> tinv (tr_disconnect T p t)"
    and dial_connected: "tinv t \<Longrightarrow> is_canonical p \<Longrightarrow>
      set (tr_connected T (tr_dial T p t)) \<subseteq> insert p (set (tr_connected T t))"
    and disconnect_connected: "tinv t \<Longrightarrow> is_canonical p \<Longrightarrow>
      set (tr_connected T (tr_disconnect T p t)) = set (tr_connected T t) - {p}"
begin

lemma disconnect_all:
  "tinv t \<Longrightarrow> \<forall>p\<in>set ps. is_canonical p \<Longrightarrow>
    tinv (fold (tr_disconnect T) ps t) \<and>
    set (tr_connected T (fold (tr_disconnect T) ps t)) = set (tr_connected T t) - set ps"
proof (induction ps arbitrary: t)
  case (Cons p ps)
  then show ?case
    using Cons.IH [of "tr_disconnect T p t"] disconnect_tinv [of t p] disconnect_connected [of t p]
    by auto
qed simp

lemmas disconnect_all_tinv = disconnect_all [THEN conjunct1]
lemmas disconnect_all_connected = disconnect_all [THEN conjunct2]

end

subsection \<open>The in-process transport\<close>

definition NO_MESH :: rstr where
  "NO_MESH = ''this node runs without the cross-machine mesh, so it has no address to share or dial''"

record in_process_transport =
  ip_connected :: "rstr fset"
  ip_inbox :: "mesh_message list"

definition in_process_new :: in_process_transport where
  "in_process_new = \<lparr>ip_connected = {||}, ip_inbox = []\<rparr>"

definition in_process_deliver :: "rstr \<Rightarrow> rstr \<Rightarrow> in_process_transport \<Rightarrow> in_process_transport" where
  "in_process_deliver sender body t =
    t\<lparr>ip_inbox := ip_inbox t @ [\<lparr>msg_from = sender, msg_data = body\<rparr>]\<rparr>"

definition in_process_dial :: "rstr \<Rightarrow> in_process_transport \<Rightarrow> in_process_transport" where
  "in_process_dial peer t = t\<lparr>ip_connected := finsert peer (ip_connected t)\<rparr>"

definition in_process_disconnect :: "rstr \<Rightarrow> in_process_transport \<Rightarrow> in_process_transport" where
  "in_process_disconnect peer t = t\<lparr>ip_connected := ip_connected t |-| {|peer|}\<rparr>"

definition in_process_connected :: "in_process_transport \<Rightarrow> rstr list" where
  "in_process_connected t = sorted_list_of_fset (ip_connected t)"

definition in_process_drain :: "in_process_transport \<Rightarrow> mesh_message list \<times> in_process_transport" where
  "in_process_drain t = (ip_inbox t, t\<lparr>ip_inbox := []\<rparr>)"

definition in_process :: "in_process_transport mesh_transport" where
  "in_process =
    \<lparr>tr_dial = in_process_dial,
     tr_disconnect = in_process_disconnect,
     tr_connected = in_process_connected,
     tr_publish = (\<lambda>_ _ t. t),
     tr_drain = in_process_drain,
     tr_authorize = (\<lambda>_ t. t),
     tr_add_peers = (\<lambda>_ t. (Err NO_MESH, t)),
     tr_seed_addrs = (\<lambda>_. Err NO_MESH)\<rparr>"

lemma in_process_simps [simp]:
  "tr_dial in_process = in_process_dial"
  "tr_disconnect in_process = in_process_disconnect"
  "tr_connected in_process = in_process_connected"
  "tr_publish in_process = (\<lambda>_ _ t. t)"
  "tr_drain in_process = in_process_drain"
  "tr_authorize in_process = (\<lambda>_ t. t)"
  "tr_add_peers in_process = (\<lambda>_ t. (Err NO_MESH, t))"
  "tr_seed_addrs in_process = (\<lambda>_. Err NO_MESH)"
  by (simp_all add: in_process_def)

interpretation ip: cluster_transport_laws in_process "\<lambda>_. True"
  by unfold_locales
    (auto simp: in_process_connected_def in_process_dial_def in_process_disconnect_def)

end
