(* ===== verification/Session.thy ===== *)
theory Session
  imports Transport
begin

section \<open>Sessions: membership bound to a transport\<close>

text \<open>
  \<open>ClusterSession\<close> of \<open>crates/cluster-core/src/lib.rs\<close>: every change of the membership is
  followed by the matching call on the transport. The transport is an argument (a record of
  operations); what holds of every transport that meets \<open>cluster_transport_laws\<close> is proved once
  inside that locale and specialised to the in-process transport by its interpretation.
\<close>

record 't cluster_session =
  s_membership :: cluster_membership
  s_transport :: 't

definition session_new :: "roster \<Rightarrow> 't \<Rightarrow> 't cluster_session" where
  "session_new roster t = \<lparr>s_membership = membership_new roster, s_transport = t\<rparr>"

definition session_join ::
  "('t, 'z) cluster_transport_scheme \<Rightarrow> rstr \<Rightarrow> rstr \<Rightarrow> 't cluster_session \<Rightarrow> bool \<times> 't cluster_session" where
  "session_join T address role s =
    (case membership_join address role (s_membership s) of (admitted, m) \<Rightarrow>
       let s1 = s\<lparr>s_membership := m\<rparr>
       in if admitted
          then case canonical_address address of
                 Some a \<Rightarrow> (admitted, s1\<lparr>s_transport := tr_dial T a (s_transport s1)\<rparr>)
               | None \<Rightarrow> (admitted, s1)
          else (admitted, s1))"

definition session_leave ::
  "('t, 'z) cluster_transport_scheme \<Rightarrow> rstr \<Rightarrow> 't cluster_session \<Rightarrow> 't cluster_session" where
  "session_leave T address s =
    (let s1 = s\<lparr>s_membership := membership_leave address (s_membership s)\<rparr>
     in case canonical_address address of
          Some a \<Rightarrow> s1\<lparr>s_transport := tr_disconnect T a (s_transport s1)\<rparr>
        | None \<Rightarrow> s1)"

definition session_reconcile ::
  "('t, 'z) cluster_transport_scheme \<Rightarrow> roster \<Rightarrow> 't cluster_session \<Rightarrow> rstr list \<times> 't cluster_session" where
  "session_reconcile T roster s =
    (case membership_reconcile roster (s_membership s) of (evicted, m) \<Rightarrow>
       (evicted, s\<lparr>s_membership := m,
                   s_transport := fold (tr_disconnect T) evicted (s_transport s)\<rparr>))"

definition sync_admitted_from_wire ::
  "('t, 'z) cluster_transport_scheme \<Rightarrow> 't cluster_session \<Rightarrow> 't cluster_session" where
  "sync_admitted_from_wire T s =
    s\<lparr>s_membership := sync_admitted (fset_of_list (tr_connected T (s_transport s))) (s_membership s)\<rparr>"

definition wire_tracks_admitted ::
  "('t, 'z) cluster_transport_scheme \<Rightarrow> 't cluster_session \<Rightarrow> bool" where
  "wire_tracks_admitted T s \<longleftrightarrow>
    (let admitted = fset_of_list (membership_admitted (s_membership s))
     in list_all (\<lambda>p. p |\<in>| admitted) (tr_connected T (s_transport s)))"

subsection \<open>Fields after each operation\<close>

named_theorems session_simps \<open>the fields of the state after each session operation\<close>

lemma session_new_simps [session_simps]:
  "s_membership (session_new roster t) = membership_new roster"
  "s_transport (session_new roster t) = t"
  by (simp_all add: session_new_def)

lemma session_join_simps [session_simps]:
  "fst (session_join T address role s) = fst (membership_join address role (s_membership s))"
  "s_membership (snd (session_join T address role s)) = snd (membership_join address role (s_membership s))"
  "s_transport (snd (session_join T address role s)) =
    (if fst (membership_join address role (s_membership s))
     then tr_dial T (the (canonical_address address)) (s_transport s) else s_transport s)"
proof -
  have "canonical_address address \<noteq> None" if "fst (membership_join address role (s_membership s))"
    using that by (auto simp: membership_join_True_iff admit_def split: option.splits)
  then show
    "fst (session_join T address role s) = fst (membership_join address role (s_membership s))"
    "s_membership (snd (session_join T address role s)) = snd (membership_join address role (s_membership s))"
    "s_transport (snd (session_join T address role s)) =
      (if fst (membership_join address role (s_membership s))
       then tr_dial T (the (canonical_address address)) (s_transport s) else s_transport s)"
    by (auto simp: session_join_def Let_def split: prod.splits option.splits)
qed

lemma session_leave_simps [session_simps]:
  "s_membership (session_leave T address s) = membership_leave address (s_membership s)"
  "s_transport (session_leave T address s) =
    (case canonical_address address of None \<Rightarrow> s_transport s | Some a \<Rightarrow> tr_disconnect T a (s_transport s))"
  by (simp_all add: session_leave_def Let_def split: option.splits)

lemma session_reconcile_simps [session_simps]:
  "fst (session_reconcile T roster s) = fst (membership_reconcile roster (s_membership s))"
  "s_membership (snd (session_reconcile T roster s)) = snd (membership_reconcile roster (s_membership s))"
  "s_transport (snd (session_reconcile T roster s)) =
    fold (tr_disconnect T) (fst (membership_reconcile roster (s_membership s))) (s_transport s)"
  by (simp_all add: session_reconcile_def split: prod.splits)

lemma sync_from_wire_simps [session_simps]:
  "s_membership (sync_admitted_from_wire T s) =
    sync_admitted (fset_of_list (tr_connected T (s_transport s))) (s_membership s)"
  "s_transport (sync_admitted_from_wire T s) = s_transport s"
  by (simp_all add: sync_admitted_from_wire_def)

lemma wire_tracks_admitted_iff:
  "wire_tracks_admitted T s \<longleftrightarrow>
    set (tr_connected T (s_transport s)) \<subseteq> fset (mem_admitted (s_membership s))"
  by (auto simp: wire_tracks_admitted_def membership_admitted_def list_all_iff)

subsection \<open>The wire never outruns the gate\<close>

definition membership_ok :: "cluster_membership \<Rightarrow> bool" where
  "membership_ok m \<longleftrightarrow> invariant_holds m \<and> fBall (mem_allowed m) is_canonical"

lemma membership_ok_new [simp]: "membership_ok (membership_new roster)"
  by (auto simp: membership_ok_def membership_simps intro: allowed_set_canonical)

lemma membership_ok_step: "membership_ok m \<Longrightarrow> membership_ok (membership_step op m)"
  using membership_step_invariant [of m op]
  by (cases op) (auto simp: membership_ok_def membership_simps intro: allowed_set_canonical)

lemmas membership_ok_join = membership_ok_step [where op = "MJoin address role" for address role, simplified]
lemmas membership_ok_leave = membership_ok_step [where op = "MLeave address" for address, simplified]
lemmas membership_ok_reconcile = membership_ok_step [where op = "MReconcile roster" for roster, simplified]
lemmas membership_ok_sync = membership_ok_step [where op = "MSync candidates" for candidates, simplified]

lemma membership_ok_admitted_canonical: "membership_ok m \<Longrightarrow> a |\<in>| mem_admitted m \<Longrightarrow> is_canonical a"
  by (auto simp: membership_ok_def invariant_holds_def)

lemma evicted_canonical:
  "membership_ok m \<Longrightarrow> \<forall>p\<in>set (fst (membership_reconcile roster m)). is_canonical p"
  by (auto simp: membership_simps intro: membership_ok_admitted_canonical)

text \<open>The operations of a session as data, so that a run is a list of them.\<close>

datatype session_op = SJoin rstr rstr | SLeave rstr | SReconcile roster | SSync

fun session_step ::
  "('t, 'z) cluster_transport_scheme \<Rightarrow> session_op \<Rightarrow> 't cluster_session \<Rightarrow> 't cluster_session" where
  "session_step T (SJoin address role) s = snd (session_join T address role s)"
| "session_step T (SLeave address) s = session_leave T address s"
| "session_step T (SReconcile roster) s = snd (session_reconcile T roster s)"
| "session_step T SSync s = sync_admitted_from_wire T s"

context cluster_transport_laws
begin

definition session_ok :: "'t cluster_session \<Rightarrow> bool" where
  "session_ok s \<longleftrightarrow> membership_ok (s_membership s) \<and> tinv (s_transport s)"

lemma session_ok_new: "tinv t \<Longrightarrow> session_ok (session_new roster t)"
  by (simp add: session_ok_def session_simps)

lemma session_join_dials_canonical:
  "fst (membership_join address role m) \<Longrightarrow> is_canonical (the (canonical_address address))"
  by (auto simp: membership_join_True_iff admit_def intro: canonical_address_canonical split: option.splits)

lemma session_step_ok:
  assumes "session_ok s"
  shows "session_ok (session_step T op s)"
proof (cases op)
  case (SJoin address role)
  with assms show ?thesis
    using session_join_dials_canonical [of address role "s_membership s"]
    by (auto simp: session_ok_def session_simps membership_ok_join intro: dial_tinv)
next
  case (SLeave address)
  with assms show ?thesis
    by (auto simp: session_ok_def session_simps membership_ok_leave split: option.splits
        intro: disconnect_tinv canonical_address_canonical)
next
  case (SReconcile roster)
  with assms show ?thesis
    by (auto simp: session_ok_def session_simps membership_ok_reconcile
        intro!: disconnect_all_tinv evicted_canonical)
next
  case SSync
  with assms show ?thesis by (simp add: session_ok_def session_simps membership_ok_sync)
qed

text \<open>
  Every operation of the session keeps \<open>connected \<subseteq> admitted\<close>, except \<open>sync_admitted_from_wire\<close>
  when the wire holds a peer the roster does not allow: that call can only drop the stranger from
  \<open>admitted\<close>, never admit it.
\<close>

lemma session_join_wire:
  assumes "session_ok s" and "wire_tracks_admitted T s"
  shows "wire_tracks_admitted T (snd (session_join T address role s))"
  using assms session_join_dials_canonical [of address role "s_membership s"]
    dial_connected [of "s_transport s" "the (canonical_address address)"]
  by (auto simp: wire_tracks_admitted_iff session_simps session_ok_def membership_simps)

lemma session_leave_wire:
  assumes "session_ok s" and "wire_tracks_admitted T s"
  shows "wire_tracks_admitted T (session_leave T address s)"
  using assms
  by (auto simp: wire_tracks_admitted_iff session_simps session_ok_def membership_simps
      disconnect_connected canonical_address_canonical split: option.splits)

lemma session_reconcile_wire:
  assumes "session_ok s" and "wire_tracks_admitted T s"
  shows "wire_tracks_admitted T (snd (session_reconcile T roster s))"
proof -
  have "set (tr_connected T (s_transport (snd (session_reconcile T roster s)))) =
      set (tr_connected T (s_transport s)) - set (fst (membership_reconcile roster (s_membership s)))"
    using assms(1) disconnect_all_connected [OF _ evicted_canonical]
    by (simp add: session_simps session_ok_def)
  with assms(2) show ?thesis
    by (auto simp: wire_tracks_admitted_iff session_simps membership_simps)
qed

lemma session_sync_wire:
  assumes "session_ok s" and "wire_tracks_admitted T s"
  shows "wire_tracks_admitted T (sync_admitted_from_wire T s)"
  using assms
  by (auto simp: wire_tracks_admitted_iff session_simps membership_simps session_ok_def
      membership_ok_def invariant_holds_def fset_of_list_elem)

lemma session_step_wire:
  "session_ok s \<Longrightarrow> wire_tracks_admitted T s \<Longrightarrow> wire_tracks_admitted T (session_step T op s)"
  by (cases op) (simp_all add: session_join_wire session_leave_wire session_reconcile_wire session_sync_wire)

lemma session_run_wire:
  assumes "session_ok s" and "wire_tracks_admitted T s"
  shows "session_ok (fold (session_step T) ops s) \<and> wire_tracks_admitted T (fold (session_step T) ops s)"
  using assms by (induction ops arbitrary: s) (simp_all add: session_step_ok session_step_wire)

end

text \<open>
  What a session on any transport records when it reads the wire: the connected peers that the
  roster allows. It makes no call on the transport.
\<close>

lemma sync_admitted_from_wire_admitted:
  "fset (mem_admitted (s_membership (sync_admitted_from_wire T s))) =
    set (tr_connected T (s_transport s)) \<inter> fset (mem_allowed (s_membership s))"
  by (auto simp: session_simps membership_simps fset_of_list.rep_eq)

text \<open>C12. For the in-process transport, started empty, no sequence of joins, leaves, roster changes
  and reads of the wire ever connects a peer that is not admitted, or admits one that the roster in
  force does not allow.\<close>

theorem session_wire_safe:
  "let s = fold (session_step in_process) ops (session_new roster in_process_new)
   in set (in_process_connected (s_transport s)) \<subseteq> fset (mem_admitted (s_membership s))
      \<and> mem_admitted (s_membership s) |\<subseteq>| mem_allowed (s_membership s)"
proof -
  let ?s = "session_new roster in_process_new"
  have "ip.session_ok ?s" by (rule ip.session_ok_new) simp
  moreover have "wire_tracks_admitted in_process ?s"
    by (simp add: wire_tracks_admitted_iff session_simps in_process_new_def in_process_connected_def)
  ultimately have "ip.session_ok (fold (session_step in_process) ops ?s)"
      "wire_tracks_admitted in_process (fold (session_step in_process) ops ?s)"
    using ip.session_run_wire by blast+
  then show ?thesis
    by (simp add: Let_def wire_tracks_admitted_iff ip.session_ok_def membership_ok_def invariant_holds_def)
qed

end
