(* ===== verification/Device.thy ===== *)
theory Device
  imports Admission "HOL-Library.Product_Lexorder"
begin

section \<open>Device links and revocations\<close>

text \<open>
  The records of \<open>crates/cluster-core/src/device.rs\<close> and their verification: a \<open>DeviceLink\<close> binds
  a device key to a member, a \<open>DeviceRevocation\<close> takes it back, and both are signed texts. The
  signature scheme is injected in the code (\<open>trait LinkVerifier\<close>); here it is the argument
  \<open>recover\<close>. \<open>u32\<close> and \<open>u64\<close> fields keep their width.
\<close>

definition DEVICE_LINK_VERSION :: "32 word" where
  "DEVICE_LINK_VERSION = 1"

definition MAX_LABEL_LEN :: nat where
  "MAX_LABEL_LEN = 48"

definition MAX_LINKS_PER_UPDATE :: nat where
  "MAX_LINKS_PER_UPDATE = 64"

definition MAX_DEVICE_INDEX :: "32 word" where
  "MAX_DEVICE_INDEX = 1023"

record device_link =
  dl_member :: rstr
  dl_device :: rstr
  dl_wallet :: rstr
  dl_index :: "32 word"
  dl_label :: rstr
  dl_issued_at :: "64 word"

definition label_byte :: "byte \<Rightarrow> bool" where
  "label_byte b \<longleftrightarrow> is_ascii_alphanumeric b \<or> b \<in> {CHR '' '', CHR ''.'', CHR ''_'', CHR ''-'', CHR 0x27}"

definition label_is_valid :: "rstr \<Rightarrow> bool" where
  "label_is_valid label \<longleftrightarrow>
    label \<noteq> [] \<and> length label \<le> MAX_LABEL_LEN \<and> trim label = label \<and> list_all label_byte label"

definition device_link_new ::
  "rstr \<Rightarrow> rstr \<Rightarrow> rstr \<Rightarrow> 32 word \<Rightarrow> rstr \<Rightarrow> 64 word \<Rightarrow> device_link option" where
  "device_link_new member device wallet index label issued_at =
    (case canonical_address member of None \<Rightarrow> None | Some m \<Rightarrow>
     case canonical_address device of None \<Rightarrow> None | Some d \<Rightarrow>
     case canonical_address wallet of None \<Rightarrow> None | Some w \<Rightarrow>
       if d = m \<or> d = w then None
       else if MAX_DEVICE_INDEX < index \<or> \<not> label_is_valid label then None
       else Some \<lparr>dl_member = m, dl_device = d, dl_wallet = w, dl_index = index,
                   dl_label = label, dl_issued_at = issued_at\<rparr>)"

abbreviation LF :: byte where
  "LF \<equiv> CHR 0x0A"

definition link_signing_message :: "device_link \<Rightarrow> rstr" where
  "link_signing_message l =
    ''Citrate DeviceLink v'' @ show_dec (unat DEVICE_LINK_VERSION) @ [LF] @
    ''Link this device to my Citrate member identity.'' @ [LF] @
    ''member: 0x'' @ dl_member l @ [LF] @
    ''device: 0x'' @ dl_device l @ [LF] @
    ''wallet: 0x'' @ dl_wallet l @ [LF] @
    ''index: '' @ show_dec (unat (dl_index l)) @ [LF] @
    ''label: '' @ dl_label l @ [LF] @
    ''issued_at: '' @ show_dec (unat (dl_issued_at l))"

record signed_device_link =
  sl_link :: device_link
  sl_member_sig :: rstr
  sl_device_sig :: rstr
  sl_wallet_sig :: rstr

record device_revocation =
  dr_member :: rstr
  dr_device :: rstr
  dr_revoked_at :: "64 word"

definition device_revocation_new :: "rstr \<Rightarrow> rstr \<Rightarrow> 64 word \<Rightarrow> device_revocation option" where
  "device_revocation_new member device revoked_at =
    (case canonical_address member of None \<Rightarrow> None | Some m \<Rightarrow>
     case canonical_address device of None \<Rightarrow> None | Some d \<Rightarrow>
       Some \<lparr>dr_member = m, dr_device = d, dr_revoked_at = revoked_at\<rparr>)"

definition revocation_signing_message :: "device_revocation \<Rightarrow> rstr" where
  "revocation_signing_message r =
    ''Citrate DeviceRevocation v'' @ show_dec (unat DEVICE_LINK_VERSION) @ [LF] @
    ''Remove this device from my Citrate member identity.'' @ [LF] @
    ''member: 0x'' @ dr_member r @ [LF] @
    ''device: 0x'' @ dr_device r @ [LF] @
    ''revoked_at: '' @ show_dec (unat (dr_revoked_at r))"

record signed_revocation =
  sr_revocation :: device_revocation
  sr_member_sig :: rstr

text \<open>\<open>LinkVerifier::recover(message, sig_hex)\<close>.\<close>

type_synonym link_verifier = "rstr \<Rightarrow> rstr \<Rightarrow> rstr option"

datatype link_rejection =
    Malformed rstr
  | BadSignature rstr rstr
  | Conflict rstr
  | Revoked rstr
  | BadRevocation rstr
  | TooMany

text \<open>\<open>DeviceLink::new\<close> applied again to the fields of a link, as \<open>verify_link\<close> and \<open>update\<close> do.\<close>

definition link_renew :: "device_link \<Rightarrow> device_link option" where
  "link_renew l =
    device_link_new (dl_member l) (dl_device l) (dl_wallet l) (dl_index l) (dl_label l) (dl_issued_at l)"

text \<open>The loop of \<open>verify_link\<close> over the three \<open>(which, sig, want)\<close> triples.\<close>

fun check_sigs :: "link_verifier \<Rightarrow> rstr \<Rightarrow> rstr \<Rightarrow> (rstr \<times> rstr \<times> rstr) list \<Rightarrow> link_rejection + unit" where
  "check_sigs recover msg device [] = Ok ()"
| "check_sigs recover msg device ((which, sig, want) # rest) =
    (if recover msg sig \<noteq> Some want then Err (BadSignature device which)
     else check_sigs recover msg device rest)"

definition verify_link :: "link_verifier \<Rightarrow> signed_device_link \<Rightarrow> link_rejection + unit" where
  "verify_link recover s =
    (case link_renew (sl_link s) of
       None \<Rightarrow> Err (Malformed (dl_device (sl_link s)))
     | Some canon \<Rightarrow>
         check_sigs recover (link_signing_message canon) (dl_device canon)
           [(''member'', sl_member_sig s, dl_member canon),
            (''device'', sl_device_sig s, dl_device canon),
            (''wallet'', sl_wallet_sig s, dl_wallet canon)])"

subsection \<open>Well-formed links\<close>

text \<open>What \<open>DeviceLink::new\<close> guarantees of the link it returns.\<close>

definition link_ok :: "device_link \<Rightarrow> bool" where
  "link_ok l \<longleftrightarrow>
    is_canonical (dl_member l) \<and> is_canonical (dl_device l) \<and> is_canonical (dl_wallet l)
    \<and> dl_device l \<noteq> dl_member l \<and> dl_device l \<noteq> dl_wallet l
    \<and> dl_index l \<le> MAX_DEVICE_INDEX \<and> label_is_valid (dl_label l)"

lemma device_link_new_Some_iff:
  "device_link_new member device wallet index label issued_at = Some l \<longleftrightarrow>
    canonical_address member = Some (dl_member l) \<and> canonical_address device = Some (dl_device l)
    \<and> canonical_address wallet = Some (dl_wallet l)
    \<and> dl_device l \<noteq> dl_member l \<and> dl_device l \<noteq> dl_wallet l
    \<and> index \<le> MAX_DEVICE_INDEX \<and> label_is_valid label
    \<and> dl_index l = index \<and> dl_label l = label \<and> dl_issued_at l = issued_at"
  by (cases l) (auto simp: device_link_new_def not_less split: option.splits)

lemma device_link_new_ok:
  "device_link_new member device wallet index label issued_at = Some l \<Longrightarrow> link_ok l"
  by (auto simp: device_link_new_Some_iff link_ok_def intro: canonical_address_canonical)

lemma link_renew_ok: "link_renew l = Some c \<Longrightarrow> link_ok c"
  by (auto simp: link_renew_def dest: device_link_new_ok)

lemma link_renew_fixed: "link_ok l \<Longrightarrow> link_renew l = Some l"
  by (simp add: link_renew_def device_link_new_Some_iff link_ok_def canonical_address_fixed)

lemma link_renew_Some_device:
  "link_renew l = Some c \<Longrightarrow> canonical_address (dl_device l) = Some (dl_device c)"
  by (simp add: link_renew_def device_link_new_Some_iff)

lemma device_revocation_new_Some_iff:
  "device_revocation_new member device revoked_at = Some r \<longleftrightarrow>
    canonical_address member = Some (dr_member r) \<and> canonical_address device = Some (dr_device r)
    \<and> dr_revoked_at r = revoked_at"
  by (cases r) (auto simp: device_revocation_new_def split: option.splits)

lemma check_sigs_Ok_iff:
  "check_sigs recover msg device xs = Ok () \<longleftrightarrow>
    (\<forall>(which, sig, want)\<in>set xs. recover msg sig = Some want)"
  by (induction recover msg device xs rule: check_sigs.induct) auto

text \<open>A link is accepted when all three keys signed the text of its canonical form.\<close>

definition link_signed :: "link_verifier \<Rightarrow> signed_device_link \<Rightarrow> device_link \<Rightarrow> bool" where
  "link_signed recover s c \<longleftrightarrow>
    link_renew (sl_link s) = Some c
    \<and> recover (link_signing_message c) (sl_member_sig s) = Some (dl_member c)
    \<and> recover (link_signing_message c) (sl_device_sig s) = Some (dl_device c)
    \<and> recover (link_signing_message c) (sl_wallet_sig s) = Some (dl_wallet c)"

lemma verify_link_Ok_iff: "verify_link recover s = Ok () \<longleftrightarrow> (\<exists>c. link_signed recover s c)"
  by (auto simp: verify_link_def link_signed_def check_sigs_Ok_iff split: option.splits)

lemma link_signed_unique: "link_signed recover s c \<Longrightarrow> link_signed recover s c' \<Longrightarrow> c = c'"
  by (simp add: link_signed_def)

lemma link_signed_ok: "link_signed recover s c \<Longrightarrow> link_ok c"
  by (auto simp: link_signed_def dest: link_renew_ok)

text \<open>A revocation counts when its member signed the text of its canonical form.\<close>

definition revocation_signed :: "link_verifier \<Rightarrow> signed_revocation \<Rightarrow> device_revocation \<Rightarrow> bool" where
  "revocation_signed recover s c \<longleftrightarrow>
    device_revocation_new (dr_member (sr_revocation s)) (dr_device (sr_revocation s))
      (dr_revoked_at (sr_revocation s)) = Some c
    \<and> recover (revocation_signing_message c) (sr_member_sig s) = Some (dr_member c)"

lemma revocation_signed_canonical:
  "revocation_signed recover s c \<Longrightarrow> is_canonical (dr_member c) \<and> is_canonical (dr_device c)"
  by (auto simp: revocation_signed_def device_revocation_new_Some_iff intro: canonical_address_canonical)

subsection \<open>The signed texts are unambiguous\<close>

lemma append_sep_inject:
  assumes "a @ c # r = b @ c # s" and "c \<notin> set a" and "c \<notin> set b"
  shows "a = b \<and> r = s"
proof -
  have "takeWhile ((\<noteq>) c) (a @ c # r) = a" using assms(2) by (subst takeWhile_append2) auto
  moreover have "takeWhile ((\<noteq>) c) (b @ c # s) = b" using assms(3) by (subst takeWhile_append2) auto
  ultimately have "a = b" using assms(1) by metis
  with assms(1) show ?thesis by simp
qed

lemma unat_inject [simp]: "unat x = unat y \<longleftrightarrow> x = y"
  by (rule word_eq_iff_unsigned [symmetric])

lemma label_no_LF: "label_is_valid label \<Longrightarrow> LF \<notin> set label"
  by (auto simp: label_is_valid_def label_byte_def list_all_iff is_ascii_alphanumeric_def)

lemma show_dec_no_LF: "LF \<notin> set (show_dec n)"
  using show_dec_digits [of LF n] by (auto simp: is_ascii_digit_def)

lemma canonical_no_LF: "is_canonical a \<Longrightarrow> LF \<notin> set a"
  by (auto simp: is_canonical_def list_all_iff is_ascii_hexdigit_def)

text \<open>The six fields of a link, one per line after two fixed lines.\<close>

lemma link_signing_message_inject:
  assumes "link_ok l" and "link_ok l'" and "link_signing_message l = link_signing_message l'"
  shows "l = l'"
proof -
  from assms(3) have m: "dl_member l @ LF # (''device: 0x'' @ dl_device l @ LF # (''wallet: 0x'' @ dl_wallet l @ LF #
      (''index: '' @ show_dec (unat (dl_index l)) @ LF # (''label: '' @ dl_label l @ LF #
      (''issued_at: '' @ show_dec (unat (dl_issued_at l)))))))
    = dl_member l' @ LF # (''device: 0x'' @ dl_device l' @ LF # (''wallet: 0x'' @ dl_wallet l' @ LF #
      (''index: '' @ show_dec (unat (dl_index l')) @ LF # (''label: '' @ dl_label l' @ LF #
      (''issued_at: '' @ show_dec (unat (dl_issued_at l')))))))"
    by (simp add: link_signing_message_def)
  from assms(1,2) have ok: "LF \<notin> set (dl_member l)" "LF \<notin> set (dl_member l')" "LF \<notin> set (dl_device l)"
    "LF \<notin> set (dl_device l')" "LF \<notin> set (dl_wallet l)" "LF \<notin> set (dl_wallet l')"
    "LF \<notin> set (dl_label l)" "LF \<notin> set (dl_label l')"
    by (auto simp: link_ok_def dest: canonical_no_LF label_no_LF)
  from append_sep_inject [OF m ok(1,2)] have member: "dl_member l = dl_member l'"
    and d: "dl_device l @ LF # (''wallet: 0x'' @ dl_wallet l @ LF #
      (''index: '' @ show_dec (unat (dl_index l)) @ LF # (''label: '' @ dl_label l @ LF #
      (''issued_at: '' @ show_dec (unat (dl_issued_at l))))))
    = dl_device l' @ LF # (''wallet: 0x'' @ dl_wallet l' @ LF #
      (''index: '' @ show_dec (unat (dl_index l')) @ LF # (''label: '' @ dl_label l' @ LF #
      (''issued_at: '' @ show_dec (unat (dl_issued_at l'))))))" by simp_all
  from append_sep_inject [OF d ok(3,4)] have device: "dl_device l = dl_device l'"
    and w: "dl_wallet l @ LF # (''index: '' @ show_dec (unat (dl_index l)) @ LF # (''label: '' @ dl_label l @ LF #
      (''issued_at: '' @ show_dec (unat (dl_issued_at l)))))
    = dl_wallet l' @ LF # (''index: '' @ show_dec (unat (dl_index l')) @ LF # (''label: '' @ dl_label l' @ LF #
      (''issued_at: '' @ show_dec (unat (dl_issued_at l')))))" by simp_all
  from append_sep_inject [OF w ok(5,6)] have wallet: "dl_wallet l = dl_wallet l'"
    and i: "show_dec (unat (dl_index l)) @ LF # (''label: '' @ dl_label l @ LF #
      (''issued_at: '' @ show_dec (unat (dl_issued_at l))))
    = show_dec (unat (dl_index l')) @ LF # (''label: '' @ dl_label l' @ LF #
      (''issued_at: '' @ show_dec (unat (dl_issued_at l'))))" by simp_all
  from append_sep_inject [OF i show_dec_no_LF show_dec_no_LF] have index: "dl_index l = dl_index l'"
    and b: "dl_label l @ LF # (''issued_at: '' @ show_dec (unat (dl_issued_at l)))
    = dl_label l' @ LF # (''issued_at: '' @ show_dec (unat (dl_issued_at l')))" by simp_all
  from append_sep_inject [OF b ok(7,8)] have "dl_label l = dl_label l'" "dl_issued_at l = dl_issued_at l'"
    by simp_all
  with member device wallet index show ?thesis by simp
qed

lemma revocation_signing_message_inject:
  assumes "is_canonical (dr_member r)" "is_canonical (dr_device r)"
    and "is_canonical (dr_member r')" "is_canonical (dr_device r')"
    and "revocation_signing_message r = revocation_signing_message r'"
  shows "r = r'"
proof -
  from assms(5) have m: "dr_member r @ LF # (''device: 0x'' @ dr_device r @ LF # (''revoked_at: '' @ show_dec (unat (dr_revoked_at r))))
     = dr_member r' @ LF # (''device: 0x'' @ dr_device r' @ LF # (''revoked_at: '' @ show_dec (unat (dr_revoked_at r'))))"
    by (simp add: revocation_signing_message_def)
  from append_sep_inject [OF m] assms canonical_no_LF
  have d: "dr_member r = dr_member r'"
      "dr_device r @ LF # (''revoked_at: '' @ show_dec (unat (dr_revoked_at r)))
       = dr_device r' @ LF # (''revoked_at: '' @ show_dec (unat (dr_revoked_at r')))" by simp_all
  from append_sep_inject [OF d(2)] assms canonical_no_LF
  have "dr_device r = dr_device r'" "dr_revoked_at r = dr_revoked_at r'" by simp_all
  with d(1) show ?thesis by simp
qed

text \<open>C36. The text a link is signed over determines every field of the link, and the text of a
  revocation every field of the revocation; no text is both. So a signature over one record is not a
  signature over any other record.\<close>

theorem signing_messages_unambiguous:
  assumes "device_link_new m d w i lb t = Some l" and "device_link_new m' d' w' i' lb' t' = Some l'"
    and "device_revocation_new rm rd rt = Some r" and "device_revocation_new rm' rd' rt' = Some r'"
  shows "(link_signing_message l = link_signing_message l' \<longleftrightarrow> l = l')
    \<and> (revocation_signing_message r = revocation_signing_message r' \<longleftrightarrow> r = r')
    \<and> link_signing_message l \<noteq> revocation_signing_message r"
proof (intro conjI)
  show "link_signing_message l = link_signing_message l' \<longleftrightarrow> l = l'"
    using assms(1,2) link_signing_message_inject [of l l'] by (auto dest: device_link_new_ok)
  have "is_canonical (dr_member r)" "is_canonical (dr_device r)"
      "is_canonical (dr_member r')" "is_canonical (dr_device r')"
    using assms(3,4) canonical_address_canonical by (auto simp: device_revocation_new_Some_iff)
  then show "revocation_signing_message r = revocation_signing_message r' \<longleftrightarrow> r = r'"
    using revocation_signing_message_inject [of r r'] by auto
  show "link_signing_message l \<noteq> revocation_signing_message r"
    by (simp add: link_signing_message_def revocation_signing_message_def)
qed

subsection \<open>Golden vectors\<close>

text \<open>Forty-digit test addresses, as in \<open>device_tests.rs\<close>.\<close>

definition addr_of :: "rstr \<Rightarrow> rstr" where
  "addr_of s = replicate (40 - length s) (CHR ''0'') @ s"

lemma addr_of_canonical:
  "length s \<le> 40 \<Longrightarrow> list_all (\<lambda>b. is_ascii_hexdigit b \<and> to_ascii_lowercase b = b) s \<Longrightarrow> is_canonical (addr_of s)"
  by (auto simp: addr_of_def is_canonical_def list_all_iff is_ascii_hexdigit_def to_ascii_lowercase_def)

lemma addr_of_fixed:
  "length s \<le> 40 \<Longrightarrow> list_all (\<lambda>b. is_ascii_hexdigit b \<and> to_ascii_lowercase b = b) s
    \<Longrightarrow> canonical_address (addr_of s) = Some (addr_of s)"
  by (rule canonical_address_fixed) (rule addr_of_canonical)

lemma test_addrs [simp]:
  "canonical_address (addr_of ''a1'') = Some (addr_of ''a1'')"
  "canonical_address (addr_of ''a2'') = Some (addr_of ''a2'')"
  "canonical_address (addr_of ''d1'') = Some (addr_of ''d1'')"
  "canonical_address (addr_of ''b1'') = Some (addr_of ''b1'')"
  "canonical_address (addr_of ''b2'') = Some (addr_of ''b2'')"
  by (rule addr_of_fixed; simp add: is_ascii_hexdigit_def to_ascii_lowercase_def)+

lemma test_addrs_distinct [simp]:
  "addr_of ''a1'' \<noteq> addr_of ''a2''" "addr_of ''a2'' \<noteq> addr_of ''a1''"
  "addr_of ''d1'' \<noteq> addr_of ''a1''" "addr_of ''d1'' \<noteq> addr_of ''a2''"
  "addr_of ''d1'' \<noteq> addr_of ''b1''" "addr_of ''d1'' \<noteq> addr_of ''b2''"
  "addr_of ''a1'' \<noteq> addr_of ''b1''" "addr_of ''a2'' \<noteq> addr_of ''b2''"
  by (simp_all add: addr_of_def)

lemma test_label [simp]: "label_is_valid ''Studio Mac''"
  by (simp add: label_is_valid_def label_byte_def trim_graphic_ends MAX_LABEL_LEN_def ascii_defs)

lemma show_dec_1790000000: "show_dec 1790000000 = ''1790000000''"
  by (simp add: show_dec.simps char_of_def bit_Suc_0_iff)

lemma show_dec_small: "show_dec 0 = ''0''" "show_dec (Suc 0) = ''1''"
  by code_simp+

lemma addr_vectors:
  "addr_of ''a1'' = ''00000000000000000000000000000000000000a1''"
  "addr_of ''d1'' = ''00000000000000000000000000000000000000d1''"
  "addr_of ''b1'' = ''00000000000000000000000000000000000000b1''"
  by code_simp+

lemma link_golden_vector:
  "map_option link_signing_message
     (device_link_new (addr_of ''a1'') (addr_of ''d1'') (addr_of ''b1'') 0 ''Studio Mac'' 1790000000) =
   Some (''Citrate DeviceLink v1'' @ [LF] @ ''Link this device to my Citrate member identity.'' @ [LF] @
     ''member: 0x00000000000000000000000000000000000000a1'' @ [LF] @
     ''device: 0x00000000000000000000000000000000000000d1'' @ [LF] @
     ''wallet: 0x00000000000000000000000000000000000000b1'' @ [LF] @
     ''index: 0'' @ [LF] @ ''label: Studio Mac'' @ [LF] @ ''issued_at: 1790000000'')"
proof -
  have "device_link_new (addr_of ''a1'') (addr_of ''d1'') (addr_of ''b1'') 0 ''Studio Mac'' 1790000000
    = Some \<lparr>dl_member = addr_of ''a1'', dl_device = addr_of ''d1'', dl_wallet = addr_of ''b1'', dl_index = 0,
            dl_label = ''Studio Mac'', dl_issued_at = 1790000000\<rparr>"
    by (simp add: device_link_new_Some_iff)
  moreover have "link_signing_message \<lparr>dl_member = addr_of ''a1'', dl_device = addr_of ''d1'',
      dl_wallet = addr_of ''b1'', dl_index = 0, dl_label = ''Studio Mac'', dl_issued_at = 1790000000\<rparr>
    = ''Citrate DeviceLink v1'' @ [LF] @ ''Link this device to my Citrate member identity.'' @ [LF] @
     ''member: 0x00000000000000000000000000000000000000a1'' @ [LF] @
     ''device: 0x00000000000000000000000000000000000000d1'' @ [LF] @
     ''wallet: 0x00000000000000000000000000000000000000b1'' @ [LF] @
     ''index: 0'' @ [LF] @ ''label: Studio Mac'' @ [LF] @ ''issued_at: 1790000000''"
    by (simp add: link_signing_message_def DEVICE_LINK_VERSION_def addr_vectors
        show_dec_1790000000 show_dec_small)
  ultimately show ?thesis by simp
qed

theorem signing_messages_unambiguous_witness:
  "link_signing_message \<lparr>dl_member = addr_of ''a1'', dl_device = addr_of ''d1'', dl_wallet = addr_of ''b1'',
     dl_index = 0, dl_label = ''Studio Mac'', dl_issued_at = 1\<rparr>
   \<noteq> link_signing_message \<lparr>dl_member = addr_of ''a1'', dl_device = addr_of ''d1'', dl_wallet = addr_of ''b1'',
     dl_index = 1, dl_label = ''Studio Mac'', dl_issued_at = 1\<rparr>"
proof -
  have new: "device_link_new (addr_of ''a1'') (addr_of ''d1'') (addr_of ''b1'') i ''Studio Mac'' 1
    = Some \<lparr>dl_member = addr_of ''a1'', dl_device = addr_of ''d1'', dl_wallet = addr_of ''b1'', dl_index = i,
            dl_label = ''Studio Mac'', dl_issued_at = 1\<rparr>" if "i \<le> MAX_DEVICE_INDEX" for i
    using that by (simp add: device_link_new_Some_iff)
  have i: "0 \<le> MAX_DEVICE_INDEX" "1 \<le> MAX_DEVICE_INDEX" by (simp_all add: MAX_DEVICE_INDEX_def)
  have rv: "device_revocation_new (addr_of ''a1'') (addr_of ''d1'') 1
    = Some \<lparr>dr_member = addr_of ''a1'', dr_device = addr_of ''d1'', dr_revoked_at = 1\<rparr>"
    by (simp add: device_revocation_new_Some_iff)
  from signing_messages_unambiguous [OF new [OF i(1)] new [OF i(2)] rv rv] show ?thesis by simp
qed

end
