(* ===== verification/Registry.thy ===== *)
theory Registry
  imports Device
begin

section \<open>The device registry\<close>

text \<open>
  \<open>DeviceRegistry\<close> of \<open>crates/cluster-core/src/device.rs\<close>: the verified links of one group and
  its sticky revocations. \<open>registry_update\<close> follows the three phases of \<open>update\<close> (revocations,
  verification, resolution per device); the lemmas then say what the phases compute together, in
  terms of what was signed and not of the order in which it came.
\<close>

record device_registry =
  reg_links :: "(rstr, device_link) fmap"
  reg_revoked :: "(rstr \<times> rstr) fset"

definition registry_new :: device_registry where
  "registry_new = \<lparr>reg_links = fmempty, reg_revoked = {||}\<rparr>"

text \<open>Phase 1: one revocation. The state is the list of rejections and the revoked pairs.\<close>

definition apply_revocation ::
  "link_verifier \<Rightarrow> signed_revocation \<Rightarrow> link_rejection list \<times> (rstr \<times> rstr) fset
    \<Rightarrow> link_rejection list \<times> (rstr \<times> rstr) fset" where
  "apply_revocation recover r acc =
    (case acc of (rejected, revoked) \<Rightarrow>
      (case device_revocation_new (dr_member (sr_revocation r)) (dr_device (sr_revocation r))
              (dr_revoked_at (sr_revocation r)) of
         None \<Rightarrow> (rejected @ [BadRevocation (dr_device (sr_revocation r))], revoked)
       | Some rv \<Rightarrow>
           if recover (revocation_signing_message rv) (sr_member_sig r) = Some (dr_member rv)
           then (rejected, finsert (dr_member rv, dr_device rv) revoked)
           else (rejected @ [BadRevocation (dr_device rv)], revoked)))"

text \<open>Phase 2: one link. The state is the list of rejections and the verified links per device.\<close>

definition collect_link ::
  "link_verifier \<Rightarrow> signed_device_link \<Rightarrow> link_rejection list \<times> (rstr, device_link list) fmap
    \<Rightarrow> link_rejection list \<times> (rstr, device_link list) fmap" where
  "collect_link recover s acc =
    (case acc of (rejected, verified) \<Rightarrow>
      (case verify_link recover s of
         Ok _ \<Rightarrow>
           (case link_renew (sl_link s) of
              Some c \<Rightarrow> (rejected, fmupd (dl_device c) (fm_get_or [] verified (dl_device c) @ [c]) verified)
            | None \<Rightarrow> (rejected, verified))
       | Err e \<Rightarrow> (rejected @ [e], verified)))"

text \<open>Phase 3: one device with its verified links.\<close>

definition resolve_device ::
  "(rstr \<times> rstr) fset \<Rightarrow> rstr \<times> device_link list \<Rightarrow> link_rejection list \<times> (rstr, device_link) fmap
    \<Rightarrow> link_rejection list \<times> (rstr, device_link) fmap" where
  "resolve_device revoked entry acc =
    (case entry of (device, ls) \<Rightarrow> case acc of (rejected, candidates) \<Rightarrow>
      if 1 < fcard (fset_of_list (map dl_member ls)) then (rejected @ [Conflict device], candidates)
      else let ls' = sort_key (\<lambda>l. (dl_issued_at l, dl_label l)) ls
        in if ls' = [] then (rejected, candidates)
           else let newest = last ls'
             in if (dl_member newest, dl_device newest) |\<in>| revoked
                then (rejected @ [Revoked device], candidates)
                else (rejected, fmupd device newest candidates))"

definition registry_update ::
  "link_verifier \<Rightarrow> signed_device_link list \<Rightarrow> signed_revocation list \<Rightarrow> device_registry
    \<Rightarrow> link_rejection list \<times> device_registry" where
  "registry_update recover links revocations reg =
    (if MAX_LINKS_PER_UPDATE < length links \<or> MAX_LINKS_PER_UPDATE < length revocations
     then ([TooMany], reg)
     else case fold (apply_revocation recover) revocations ([], reg_revoked reg) of (rej1, revoked) \<Rightarrow>
          case fold (collect_link recover) links (rej1, fmempty) of (rej2, verified) \<Rightarrow>
          case fold (resolve_device revoked) (sorted_list_of_fmap verified) (rej2, fmempty) of
            (rej3, candidates) \<Rightarrow> (rej3, \<lparr>reg_links = candidates, reg_revoked = revoked\<rparr>))"

definition registry_member_of :: "rstr \<Rightarrow> device_registry \<Rightarrow> rstr option" where
  "registry_member_of device reg =
    (case canonical_address device of
       None \<Rightarrow> None
     | Some d \<Rightarrow> map_option dl_member (fmlookup (reg_links reg) d))"

definition registry_is_revoked :: "rstr \<Rightarrow> rstr \<Rightarrow> device_registry \<Rightarrow> bool" where
  "registry_is_revoked member device reg =
    (case (canonical_address member, canonical_address device) of
       (Some m, Some d) \<Rightarrow> (m, d) |\<in>| reg_revoked reg
     | _ \<Rightarrow> False)"

definition registry_links :: "device_registry \<Rightarrow> device_link list" where
  "registry_links reg = fm_values (reg_links reg)"

definition devices_of :: "rstr \<Rightarrow> device_registry \<Rightarrow> device_link list" where
  "devices_of member reg =
    (case canonical_address member of
       None \<Rightarrow> []
     | Some m \<Rightarrow> sort_key dl_index (filter (\<lambda>l. dl_member l = m) (fm_values (reg_links reg))))"

definition registry_revocations :: "device_registry \<Rightarrow> (rstr \<times> rstr) list" where
  "registry_revocations reg = sorted_list_of_fset (reg_revoked reg)"

subsection \<open>What the phases compute\<close>

text \<open>The pairs that a list of revocations revokes, and the links of a list that verify.\<close>

definition signed_pair :: "link_verifier \<Rightarrow> signed_revocation \<Rightarrow> (rstr \<times> rstr) option" where
  "signed_pair recover r =
    (case device_revocation_new (dr_member (sr_revocation r)) (dr_device (sr_revocation r))
            (dr_revoked_at (sr_revocation r)) of
       None \<Rightarrow> None
     | Some rv \<Rightarrow>
         if recover (revocation_signing_message rv) (sr_member_sig r) = Some (dr_member rv)
         then Some (dr_member rv, dr_device rv) else None)"

lemma signed_pair_Some_iff:
  "signed_pair recover r = Some p \<longleftrightarrow> (\<exists>c. revocation_signed recover r c \<and> p = (dr_member c, dr_device c))"
  by (auto simp: signed_pair_def revocation_signed_def split: option.splits if_splits)

lemma snd_apply_revocation: "snd (apply_revocation recover r acc) = insert_some (signed_pair recover) r (snd acc)"
  by (auto simp: apply_revocation_def signed_pair_def insert_some_def split: prod.splits option.splits)

lemma snd_fold_apply_revocation:
  "snd (fold (apply_revocation recover) rs acc) = fold (insert_some (signed_pair recover)) rs (snd acc)"
  by (induction rs arbitrary: acc) (simp_all add: snd_apply_revocation)

definition signed_link :: "link_verifier \<Rightarrow> signed_device_link \<Rightarrow> device_link option" where
  "signed_link recover s = (if is_ok (verify_link recover s) then link_renew (sl_link s) else None)"

lemma signed_link_Some_iff: "signed_link recover s = Some c \<longleftrightarrow> link_signed recover s c"
proof -
  have "is_ok (verify_link recover s) \<longleftrightarrow> verify_link recover s = Ok ()"
    by (cases "verify_link recover s") simp_all
  then show ?thesis by (auto simp: signed_link_def verify_link_Ok_iff) (auto simp: link_signed_def)
qed

definition links_for :: "link_verifier \<Rightarrow> signed_device_link list \<Rightarrow> rstr \<Rightarrow> device_link list" where
  "links_for recover links d = filter (\<lambda>c. dl_device c = d) (List.map_filter (signed_link recover) links)"

lemma set_links_for:
  "set (links_for recover links d) = {c. dl_device c = d \<and> (\<exists>s\<in>set links. link_signed recover s c)}"
  by (force simp: links_for_def List.map_filter_def signed_link_Some_iff [symmetric])

lemma links_for_snoc:
  "links_for recover (links @ [s]) d =
    links_for recover links d @
    (case signed_link recover s of None \<Rightarrow> [] | Some c \<Rightarrow> if dl_device c = d then [c] else [])"
  by (simp add: links_for_def List.map_filter_def split: option.splits)

lemma snd_collect_link:
  "snd (collect_link recover s acc) =
    (case signed_link recover s of None \<Rightarrow> snd acc
     | Some c \<Rightarrow> fmupd (dl_device c) (fm_get_or [] (snd acc) (dl_device c) @ [c]) (snd acc))"
  by (auto simp: collect_link_def signed_link_def split: prod.splits sum.splits option.splits)

lemma fold_collect_link:
  "fmlookup (snd (fold (collect_link recover) links (rej, fmempty))) d =
    (if links_for recover links d = [] then None else Some (links_for recover links d))"
proof (induction links arbitrary: d rule: rev_induct)
  case Nil
  then show ?case by (simp add: links_for_def)
next
  case (snoc s links)
  let ?m = "snd (fold (collect_link recover) links (rej, fmempty))"
  have "fm_get_or [] ?m d = links_for recover links d" for d
    using snoc by (simp add: fm_get_or_def)
  with snoc show ?case by (simp add: snd_collect_link links_for_snoc split: option.splits)
qed

definition newest_link :: "device_link list \<Rightarrow> device_link" where
  "newest_link ls = last (sort_key (\<lambda>l. (dl_issued_at l, dl_label l)) ls)"

text \<open>The link of a device that phase 3 keeps.\<close>

definition resolved :: "(rstr \<times> rstr) fset \<Rightarrow> device_link list \<Rightarrow> device_link option" where
  "resolved revoked ls =
    (if ls = [] \<or> 1 < fcard (fset_of_list (map dl_member ls))
       \<or> (dl_member (newest_link ls), dl_device (newest_link ls)) |\<in>| revoked
     then None else Some (newest_link ls))"

lemma sort_key_Nil_iff: "sort_key f xs = [] \<longleftrightarrow> xs = []"
  by (metis length_0_conv length_sort)

lemma snd_resolve_device:
  "snd (resolve_device revoked (d, ls) acc) =
    (case resolved revoked ls of None \<Rightarrow> snd acc | Some l \<Rightarrow> fmupd d l (snd acc))"
  by (auto simp: resolve_device_def resolved_def newest_link_def Let_def sort_key_Nil_iff split: prod.splits)

lemma fold_resolve_device:
  "distinct (map fst es) \<Longrightarrow>
    fmlookup (snd (fold (resolve_device revoked) es acc)) d =
    (case map_of es d of None \<Rightarrow> fmlookup (snd acc) d
     | Some ls \<Rightarrow> (case resolved revoked ls of None \<Rightarrow> fmlookup (snd acc) d | Some l \<Rightarrow> Some l))"
proof (induction es arbitrary: acc)
  case (Cons e es)
  obtain k ls where e: "e = (k, ls)" by (cases e)
  from Cons.prems e have "map_of es k = None" by (simp add: map_of_eq_None_iff)
  with Cons.IH [of "resolve_device revoked e acc"] Cons.prems e show ?case
    by (auto simp: snd_resolve_device split: option.splits)
qed simp

lemma map_of_sorted_list_of_fmap [simp]: "map_of (sorted_list_of_fmap m) = fmlookup m"
proof
  fix k
  show "map_of (sorted_list_of_fmap m) k = fmlookup m k"
  proof (cases "fmlookup m k")
    case None
    then have "k \<notin> fst ` set (sorted_list_of_fmap m)" by (auto simp: set_sorted_list_of_fmap)
    with None show ?thesis by (simp add: map_of_eq_None_iff)
  next
    case (Some v)
    then have "(k, v) \<in> set (sorted_list_of_fmap m)" by (simp add: set_sorted_list_of_fmap)
    with Some show ?thesis by (metis map_of_is_SomeI map_fst_sorted_list_of_fmap sorted_list_of_fset_distinct)
  qed
qed

lemma newest_link_in: "ls \<noteq> [] \<Longrightarrow> newest_link ls \<in> set ls"
  by (simp add: newest_link_def last_sort_key_in)

lemma newest_link_greatest:
  "l \<in> set ls \<Longrightarrow> (dl_issued_at l, dl_label l) \<le> (dl_issued_at (newest_link ls), dl_label (newest_link ls))"
  unfolding newest_link_def by (rule last_sort_key_greatest)

lemma fcard_le_1_iff: "x \<in> set xs \<Longrightarrow> \<not> 1 < fcard (fset_of_list xs) \<longleftrightarrow> (\<forall>y\<in>set xs. y = x)"
proof -
  assume x: "x \<in> set xs"
  have "card (set xs) \<le> 1 \<longleftrightarrow> (\<forall>a\<in>set xs. \<forall>b\<in>set xs. a = b)"
    using card_le_Suc0_iff_eq [of "set xs"] by simp
  with x show ?thesis by (metis fcard.rep_eq fset_of_list.rep_eq linorder_not_le)
qed

lemma resolved_Some_iff:
  "resolved revoked ls = Some l \<longleftrightarrow>
    ls \<noteq> [] \<and> l = newest_link ls \<and> (\<forall>l'\<in>set ls. dl_member l' = dl_member l)
    \<and> (dl_member l, dl_device l) |\<notin>| revoked"
proof (cases "ls = []")
  case False
  then have "dl_member (newest_link ls) \<in> set (map dl_member ls)" by (simp add: newest_link_in)
  from fcard_le_1_iff [OF this] have "\<not> 1 < fcard (fset_of_list (map dl_member ls)) \<longleftrightarrow>
      (\<forall>l'\<in>set ls. dl_member l' = dl_member (newest_link ls))" by auto
  with False show ?thesis by (auto simp: resolved_def)
qed (simp add: resolved_def)

subsection \<open>The registry after an update\<close>

definition update_fits :: "signed_device_link list \<Rightarrow> signed_revocation list \<Rightarrow> bool" where
  "update_fits links revocations \<longleftrightarrow>
    length links \<le> MAX_LINKS_PER_UPDATE \<and> length revocations \<le> MAX_LINKS_PER_UPDATE"

lemma registry_update_too_many:
  "\<not> update_fits links revocations \<Longrightarrow> registry_update recover links revocations reg = ([TooMany], reg)"
  by (auto simp: registry_update_def update_fits_def)

lemma registry_update_unfold:
  assumes "update_fits links revocations"
  shows "reg_revoked (snd (registry_update recover links revocations reg)) =
      fold (insert_some (signed_pair recover)) revocations (reg_revoked reg)" (is ?revoked)
    and "fmlookup (reg_links (snd (registry_update recover links revocations reg))) d =
      resolved (fold (insert_some (signed_pair recover)) revocations (reg_revoked reg))
        (links_for recover links d)" (is ?links)
proof -
  obtain rej1 revoked where f1: "fold (apply_revocation recover) revocations ([], reg_revoked reg) = (rej1, revoked)"
    by fastforce
  obtain rej2 verified where f2: "fold (collect_link recover) links (rej1, fmempty) = (rej2, verified)"
    by fastforce
  obtain rej3 candidates where
    f3: "fold (resolve_device revoked) (sorted_list_of_fmap verified) (rej2, fmempty) = (rej3, candidates)"
    by fastforce
  have reg': "snd (registry_update recover links revocations reg) = \<lparr>reg_links = candidates, reg_revoked = revoked\<rparr>"
    using assms by (simp add: registry_update_def update_fits_def f1 f2 f3)
  have revoked: "revoked = fold (insert_some (signed_pair recover)) revocations (reg_revoked reg)"
    using snd_fold_apply_revocation [of recover revocations "([], reg_revoked reg)"] by (simp add: f1)
  then show ?revoked by (simp add: reg')
  have "fmlookup candidates d = (case fmlookup verified d of None \<Rightarrow> None | Some ls \<Rightarrow> resolved revoked ls)"
    using fold_resolve_device [of "sorted_list_of_fmap verified" revoked "(rej2, fmempty)" d]
    by (auto simp: f3 split: option.splits)
  moreover have "fmlookup verified d =
      (if links_for recover links d = [] then None else Some (links_for recover links d))"
    using fold_collect_link [of recover links rej1 d] by (simp add: f2)
  ultimately have "fmlookup candidates d = resolved revoked (links_for recover links d)"
    by (simp add: resolved_def)
  with revoked show ?links by (simp add: reg')
qed

lemma registry_update_revoked_member:
  "(m, d) |\<in>| reg_revoked (snd (registry_update recover links revocations reg)) \<longleftrightarrow>
    (m, d) |\<in>| reg_revoked reg \<or>
    (update_fits links revocations \<and>
      (\<exists>r\<in>set revocations. \<exists>c. revocation_signed recover r c \<and> dr_member c = m \<and> dr_device c = d))"
proof (cases "update_fits links revocations")
  case True
  then show ?thesis
    by (auto simp: registry_update_unfold fold_insert_some_member signed_pair_Some_iff)
qed (simp add: registry_update_too_many)

text \<open>The verified links of an update that name \<open>d\<close> as a device of \<open>m\<close>.\<close>

definition links_to :: "link_verifier \<Rightarrow> signed_device_link list \<Rightarrow> rstr \<Rightarrow> rstr \<Rightarrow> bool" where
  "links_to recover links d m \<longleftrightarrow>
    (\<exists>s\<in>set links. \<exists>c. link_signed recover s c \<and> dl_device c = d \<and> dl_member c = m)"

lemma links_to_iff: "links_to recover links d m \<longleftrightarrow> (\<exists>c\<in>set (links_for recover links d). dl_member c = m)"
  by (auto simp: links_to_def set_links_for)

lemma resolved_links_for_member:
  "map_option dl_member (resolved revoked (links_for recover links d)) = Some m \<longleftrightarrow>
    links_to recover links d m \<and> (\<forall>m'. links_to recover links d m' \<longrightarrow> m' = m) \<and> (m, d) |\<notin>| revoked"
    (is "?l \<longleftrightarrow> ?r")
proof
  let ?ls = "links_for recover links d"
  assume ?l
  then obtain l where l: "resolved revoked ?ls = Some l" "dl_member l = m" by auto
  then have "l \<in> set ?ls" by (auto simp: resolved_Some_iff newest_link_in)
  moreover from this have "dl_device l = d" by (simp add: set_links_for)
  ultimately show ?r using l by (auto simp: resolved_Some_iff links_to_iff)
next
  let ?ls = "links_for recover links d"
  assume r: ?r
  then have ne: "?ls \<noteq> []" by (auto simp: links_to_iff)
  then have n: "newest_link ?ls \<in> set ?ls" by (rule newest_link_in)
  then have "dl_device (newest_link ?ls) = d" by (simp add: set_links_for)
  moreover have "\<forall>l\<in>set ?ls. dl_member l = m" using r by (auto simp: links_to_iff)
  ultimately show ?l using r n ne by (auto simp: resolved_Some_iff intro!: exI [of _ "newest_link ?ls"])
qed

lemma registry_update_member:
  assumes "update_fits links revocations"
  shows "map_option dl_member (fmlookup (reg_links (snd (registry_update recover links revocations reg))) d) = Some m
    \<longleftrightarrow> Collect (links_to recover links d) = {m}
      \<and> (m, d) |\<notin>| reg_revoked (snd (registry_update recover links revocations reg))"
  unfolding registry_update_unfold [OF assms] resolved_links_for_member by auto

lemma registry_update_link:
  assumes "fmlookup (reg_links (snd (registry_update recover links revocations reg))) d = Some l"
    and "update_fits links revocations"
  shows "dl_device l = d"
    and "\<exists>s\<in>set links. link_signed recover s l"
    and "(dl_member l, d) |\<notin>| reg_revoked (snd (registry_update recover links revocations reg))"
    and "\<forall>s\<in>set links. \<forall>c. link_signed recover s c \<and> dl_device c = d \<longrightarrow>
      (dl_issued_at c, dl_label c) \<le> (dl_issued_at l, dl_label l)"
proof -
  let ?ls = "links_for recover links d"
  from assms have res: "?ls \<noteq> []" "l = newest_link ?ls"
      "(dl_member l, dl_device l) |\<notin>| reg_revoked (snd (registry_update recover links revocations reg))"
    by (auto simp: registry_update_unfold resolved_Some_iff)
  then have "l \<in> set ?ls" by (simp add: newest_link_in)
  then show d: "dl_device l = d" and "\<exists>s\<in>set links. link_signed recover s l"
    by (auto simp: set_links_for)
  from d res(3) show "(dl_member l, d) |\<notin>| reg_revoked (snd (registry_update recover links revocations reg))"
    by simp
  show "\<forall>s\<in>set links. \<forall>c. link_signed recover s c \<and> dl_device c = d \<longrightarrow>
      (dl_issued_at c, dl_label c) \<le> (dl_issued_at l, dl_label l)"
  proof (intro ballI allI impI)
    fix s c assume "s \<in> set links" and "link_signed recover s c \<and> dl_device c = d"
    then have "c \<in> set ?ls" by (auto simp: set_links_for)
    then show "(dl_issued_at c, dl_label c) \<le> (dl_issued_at l, dl_label l)"
      unfolding res(2) by (rule newest_link_greatest)
  qed
qed

subsection \<open>What does not depend on the order\<close>

text \<open>What the order among the links of a device looks at, with the two ends of the link.\<close>

definition link_key :: "device_link \<Rightarrow> rstr \<times> rstr \<times> 64 word \<times> rstr" where
  "link_key l = (dl_member l, dl_device l, dl_issued_at l, dl_label l)"

definition tied :: "link_verifier \<Rightarrow> signed_device_link list \<Rightarrow> rstr \<Rightarrow> rstr \<times> rstr \<times> 64 word \<times> rstr \<Rightarrow> bool" where
  "tied recover links d k \<longleftrightarrow>
    (\<exists>c\<in>set (links_for recover links d). \<exists>c'\<in>set (links_for recover links d).
       c \<noteq> c' \<and> link_key c = k \<and> link_key c' = k)"

lemma fcard_members_cong: "set ls = set ls' \<Longrightarrow>
    fcard (fset_of_list (map dl_member ls)) = fcard (fset_of_list (map dl_member ls'))"
  by (metis fset_of_list.abs_eq list.set_map)

lemma set_Nil_cong: "set ls = set ls' \<Longrightarrow> ls = [] \<longleftrightarrow> ls' = []"
  by auto

lemma newest_link_cong:
  assumes "set ls = set ls'" and "ls \<noteq> []" and "\<not> 1 < fcard (fset_of_list (map dl_member ls))"
    and "\<forall>l\<in>set ls. dl_device l = d"
  shows "link_key (newest_link ls) = link_key (newest_link ls')"
proof -
  let ?n = "newest_link ls" and ?n' = "newest_link ls'"
  have n: "?n \<in> set ls" "?n' \<in> set ls" using assms(1,2) newest_link_in [of ls] newest_link_in [of ls'] set_Nil_cong [OF assms(1)] by auto
  have "(dl_issued_at ?n, dl_label ?n) = (dl_issued_at ?n', dl_label ?n')"
    using newest_link_greatest [of ?n' ls] newest_link_greatest [of ?n ls'] n assms(1) by (metis antisym)
  moreover have "dl_member ?n = dl_member ?n'"
  proof -
    have m: "dl_member ?n \<in> set (map dl_member ls)" "dl_member ?n' \<in> set (map dl_member ls)" using n by simp_all
    with fcard_le_1_iff [OF m(1)] assms(3) show ?thesis by metis
  qed
  ultimately show ?thesis using n assms(4) by (simp add: link_key_def)
qed

lemma links_for_device: "l \<in> set (links_for recover links d) \<Longrightarrow> dl_device l = d"
  by (simp add: set_links_for)

lemma resolved_order:
  assumes "set (links_for recover links d) = set (links_for recover links' d)"
  shows "map_option link_key (resolved revoked (links_for recover links d)) =
      map_option link_key (resolved revoked (links_for recover links' d))"
    and "resolved revoked (links_for recover links d) = resolved revoked (links_for recover links' d)
      \<or> (\<exists>l. resolved revoked (links_for recover links d) = Some l \<and> tied recover links d (link_key l))"
proof -
  let ?ls = "links_for recover links d" and ?ls' = "links_for recover links' d"
  show key: "map_option link_key (resolved revoked ?ls) = map_option link_key (resolved revoked ?ls')"
  proof (cases "?ls = [] \<or> 1 < fcard (fset_of_list (map dl_member ?ls))")
    case True
    then show ?thesis
      using set_Nil_cong [OF assms] fcard_members_cong [OF assms] by (auto simp: resolved_def)
  next
    case False
    then have "link_key (newest_link ?ls) = link_key (newest_link ?ls')"
      using newest_link_cong [OF assms] links_for_device by blast
    with False show ?thesis
      using set_Nil_cong [OF assms] fcard_members_cong [OF assms] by (simp add: resolved_def link_key_def)
  qed
  show "resolved revoked ?ls = resolved revoked ?ls'
      \<or> (\<exists>l. resolved revoked ?ls = Some l \<and> tied recover links d (link_key l))"
  proof (cases "resolved revoked ?ls")
    case None
    with key show ?thesis by simp
  next
    case (Some l)
    with key obtain l' where l': "resolved revoked ?ls' = Some l'" "link_key l = link_key l'"
      by (cases "resolved revoked ?ls'") auto
    have in_links: "k \<in> set ls" if "resolved revoked ls = Some k" for k ls
      using that newest_link_in [of ls] by (simp add: resolved_Some_iff)
    from in_links [OF Some] in_links [OF l'(1)] have "l \<in> set ?ls" "l' \<in> set ?ls" unfolding assms .
    with Some l' show ?thesis by (auto simp: tied_def)
  qed
qed

text \<open>What is rejected, phase by phase.\<close>

definition bad_revocation :: "link_verifier \<Rightarrow> signed_revocation \<Rightarrow> link_rejection set" where
  "bad_revocation recover r = set (fst (apply_revocation recover r ([], {||})))"

definition bad_link :: "link_verifier \<Rightarrow> signed_device_link \<Rightarrow> link_rejection set" where
  "bad_link recover s = set (fst (collect_link recover s ([], fmempty)))"

definition unresolved :: "(rstr \<times> rstr) fset \<Rightarrow> rstr \<Rightarrow> device_link list \<Rightarrow> link_rejection set" where
  "unresolved revoked d ls = set (fst (resolve_device revoked (d, ls) ([], fmempty)))"

lemma fold_apply_revocation_rejections:
  "set (fst (fold (apply_revocation recover) rs acc)) = set (fst acc) \<union> (\<Union>r\<in>set rs. bad_revocation recover r)"
proof (induction rs arbitrary: acc)
  case (Cons r rs)
  have "set (fst (apply_revocation recover r acc)) = set (fst acc) \<union> bad_revocation recover r"
    by (auto simp: apply_revocation_def bad_revocation_def split: prod.splits option.splits)
  with Cons.IH show ?case by auto
qed simp

lemma fold_collect_link_rejections:
  "set (fst (fold (collect_link recover) links acc)) = set (fst acc) \<union> (\<Union>s\<in>set links. bad_link recover s)"
proof (induction links arbitrary: acc)
  case (Cons s links)
  have "set (fst (collect_link recover s acc)) = set (fst acc) \<union> bad_link recover s"
    by (auto simp: collect_link_def bad_link_def split: prod.splits option.splits sum.splits)
  with Cons.IH show ?case by auto
qed simp

lemma fold_resolve_device_rejections:
  "set (fst (fold (resolve_device revoked) es acc)) = set (fst acc) \<union> (\<Union>(d, ls)\<in>set es. unresolved revoked d ls)"
proof (induction es arbitrary: acc)
  case (Cons e es)
  have "set (fst (resolve_device revoked e acc)) = set (fst acc) \<union> unresolved revoked (fst e) (snd e)"
    by (auto simp: resolve_device_def unresolved_def Let_def split: prod.splits)
  with Cons.IH show ?case by (auto simp: case_prod_unfold)
qed simp

lemma registry_rejections:
  assumes "update_fits links revocations"
  shows "set (fst (registry_update recover links revocations reg)) =
    (\<Union>r\<in>set revocations. bad_revocation recover r) \<union> (\<Union>s\<in>set links. bad_link recover s)
    \<union> (\<Union>d. unresolved (reg_revoked (snd (registry_update recover links revocations reg))) d (links_for recover links d))"
proof -
  obtain rej1 revoked where f1: "fold (apply_revocation recover) revocations ([], reg_revoked reg) = (rej1, revoked)"
    by fastforce
  obtain rej2 verified where f2: "fold (collect_link recover) links (rej1, fmempty) = (rej2, verified)"
    by fastforce
  obtain rej3 candidates where
    f3: "fold (resolve_device revoked) (sorted_list_of_fmap verified) (rej2, fmempty) = (rej3, candidates)"
    by fastforce
  have reg': "registry_update recover links revocations reg = (rej3, \<lparr>reg_links = candidates, reg_revoked = revoked\<rparr>)"
    using assms by (simp add: registry_update_def update_fits_def f1 f2 f3)
  have v: "fmlookup verified d = (if links_for recover links d = [] then None else Some (links_for recover links d))" for d
    using fold_collect_link [of recover links rej1 d] by (simp add: f2)
  have "unresolved revoked d [] = {}" for d by (simp add: unresolved_def resolve_device_def)
  then have "(\<Union>(d, ls)\<in>set (sorted_list_of_fmap verified). unresolved revoked d ls) =
      (\<Union>d. unresolved revoked d (links_for recover links d))"
    by (force simp: set_sorted_list_of_fmap v split: if_splits)
  then show ?thesis
    using fold_apply_revocation_rejections [of recover revocations "([], reg_revoked reg)"]
      fold_collect_link_rejections [of recover links "(rej1, fmempty)"]
      fold_resolve_device_rejections [of revoked "sorted_list_of_fmap verified" "(rej2, fmempty)"]
    by (simp add: reg' f1 f2 f3)
qed

lemma resolve_rejections_cong:
  assumes "\<And>d. set (links_for recover links d) = set (links_for recover links' d)"
  shows "unresolved revoked d (links_for recover links d) = unresolved revoked d (links_for recover links' d)"
proof -
  let ?ls = "links_for recover links d" and ?ls' = "links_for recover links' d"
  note c = set_Nil_cong [OF assms [of d]] fcard_members_cong [OF assms [of d]]
  have "link_key (newest_link ?ls) = link_key (newest_link ?ls')"
    if "?ls \<noteq> []" "\<not> 1 < fcard (fset_of_list (map dl_member ?ls))"
    using newest_link_cong [OF assms that] links_for_device by blast
  then show ?thesis using c
    by (auto simp: unresolved_def resolve_device_def Let_def sort_key_Nil_iff newest_link_def [symmetric] link_key_def)
qed

subsection \<open>The invariant of the registry\<close>

definition registry_ok :: "device_registry \<Rightarrow> bool" where
  "registry_ok reg \<longleftrightarrow>
    (\<forall>d l. fmlookup (reg_links reg) d = Some l \<longrightarrow>
       link_ok l \<and> dl_device l = d \<and> (dl_member l, d) |\<notin>| reg_revoked reg)
    \<and> (\<forall>m d. (m, d) |\<in>| reg_revoked reg \<longrightarrow> is_canonical m \<and> is_canonical d)"

lemma registry_ok_new: "registry_ok registry_new"
  by (simp add: registry_ok_def registry_new_def)

lemma registry_ok_update:
  assumes "registry_ok reg"
  shows "registry_ok (snd (registry_update recover links revocations reg))"
proof (cases "update_fits links revocations")
  case True
  let ?reg = "snd (registry_update recover links revocations reg)"
  show ?thesis unfolding registry_ok_def
  proof (intro conjI allI impI)
    fix d l assume "fmlookup (reg_links ?reg) d = Some l"
    note u = registry_update_link [OF this True]
    from u(2) show "link_ok l" by (auto dest: link_signed_ok)
    from u(1,3) show "dl_device l = d" "(dl_member l, d) |\<notin>| reg_revoked ?reg" by auto
  next
    fix m d assume "(m, d) |\<in>| reg_revoked ?reg"
    then show "is_canonical m" "is_canonical d"
      using assms revocation_signed_canonical
      by (fastforce simp: registry_update_revoked_member registry_ok_def)+
  qed
qed (simp add: registry_update_too_many assms)

lemma registry_ok_link:
  "registry_ok reg \<Longrightarrow> fmlookup (reg_links reg) d = Some l \<Longrightarrow>
    link_ok l \<and> dl_device l = d \<and> (dl_member l, d) |\<notin>| reg_revoked reg"
  by (simp add: registry_ok_def)

lemma registry_member_of_canonical:
  "is_canonical d \<Longrightarrow> registry_member_of d reg = map_option dl_member (fmlookup (reg_links reg) d)"
  by (simp add: registry_member_of_def canonical_address_fixed)

lemma registry_is_revoked_canonical:
  "is_canonical m \<Longrightarrow> is_canonical d \<Longrightarrow> registry_is_revoked m d reg \<longleftrightarrow> (m, d) |\<in>| reg_revoked reg"
  by (simp add: registry_is_revoked_def canonical_address_fixed)

subsection \<open>The contract the admission gate relies on\<close>

text \<open>
  What a client of a registry of revocable devices may rely on: an update never forgets a
  revocation, and a revoked pair is never active. \<open>member_of\<close> and \<open>revoked\<close> are the queries.
\<close>

locale revocable_registry =
  fixes upd :: "'u \<Rightarrow> 'r \<Rightarrow> 'r"
    and member_of :: "rstr \<Rightarrow> 'r \<Rightarrow> rstr option"
    and revoked :: "rstr \<Rightarrow> rstr \<Rightarrow> 'r \<Rightarrow> bool"
    and rinv :: "'r \<Rightarrow> bool"
  assumes upd_rinv: "rinv r \<Longrightarrow> rinv (upd u r)"
    and upd_sticky: "rinv r \<Longrightarrow> revoked m d r \<Longrightarrow> revoked m d (upd u r)"
    and revoked_inactive: "rinv r \<Longrightarrow> revoked m d r \<Longrightarrow> member_of d r \<noteq> canonical_address m"
begin

lemma run_rinv: "rinv r \<Longrightarrow> rinv (fold upd us r)"
  by (induction us arbitrary: r) (simp_all add: upd_rinv)

lemma run_sticky: "rinv r \<Longrightarrow> revoked m d r \<Longrightarrow> revoked m d (fold upd us r)"
  by (induction us arbitrary: r) (simp_all add: upd_rinv upd_sticky)

lemma run_never_readmitted:
  "rinv r \<Longrightarrow> revoked m d r \<Longrightarrow> member_of d (fold upd us r) \<noteq> canonical_address m"
  using run_rinv run_sticky by (rule revoked_inactive)

end

type_synonym registry_msg = "signed_device_link list \<times> signed_revocation list"

definition registry_step :: "link_verifier \<Rightarrow> registry_msg \<Rightarrow> device_registry \<Rightarrow> device_registry" where
  "registry_step recover u reg = snd (registry_update recover (fst u) (snd u) reg)"

definition registry_run :: "link_verifier \<Rightarrow> registry_msg list \<Rightarrow> device_registry" where
  "registry_run recover us = fold (registry_step recover) us registry_new"

lemma registry_revoked_inactive:
  assumes "registry_ok reg" and "registry_is_revoked m d reg"
  shows "registry_member_of d reg \<noteq> canonical_address m"
proof -
  from assms(2) obtain m' d' where c: "canonical_address m = Some m'" "canonical_address d = Some d'"
    and r: "(m', d') |\<in>| reg_revoked reg"
    by (auto simp: registry_is_revoked_def split: option.splits)
  show ?thesis
  proof
    assume "registry_member_of d reg = canonical_address m"
    with c obtain l where "fmlookup (reg_links reg) d' = Some l" "dl_member l = m'"
      by (auto simp: registry_member_of_def)
    with assms(1) r show False by (auto dest: registry_ok_link)
  qed
qed

interpretation dr: revocable_registry "registry_step recover" registry_member_of registry_is_revoked registry_ok
  for recover
proof
  fix r u m d
  assume "registry_ok r"
  then show "registry_ok (registry_step recover u r)" by (simp add: registry_step_def registry_ok_update)
  show "registry_is_revoked m d (registry_step recover u r)" if "registry_is_revoked m d r"
    using that by (auto simp: registry_is_revoked_def registry_step_def registry_update_revoked_member
        split: option.splits)
  show "registry_member_of d r \<noteq> canonical_address m" if "registry_is_revoked m d r"
    using \<open>registry_ok r\<close> that by (rule registry_revoked_inactive)
qed

lemma registry_run_ok: "registry_ok (registry_run recover us)"
  unfolding registry_run_def by (rule dr.run_rinv) (rule registry_ok_new)

lemma registry_run_append:
  "registry_run recover (us @ vs) = fold (registry_step recover) vs (registry_run recover us)"
  by (simp add: registry_run_def)

subsection \<open>Sample links\<close>

text \<open>
  The verifier of the examples takes a signature to be the signer's address followed by the signed
  text, so that a key can be checked to have signed one text and no other.
\<close>

definition stub_verifier :: link_verifier where
  "stub_verifier msg sig = (if drop 40 sig = msg then Some (take 40 sig) else None)"

definition stub_link :: "rstr \<Rightarrow> rstr \<Rightarrow> rstr \<Rightarrow> 32 word \<Rightarrow> device_link" where
  "stub_link m d w i =
    \<lparr>dl_member = m, dl_device = d, dl_wallet = w, dl_index = i, dl_label = ''Studio Mac'', dl_issued_at = 1\<rparr>"

definition stub_signed :: "device_link \<Rightarrow> signed_device_link" where
  "stub_signed l =
    \<lparr>sl_link = l, sl_member_sig = dl_member l @ link_signing_message l,
     sl_device_sig = dl_device l @ link_signing_message l,
     sl_wallet_sig = dl_wallet l @ link_signing_message l\<rparr>"

definition stub_revoked :: "rstr \<Rightarrow> rstr \<Rightarrow> signed_revocation" where
  "stub_revoked m d =
    (let r = \<lparr>dr_member = m, dr_device = d, dr_revoked_at = 2\<rparr>
     in \<lparr>sr_revocation = r, sr_member_sig = m @ revocation_signing_message r\<rparr>)"

lemma stub_signed_iff: "link_ok l \<Longrightarrow> link_signed stub_verifier (stub_signed l) c \<longleftrightarrow> c = l"
proof -
  assume l: "link_ok l"
  then have "length (dl_member l) = 40" "length (dl_device l) = 40" "length (dl_wallet l) = 40"
    by (simp_all add: link_ok_def is_canonical_def)
  with link_renew_fixed [OF l] show ?thesis
    by (auto simp: link_signed_def stub_signed_def stub_verifier_def)
qed

lemma stub_revoked_iff:
  "is_canonical m \<Longrightarrow> is_canonical d \<Longrightarrow>
    revocation_signed stub_verifier (stub_revoked m d) c \<longleftrightarrow>
    c = \<lparr>dr_member = m, dr_device = d, dr_revoked_at = 2\<rparr>"
  by (cases c) (auto simp: revocation_signed_def stub_revoked_def stub_verifier_def Let_def
      device_revocation_new_Some_iff canonical_address_fixed is_canonical_def [of m])

lemma stub_signed_link [simp]: "link_ok l \<Longrightarrow> signed_link stub_verifier (stub_signed l) = Some l"
  by (simp add: signed_link_Some_iff stub_signed_iff)

lemma update_fits_short [simp]:
  "length links \<le> 2 \<Longrightarrow> length revocations \<le> 2 \<Longrightarrow> update_fits links revocations"
  by (simp add: update_fits_def MAX_LINKS_PER_UPDATE_def)

lemma stub_link_fields [simp]:
  "dl_member (stub_link m d w i) = m" "dl_device (stub_link m d w i) = d" "dl_index (stub_link m d w i) = i"
  "dl_issued_at (stub_link m d w i) = 1" "dl_label (stub_link m d w i) = ''Studio Mac''"
  by (simp_all add: stub_link_def)

lemma test_addrs_canonical [simp]:
  "is_canonical (addr_of ''a1'')" "is_canonical (addr_of ''a2'')" "is_canonical (addr_of ''d1'')"
  "is_canonical (addr_of ''b1'')" "is_canonical (addr_of ''b2'')"
  by (simp_all add: is_canonical_iff)

lemma stub_link_ok [simp]:
  "link_ok (stub_link (addr_of ''a1'') (addr_of ''d1'') (addr_of ''b1'') 0)"
  "link_ok (stub_link (addr_of ''a1'') (addr_of ''d1'') (addr_of ''b1'') 1)"
  "link_ok (stub_link (addr_of ''a2'') (addr_of ''d1'') (addr_of ''b2'') 0)"
  by (simp_all add: link_ok_def stub_link_def MAX_DEVICE_INDEX_def)

abbreviation "link_a1 \<equiv> stub_link (addr_of ''a1'') (addr_of ''d1'') (addr_of ''b1'') 0"
abbreviation "link_a1' \<equiv> stub_link (addr_of ''a1'') (addr_of ''d1'') (addr_of ''b1'') 1"
abbreviation "link_a2 \<equiv> stub_link (addr_of ''a2'') (addr_of ''d1'') (addr_of ''b2'') 0"

lemma links_for_stub:
  "list_all link_ok ls \<Longrightarrow>
    links_for stub_verifier (map stub_signed ls) d = filter (\<lambda>c. dl_device c = d) ls"
  by (induction ls) (simp_all add: links_for_def List.map_filter_def)

lemma signed_pair_stub:
  "is_canonical m \<Longrightarrow> is_canonical d \<Longrightarrow> signed_pair stub_verifier (stub_revoked m d) = Some (m, d)"
  by (simp add: signed_pair_Some_iff stub_revoked_iff)

lemma registry_run_Cons_unfold:
  "registry_run recover [u1, u2] =
    snd (registry_update recover (fst u2) (snd u2) (registry_run recover [u1]))"
  "registry_run recover [u] = snd (registry_update recover (fst u) (snd u) registry_new)"
  by (simp_all add: registry_run_def registry_step_def)

lemma newest_link_tie:
  "dl_issued_at l = dl_issued_at l' \<Longrightarrow> dl_label l = dl_label l' \<Longrightarrow> newest_link [l', l] = l"
  "newest_link [l] = l"
  by (simp_all add: newest_link_def)

text \<open>The registry after \<open>a1\<close> linked \<open>d1\<close>, and after \<open>a1\<close> revoked it.\<close>

lemma sample_linked:
  "fmlookup (reg_links (registry_run stub_verifier [([stub_signed link_a1], [])])) (addr_of ''d1'') = Some link_a1"
  using links_for_stub [of "[link_a1]" "addr_of ''d1''"]
  by (simp add: registry_run_Cons_unfold registry_update_unfold resolved_def newest_link_tie registry_new_def)

lemma sample_revoked:
  "reg_revoked (registry_run stub_verifier [([], [stub_revoked (addr_of ''a1'') (addr_of ''d1'')])])
    = {|(addr_of ''a1'', addr_of ''d1'')|}"
  by (simp add: registry_run_Cons_unfold registry_update_unfold registry_new_def insert_some_def signed_pair_stub)

lemma sample_readmitted:
  "reg_revoked (registry_run stub_verifier
     [([], [stub_revoked (addr_of ''a1'') (addr_of ''d1'')]), ([stub_signed link_a2], [])])
    = {|(addr_of ''a1'', addr_of ''d1'')|}"
  "fmlookup (reg_links (registry_run stub_verifier
     [([], [stub_revoked (addr_of ''a1'') (addr_of ''d1'')]), ([stub_signed link_a2], [])])) (addr_of ''d1'') = Some link_a2"
  using links_for_stub [of "[link_a2]" "addr_of ''d1''"]
  by (simp_all add: registry_run_Cons_unfold(1) registry_update_unfold sample_revoked resolved_def newest_link_tie)

subsection \<open>Properties of the registry\<close>

text \<open>C10. After an update within the size limit, a device is active for a member exactly when some
  verified link of the update says so, no verified link of the update claims the device for another
  member, and the member has not revoked it, now or before; the revoked pairs are the old ones and
  the ones whose revocation in the update its member signed. An update beyond the limit changes
  nothing.\<close>

theorem registry_update_admission:
  "let reg' = snd (registry_update recover links revocations reg)
   in if update_fits links revocations
      then (map_option dl_member (fmlookup (reg_links reg') d) = Some m \<longleftrightarrow>
             {m'. links_to recover links d m'} = {m} \<and> (m, d) |\<notin>| reg_revoked reg')
         \<and> ((m, d) |\<in>| reg_revoked reg' \<longleftrightarrow> (m, d) |\<in>| reg_revoked reg \<or>
             (\<exists>r\<in>set revocations. \<exists>c. revocation_signed recover r c \<and> dr_member c = m \<and> dr_device c = d))
      else registry_update recover links revocations reg = ([TooMany], reg)"
proof (cases "update_fits links revocations")
  case True
  note registry_update_member [OF True, of recover reg d m]
    registry_update_revoked_member [of m d recover links revocations reg]
  with True show ?thesis unfolding Let_def by (simp only: if_True simp_thms)
qed (simp add: registry_update_too_many)

text \<open>C35. What an update decides does not depend on the order (or on repetitions) of its links and
  revocations: the same pairs are revoked, the same things are rejected for the same reasons, and the
  same devices are active, each for the same member and by a link of the same time and label. The link
  itself is the same too, unless two verified links of the device have the same time and label: then,
  and only then, its index and wallet may be those of either.\<close>

theorem registry_update_order:
  assumes "update_fits links revocations" and "update_fits links' revocations'"
    and "set links = set links'" and "set revocations = set revocations'"
  shows "let (rej, reg1) = registry_update recover links revocations reg;
      (rej', reg2) = registry_update recover links' revocations' reg
    in set rej = set rej' \<and> reg_revoked reg1 = reg_revoked reg2
      \<and> map_option link_key (fmlookup (reg_links reg1) d) = map_option link_key (fmlookup (reg_links reg2) d)
      \<and> (fmlookup (reg_links reg1) d = fmlookup (reg_links reg2) d
         \<or> (\<exists>l. fmlookup (reg_links reg1) d = Some l \<and> tied recover links d (link_key l)))"
proof -
  obtain rej1 reg1 rej2 reg2 where r: "registry_update recover links revocations reg = (rej1, reg1)"
      "registry_update recover links' revocations' reg = (rej2, reg2)" by fastforce
  have reg: "reg1 = snd (registry_update recover links revocations reg)"
      "reg2 = snd (registry_update recover links' revocations' reg)" by (simp_all add: r)
  have ls: "set (links_for recover links e) = set (links_for recover links' e)" for e
    by (simp add: set_links_for assms(3))
  have rev: "reg_revoked reg1 = reg_revoked reg2"
    unfolding reg using assms fold_insert_some_cong [OF assms(4)] by (simp add: registry_update_unfold)
  have look: "fmlookup (reg_links reg1) d = resolved (reg_revoked reg1) (links_for recover links d)"
      "fmlookup (reg_links reg2) d = resolved (reg_revoked reg1) (links_for recover links' d)"
    using registry_update_unfold [OF assms(1), of recover reg] registry_update_unfold [OF assms(2), of recover reg] rev
    by (simp_all add: reg)
  have "set rej1 = set rej2"
    using registry_rejections [OF assms(1), of recover reg] registry_rejections [OF assms(2), of recover reg]
      resolve_rejections_cong [OF ls] rev assms(3,4) by (simp add: r)
  moreover note resolved_order [OF ls [of d], of "reg_revoked reg1"]
  ultimately show ?thesis using rev look by (simp add: r)
qed

theorem registry_update_order_witness:
  "map_option link_key (fmlookup (reg_links
     (snd (registry_update stub_verifier [stub_signed link_a1, stub_signed link_a1'] [] registry_new))) (addr_of ''d1'')) =
   map_option link_key (fmlookup (reg_links
     (snd (registry_update stub_verifier [stub_signed link_a1', stub_signed link_a1] [] registry_new))) (addr_of ''d1''))"
  using registry_update_order [of "[stub_signed link_a1, stub_signed link_a1']" "[]"
      "[stub_signed link_a1', stub_signed link_a1]" "[]" stub_verifier registry_new "addr_of ''d1''"]
  by (simp add: insert_commute Let_def case_prod_unfold)

text \<open>Revocation is permanent for the pair it names: once the registry has recorded that a member
  revoked a device, no later sequence of updates makes that device active for that member again.\<close>

theorem registry_revocation_sticky:
  assumes "registry_is_revoked m d (registry_run recover us)"
  shows "registry_is_revoked m d (registry_run recover (us @ vs))
    \<and> registry_member_of d (registry_run recover (us @ vs)) \<noteq> canonical_address m"
  using dr.run_sticky [OF registry_run_ok assms, of recover vs]
    dr.run_never_readmitted [OF registry_run_ok assms, of recover vs]
  by (simp add: registry_run_append)

theorem registry_revocation_sticky_witness:
  "registry_member_of (addr_of ''d1'') (registry_run stub_verifier
     ([([], [stub_revoked (addr_of ''a1'') (addr_of ''d1'')])] @ [([stub_signed link_a1], [])]))
   \<noteq> Some (addr_of ''a1'')"
proof -
  have "registry_is_revoked (addr_of ''a1'') (addr_of ''d1'')
      (registry_run stub_verifier [([], [stub_revoked (addr_of ''a1'') (addr_of ''d1'')])])"
    by (simp add: registry_is_revoked_canonical sample_revoked)
  from registry_revocation_sticky [OF this, of "[([stub_signed link_a1], [])]"] show ?thesis by simp
qed

text \<open>C24. Nobody is linked without consent: every active link of a registry was carried by an update
  in which the member key, the device key and the wallet key each signed the text of that very link,
  and its fields are the ones the constructor accepts.\<close>

theorem registry_active_signed:
  assumes "fmlookup (reg_links (registry_run recover us)) d = Some l"
  shows "dl_device l = d \<and> link_ok l
    \<and> (\<exists>u\<in>set us. \<exists>s\<in>set (fst u).
         recover (link_signing_message l) (sl_member_sig s) = Some (dl_member l)
         \<and> recover (link_signing_message l) (sl_device_sig s) = Some d
         \<and> recover (link_signing_message l) (sl_wallet_sig s) = Some (dl_wallet l))"
  using assms
proof (induction us rule: rev_induct)
  case Nil
  then show ?case by (simp add: registry_run_def registry_new_def)
next
  case (snoc u us)
  let ?reg = "registry_run recover us"
  have step: "registry_run recover (us @ [u]) = snd (registry_update recover (fst u) (snd u) ?reg)"
    by (simp add: registry_run_append registry_step_def)
  show ?case
  proof (cases "update_fits (fst u) (snd u)")
    case True
    from registry_update_link [OF snoc.prems [unfolded step] True]
    obtain s where s: "s \<in> set (fst u)" "link_signed recover s l" and d: "dl_device l = d" by blast
    then have "link_ok l" by (blast dest: link_signed_ok)
    with s d show ?thesis by (fastforce simp: link_signed_def)
  next
    case False
    with snoc.prems step have "fmlookup (reg_links ?reg) d = Some l" by (simp add: registry_update_too_many)
    with snoc.IH show ?thesis by (metis in_set_conv_decomp list.set_intros(1) UnCI set_append)
  qed
qed

theorem registry_active_signed_witness:
  "\<exists>u\<in>set [([stub_signed link_a1], [] :: signed_revocation list)]. \<exists>s\<in>set (fst u).
     stub_verifier (link_signing_message link_a1) (sl_device_sig s) = Some (addr_of ''d1'')"
  using registry_active_signed [OF sample_linked] by blast

text \<open>Revocation is per pair and not per key: a device key that its member has revoked is active
  again as soon as another member's verified link names it.\<close>

theorem revoked_key_readmitted:
  "let reg = registry_run stub_verifier
     [([], [stub_revoked (addr_of ''a1'') (addr_of ''d1'')]), ([stub_signed link_a2], [])]
   in registry_is_revoked (addr_of ''a1'') (addr_of ''d1'') reg
      \<and> registry_member_of (addr_of ''d1'') reg = Some (addr_of ''a2'')"
  using sample_readmitted
  by (simp add: Let_def registry_is_revoked_canonical registry_member_of_canonical)

text \<open>Two links of one member for one device with the same time and label are not ordered: the
  one that comes last in the update is kept, so the kept index depends on the order of the list.\<close>

theorem link_tie_resolved_by_order:
  "map_option dl_index (fmlookup (reg_links (snd (registry_update stub_verifier
     [stub_signed link_a1, stub_signed link_a1'] [] registry_new))) (addr_of ''d1'')) = Some 1
   \<and> map_option dl_index (fmlookup (reg_links (snd (registry_update stub_verifier
     [stub_signed link_a1', stub_signed link_a1] [] registry_new))) (addr_of ''d1'')) = Some 0"
  using links_for_stub [of "[link_a1, link_a1']" "addr_of ''d1''"]
    links_for_stub [of "[link_a1', link_a1]" "addr_of ''d1''"]
  by (simp add: registry_update_unfold resolved_def newest_link_tie registry_new_def)

end
