(* ===== verification/Effective_Roster.thy ===== *)
theory Effective_Roster
  imports Registry Membership
begin

section \<open>The roster the gate runs on\<close>

text \<open>
  \<open>effective_roster\<close> and \<open>device_roster\<close> of \<open>crates/cluster-core/src/device.rs\<close>. The first turns the
  member roster and the device registry into the roster that \<open>ClusterMembership\<close> admits from: an
  actively linked device carries its member's role, and a member on device keys loses its own entry.
  The lemmas give the allowed set of the result in terms of the two inputs. The second lists the
  active devices under each allowed member.
\<close>

subsection \<open>The best role of an address\<close>

definition role_entry :: "rstr \<times> rstr \<Rightarrow> (rstr, rstr) fmap \<Rightarrow> (rstr, rstr) fmap" where
  "role_entry e role_of =
    (case e of (addr, role) \<Rightarrow>
      (case canonical_address addr of
         None \<Rightarrow> role_of
       | Some a \<Rightarrow>
           let better = (case fmlookup role_of a of None \<Rightarrow> True | Some r \<Rightarrow> role_rank r < role_rank role)
           in if better then fmupd a role role_of else role_of))"

definition best_roles :: "roster \<Rightarrow> (rstr, rstr) fmap" where
  "best_roles roster = fold role_entry roster fmempty"

text \<open>The state of the loop over the links: the device entries, and the members on device keys.\<close>

definition device_entry ::
  "(rstr, rstr) fmap \<Rightarrow> device_link \<Rightarrow> (rstr \<times> rstr) list \<times> rstr fset \<Rightarrow> (rstr \<times> rstr) list \<times> rstr fset" where
  "device_entry role_of l acc =
    (case acc of (devices, on_device_keys) \<Rightarrow>
      if dl_device l |\<in>| fmdom role_of then (devices, on_device_keys)
      else (case fmlookup role_of (dl_member l) of
              None \<Rightarrow> (devices, on_device_keys)
            | Some role \<Rightarrow>
                if MIN_CLUSTER_RANK \<le> role_rank role
                then (devices @ [(dl_device l, role)], finsert (dl_member l) on_device_keys)
                else (devices, on_device_keys)))"

definition effective_roster :: "roster \<Rightarrow> device_registry \<Rightarrow> roster" where
  "effective_roster roster reg =
    (let role_of = best_roles roster
     in case fold (device_entry role_of) (fm_values (reg_links reg)) ([], fst |`| reg_revoked reg) of
          (devices, on_device_keys) \<Rightarrow>
            sort (filter (\<lambda>(a, r). a |\<notin>| on_device_keys) (sorted_list_of_fmap role_of) @ devices))"

record device_view =
  dv_device :: rstr
  dv_index :: "32 word"
  dv_label :: rstr
  dv_issued_at :: "64 word"

record member_devices =
  md_member :: rstr
  md_role :: rstr
  md_devices :: "device_view list"

definition member_entry :: "rstr \<times> rstr \<Rightarrow> (rstr, member_devices) fmap \<Rightarrow> (rstr, member_devices) fmap" where
  "member_entry e out =
    (case e of (addr, role) \<Rightarrow>
      (case canonical_address addr of
         None \<Rightarrow> out
       | Some a \<Rightarrow>
           if role_rank role < MIN_CLUSTER_RANK then out
           else let entry = (case fmlookup out a of
                     None \<Rightarrow> \<lparr>md_member = a, md_role = role, md_devices = []\<rparr>
                   | Some entry \<Rightarrow> entry)
             in fmupd a (if role_rank (md_role entry) < role_rank role then entry\<lparr>md_role := role\<rparr> else entry) out))"

definition device_view_of :: "device_link \<Rightarrow> device_view" where
  "device_view_of l =
    \<lparr>dv_device = dl_device l, dv_index = dl_index l, dv_label = dl_label l, dv_issued_at = dl_issued_at l\<rparr>"

definition device_roster :: "roster \<Rightarrow> device_registry \<Rightarrow> member_devices list" where
  "device_roster roster reg =
    map (\<lambda>m. m\<lparr>md_devices := map device_view_of (devices_of (md_member m) reg)\<rparr>)
      (fm_values (fold member_entry roster fmempty))"

subsection \<open>What the role map holds\<close>

lemma role_entry_lookup:
  "fmlookup (role_entry (addr, role) m) a =
    (if canonical_address addr = Some a
        \<and> (case fmlookup m a of None \<Rightarrow> True | Some r \<Rightarrow> role_rank r < role_rank role)
     then Some role else fmlookup m a)"
  by (auto simp: role_entry_def Let_def split: option.splits)

lemma best_roles_snoc: "best_roles (roster @ [e]) = role_entry e (best_roles roster)"
  by (simp add: best_roles_def)

lemma best_roles_Some:
  "fmlookup (best_roles roster) a = Some r \<Longrightarrow>
    (\<exists>addr. (addr, r) \<in> set roster \<and> canonical_address addr = Some a)
    \<and> (\<forall>addr role. (addr, role) \<in> set roster \<and> canonical_address addr = Some a
         \<longrightarrow> role_rank role \<le> role_rank r)"
proof (induction roster arbitrary: r rule: rev_induct)
  case Nil
  then show ?case by (simp add: best_roles_def)
next
  case (snoc e roster)
  obtain addr role where e: "e = (addr, role)" by (cases e)
  show ?case
  proof (cases "fmlookup (best_roles roster) a")
    case None
    then have "\<nexists>addr role. (addr, role) \<in> set roster \<and> canonical_address addr = Some a"
    proof (induction roster rule: rev_induct)
      case (snoc e' roster)
      then show ?case
        by (cases e') (auto simp: best_roles_snoc role_entry_lookup split: if_splits option.splits)
    qed simp
    with None snoc.prems e show ?thesis
      by (auto simp: best_roles_snoc role_entry_lookup split: if_splits)
  next
    case (Some r0)
    from snoc.IH [OF this] Some snoc.prems e show ?thesis
      by (fastforce simp: best_roles_snoc role_entry_lookup split: if_splits)
  qed
qed

lemma best_roles_dom:
  "a |\<in>| fmdom (best_roles roster) \<longleftrightarrow> (\<exists>addr role. (addr, role) \<in> set roster \<and> canonical_address addr = Some a)"
proof (induction roster rule: rev_induct)
  case Nil
  then show ?case by (simp add: best_roles_def)
next
  case (snoc e roster)
  obtain addr role where "e = (addr, role)" by (cases e)
  with snoc show ?case
    by (auto simp: best_roles_snoc role_entry_lookup fmlookup_dom_iff split: if_splits option.splits)
qed

lemma best_roles_canonical: "a |\<in>| fmdom (best_roles roster) \<Longrightarrow> is_canonical a"
  by (auto simp: best_roles_dom intro: canonical_address_canonical)

text \<open>An address passes the gate on the roster when its best role does.\<close>

lemma best_roles_gate:
  "a |\<in>| allowed_set roster \<longleftrightarrow>
    (\<exists>r. fmlookup (best_roles roster) a = Some r \<and> MIN_CLUSTER_RANK \<le> role_rank r)"
proof
  assume "a |\<in>| allowed_set roster"
  then obtain addr role where e: "(addr, role) \<in> set roster" "canonical_address addr = Some a"
    and rank: "MIN_CLUSTER_RANK \<le> role_rank role" by (auto simp: allowed_set_member)
  then have "a |\<in>| fmdom (best_roles roster)" by (auto simp: best_roles_dom)
  then obtain r where r: "fmlookup (best_roles roster) a = Some r" by (auto simp: fmlookup_dom_iff)
  with best_roles_Some [OF r] e have "role_rank role \<le> role_rank r" by blast
  with rank r show "\<exists>r. fmlookup (best_roles roster) a = Some r \<and> MIN_CLUSTER_RANK \<le> role_rank r"
    by (auto intro: order_trans)
next
  assume "\<exists>r. fmlookup (best_roles roster) a = Some r \<and> MIN_CLUSTER_RANK \<le> role_rank r"
  then show "a |\<in>| allowed_set roster"
    using best_roles_Some by (fastforce simp: allowed_set_member)
qed

subsection \<open>Devices and members on device keys\<close>

text \<open>The links that count: the device is no roster address and the member passes the gate.\<close>

definition live_link :: "roster \<Rightarrow> device_registry \<Rightarrow> rstr \<Rightarrow> rstr \<Rightarrow> bool" where
  "live_link roster reg d m \<longleftrightarrow>
    map_option dl_member (fmlookup (reg_links reg) d) = Some m
    \<and> d |\<notin>| fmdom (best_roles roster) \<and> m |\<in>| allowed_set roster"

text \<open>The entry that a link contributes.\<close>

definition device_item :: "(rstr, rstr) fmap \<Rightarrow> device_link \<Rightarrow> (rstr \<times> rstr) option" where
  "device_item roles l =
    (if dl_device l |\<in>| fmdom roles then None
     else case fmlookup roles (dl_member l) of
       None \<Rightarrow> None
     | Some role \<Rightarrow> if MIN_CLUSTER_RANK \<le> role_rank role then Some (dl_device l, role) else None)"

lemma device_item_Some_iff:
  "device_item roles l = Some (d, r) \<longleftrightarrow>
    dl_device l = d \<and> d |\<notin>| fmdom roles \<and> fmlookup roles (dl_member l) = Some r \<and> MIN_CLUSTER_RANK \<le> role_rank r"
  by (auto simp: device_item_def split: option.splits)

lemma device_entry_item:
  "device_entry roles l (ds, odk) =
    (case device_item roles l of None \<Rightarrow> (ds, odk) | Some e \<Rightarrow> (ds @ [e], finsert (dl_member l) odk))"
  by (simp add: device_entry_def device_item_def split: option.splits)

lemma fold_device_entry:
  "fst (fold (device_entry roles) ls (ds, odk)) = ds @ List.map_filter (device_item roles) ls
   \<and> fset (snd (fold (device_entry roles) ls (ds, odk))) =
     fset odk \<union> dl_member ` {l\<in>set ls. \<exists>d r. device_item roles l = Some (d, r)}"
proof (induction ls arbitrary: ds odk)
  case (Cons l ls)
  show ?case
  proof (cases "device_item roles l")
    case None
    then have "{l'\<in>set (l # ls). \<exists>d r. device_item roles l' = Some (d, r)}
        = {l'\<in>set ls. \<exists>d r. device_item roles l' = Some (d, r)}" by auto
    with None show ?thesis by (simp add: Cons.IH device_entry_item map_filter_simps)
  next
    case (Some e)
    then have "{l'\<in>set (l # ls). \<exists>d r. device_item roles l' = Some (d, r)}
        = insert l {l'\<in>set ls. \<exists>d r. device_item roles l' = Some (d, r)}" by (cases e) auto
    with Some show ?thesis by (simp add: Cons.IH device_entry_item map_filter_simps)
  qed
qed (simp add: map_filter_simps)

lemma registry_values:
  assumes "registry_ok reg"
  shows "l \<in> set (fm_values (reg_links reg)) \<longleftrightarrow> fmlookup (reg_links reg) (dl_device l) = Some l"
  using registry_ok_link [OF assms] by (auto simp: set_fm_values)

lemma live_link_item:
  assumes "registry_ok reg"
  shows "(\<exists>l\<in>set (fm_values (reg_links reg)). dl_member l = m \<and> device_item (best_roles roster) l = Some (d, r))
    \<longleftrightarrow> live_link roster reg d m \<and> fmlookup (best_roles roster) m = Some r" (is "?l \<longleftrightarrow> ?r")
proof
  assume ?l
  then obtain l where "l \<in> set (fm_values (reg_links reg))" "dl_member l = m"
    "device_item (best_roles roster) l = Some (d, r)" by blast
  then show ?r
    unfolding registry_values [OF assms] device_item_Some_iff live_link_def best_roles_gate by auto
next
  assume r: ?r
  then obtain l where l: "fmlookup (reg_links reg) d = Some l" "dl_member l = m"
    by (auto simp: live_link_def)
  with registry_ok_link [OF assms] have "dl_device l = d" by blast
  with r l show ?l
    by (intro bexI [of _ l]) (auto simp: registry_values [OF assms] device_item_Some_iff live_link_def best_roles_gate)
qed

lemma set_map_filter_Some: "y \<in> set (List.map_filter f xs) \<longleftrightarrow> (\<exists>x\<in>set xs. f x = Some y)"
  by (force simp: List.map_filter_def)

lemma effective_roster_parts:
  assumes "registry_ok reg"
    and f: "fold (device_entry (best_roles roster)) (fm_values (reg_links reg)) ([], fst |`| reg_revoked reg) = (devices, odk)"
  shows "a |\<in>| odk \<longleftrightarrow> (\<exists>d. (a, d) |\<in>| reg_revoked reg) \<or> (\<exists>d. live_link roster reg d a)" (is ?odk)
    and "(d, r) \<in> set devices \<longleftrightarrow> (\<exists>m. live_link roster reg d m \<and> fmlookup (best_roles roster) m = Some r)" (is ?devices)
proof -
  let ?ls = "fm_values (reg_links reg)" and ?item = "device_item (best_roles roster)"
  have fst: "devices = List.map_filter ?item ?ls"
    and snd: "fset odk = fst ` fset (reg_revoked reg) \<union> dl_member ` {l\<in>set ?ls. \<exists>d r. ?item l = Some (d, r)}"
    using fold_device_entry [of "best_roles roster" ?ls "[]" "fst |`| reg_revoked reg"]
    unfolding f by simp_all
  from snd have "a |\<in>| odk \<longleftrightarrow> a \<in> fst ` fset (reg_revoked reg) \<or>
      a \<in> dl_member ` {l\<in>set ?ls. \<exists>d r. ?item l = Some (d, r)}" by (simp only: Un_iff)
  also have "a \<in> fst ` fset (reg_revoked reg) \<longleftrightarrow> (\<exists>d. (a, d) |\<in>| reg_revoked reg)" by force
  also have "a \<in> dl_member ` {l\<in>set ?ls. \<exists>d r. ?item l = Some (d, r)} \<longleftrightarrow>
      (\<exists>d r. \<exists>l\<in>set ?ls. dl_member l = a \<and> ?item l = Some (d, r))" by blast
  also have "\<dots> \<longleftrightarrow> (\<exists>d. live_link roster reg d a)"
    unfolding live_link_item [OF assms(1)] by (auto simp: live_link_def best_roles_gate)
  finally show ?odk .
  have "(d, r) \<in> set devices \<longleftrightarrow> (\<exists>m. \<exists>l\<in>set ?ls. dl_member l = m \<and> ?item l = Some (d, r))"
    unfolding fst set_map_filter_Some by blast
  then show ?devices unfolding live_link_item [OF assms(1)] .
qed

text \<open>The entries of the effective roster.\<close>

lemma effective_roster_set:
  assumes "registry_ok reg"
  shows "(a, r) \<in> set (effective_roster roster reg) \<longleftrightarrow>
    (fmlookup (best_roles roster) a = Some r \<and> (\<nexists>d. (a, d) |\<in>| reg_revoked reg) \<and> (\<nexists>d. live_link roster reg d a))
    \<or> (\<exists>m. live_link roster reg a m \<and> fmlookup (best_roles roster) m = Some r)"
proof -
  obtain devices odk where
    f: "fold (device_entry (best_roles roster)) (fm_values (reg_links reg)) ([], fst |`| reg_revoked reg) = (devices, odk)"
    by fastforce
  have "set (effective_roster roster reg) =
      {(a, r). fmlookup (best_roles roster) a = Some r \<and> a |\<notin>| odk} \<union> set devices"
    by (auto simp: effective_roster_def f set_sorted_list_of_fmap)
  then have "(a, r) \<in> set (effective_roster roster reg) \<longleftrightarrow>
      (fmlookup (best_roles roster) a = Some r \<and> a |\<notin>| odk) \<or> (a, r) \<in> set devices" by simp
  then show ?thesis unfolding effective_roster_parts [OF assms f] by simp
qed

lemma live_link_fields:
  assumes "registry_ok reg" and "live_link roster reg d m"
  shows "is_canonical d" and "is_canonical m" and "(m, d) |\<notin>| reg_revoked reg" and "m |\<in>| allowed_set roster"
proof -
  from assms(2) obtain l where l: "fmlookup (reg_links reg) d = Some l" "dl_member l = m"
    and m: "m |\<in>| allowed_set roster" by (auto simp: live_link_def)
  with registry_ok_link [OF assms(1) l(1)]
  show "is_canonical d" "is_canonical m" "(m, d) |\<notin>| reg_revoked reg" by (auto simp: link_ok_def)
  show "m |\<in>| allowed_set roster" by (rule m)
qed

lemma live_link_unique: "live_link roster reg d m \<Longrightarrow> live_link roster reg d m' \<Longrightarrow> m = m'"
  by (auto simp: live_link_def)

lemma effective_roster_canonical:
  assumes "registry_ok reg" and "(a, r) \<in> set (effective_roster roster reg)"
  shows "is_canonical a"
  using assms(2) live_link_fields(1) [OF assms(1)] best_roles_canonical
  unfolding effective_roster_set [OF assms(1)] by (blast intro: fmdomI)

lemma effective_allowed_iff:
  assumes "registry_ok reg"
  shows "a |\<in>| allowed_set (effective_roster roster reg) \<longleftrightarrow>
    (a |\<in>| allowed_set roster \<and> (\<nexists>d. (a, d) |\<in>| reg_revoked reg) \<and> (\<nexists>d. live_link roster reg d a))
    \<or> (\<exists>m. live_link roster reg a m)" (is "_ \<longleftrightarrow> ?r")
proof -
  have "a |\<in>| allowed_set (effective_roster roster reg) \<longleftrightarrow>
      (\<exists>r. (a, r) \<in> set (effective_roster roster reg) \<and> MIN_CLUSTER_RANK \<le> role_rank r)"
    using effective_roster_canonical [OF assms] canonical_address_fixed
    by (fastforce simp: allowed_set_member)
  also have "\<dots> \<longleftrightarrow> ?r"
    using live_link_fields(4) [OF assms] unfolding effective_roster_set [OF assms] best_roles_gate by blast
  finally show ?thesis .
qed

lemma effective_roster_no_devices: "allowed_set (effective_roster roster registry_new) = allowed_set roster"
proof (rule fset_eqI)
  fix a
  have no: "(\<exists>m. live_link roster registry_new a m) = False" "(\<exists>d. live_link roster registry_new d a) = False"
    by (auto simp: live_link_def registry_new_def)
  show "a |\<in>| allowed_set (effective_roster roster registry_new) \<longleftrightarrow> a |\<in>| allowed_set roster"
    unfolding effective_allowed_iff [OF registry_ok_new] no by (simp add: registry_new_def)
qed

lemma effective_roster_sorted [simp]: "sorted (effective_roster roster reg)"
  by (simp add: effective_roster_def Let_def split: prod.splits)

subsection \<open>Members with their devices\<close>

lemma member_entry_lookup:
  "fmlookup (member_entry (addr, role) m) a =
    (if canonical_address addr = Some a \<and> MIN_CLUSTER_RANK \<le> role_rank role
     then Some (case fmlookup m a of
         None \<Rightarrow> \<lparr>md_member = a, md_role = role, md_devices = []\<rparr>
       | Some e \<Rightarrow> if role_rank (md_role e) < role_rank role then e\<lparr>md_role := role\<rparr> else e)
     else fmlookup m a)"
  by (auto simp: member_entry_def Let_def not_less split: option.splits)

lemma member_entries:
  "fmlookup (fold member_entry roster fmempty) a =
    (case fmlookup (best_roles roster) a of
       None \<Rightarrow> None
     | Some r \<Rightarrow> if MIN_CLUSTER_RANK \<le> role_rank r then Some \<lparr>md_member = a, md_role = r, md_devices = []\<rparr> else None)"
proof (induction roster rule: rev_induct)
  case Nil
  then show ?case by (simp add: best_roles_def)
next
  case (snoc e roster)
  obtain addr role where "e = (addr, role)" by (cases e)
  with snoc.IH show ?case
    by (auto simp: best_roles_snoc member_entry_lookup role_entry_lookup not_le not_less split: option.splits)
qed

lemma member_entries_dom: "fmdom (fold member_entry roster fmempty) = allowed_set roster"
proof (rule fset_eqI)
  fix a
  show "a |\<in>| fmdom (fold member_entry roster fmempty) \<longleftrightarrow> a |\<in>| allowed_set roster"
    by (auto simp: fmlookup_dom_iff member_entries best_roles_gate split: option.splits)
qed

lemma member_entries_values:
  "fm_values (fold member_entry roster fmempty) =
    map (\<lambda>a. \<lparr>md_member = a, md_role = the (fmlookup (best_roles roster) a), md_devices = []\<rparr>)
      (sorted_list_of_fset (allowed_set roster))"
proof -
  have "the (fmlookup (fold member_entry roster fmempty) a) =
      \<lparr>md_member = a, md_role = the (fmlookup (best_roles roster) a), md_devices = []\<rparr>"
    if "a |\<in>| allowed_set roster" for a
    using that by (auto simp: member_entries best_roles_gate)
  then show ?thesis
    by (simp add: fm_values_def sorted_list_of_fmap_def member_entries_dom)
qed

lemma set_devices_of:
  "is_canonical m \<Longrightarrow> set (devices_of m reg) = {l. (\<exists>d. fmlookup (reg_links reg) d = Some l) \<and> dl_member l = m}"
  by (auto simp: devices_of_def canonical_address_fixed set_fm_values)

subsection \<open>Properties of the effective roster\<close>

text \<open>C6. What the gate admits once devices are taken into account. An address is in the allowed set
  of the effective roster exactly when it is a roster address that passes the gate, has revoked no
  device and has no active device of its own, or when it is a device, itself not on the roster, whose
  active link names a member that passes the gate.\<close>

theorem effective_roster_allowed:
  "let reg = registry_run recover us
   in a |\<in>| allowed_set (effective_roster roster reg) \<longleftrightarrow>
     (a |\<in>| allowed_set roster \<and> (\<nexists>d. (a, d) |\<in>| reg_revoked reg) \<and> (\<nexists>d. live_link roster reg d a))
     \<or> (\<exists>m. live_link roster reg a m)"
  unfolding Let_def by (rule effective_allowed_iff) (rule registry_run_ok)

text \<open>Every address the gate admits answers to a member that passes the gate on the member roster:
  it is that member, or a device with an active link to it that the member has not revoked. So taking
  a member off the roster, or below the threshold, takes all its devices off in the same step.\<close>

theorem effective_roster_accountable:
  "fset (allowed_set (effective_roster roster (registry_run recover us))) \<subseteq>
    fset (allowed_set roster) \<union>
    {d. \<exists>m. m |\<in>| allowed_set roster \<and> registry_member_of d (registry_run recover us) = Some m
          \<and> \<not> registry_is_revoked m d (registry_run recover us)}"
proof
  let ?reg = "registry_run recover us"
  fix a assume "a \<in> fset (allowed_set (effective_roster roster ?reg))"
  then consider "a |\<in>| allowed_set roster" | m where "live_link roster ?reg a m"
    using effective_allowed_iff [OF registry_run_ok] by auto
  then show "a \<in> fset (allowed_set roster) \<union>
    {d. \<exists>m. m |\<in>| allowed_set roster \<and> registry_member_of d ?reg = Some m \<and> \<not> registry_is_revoked m d ?reg}"
  proof cases
    case 2
    note f = live_link_fields [OF registry_run_ok 2]
    then have "registry_member_of a ?reg = Some m \<and> \<not> registry_is_revoked m a ?reg"
      using 2 by (simp add: registry_member_of_canonical registry_is_revoked_canonical live_link_def)
    with f(4) show ?thesis by blast
  qed simp
qed

text \<open>A member on device keys is not a peer itself: once a roster address has revoked a device, or
  has an active device, the gate does not admit that address any more.\<close>

theorem member_on_device_keys_dropped:
  assumes "(addr, role) \<in> set roster" and "canonical_address addr = Some a"
    and "registry_is_revoked a d (registry_run recover us) \<or> live_link roster (registry_run recover us) d a"
  shows "\<not> admit addr (allowed_set (effective_roster roster (registry_run recover us)))"
proof -
  let ?reg = "registry_run recover us"
  have dom: "a |\<in>| fmdom (best_roles roster)" using assms(1,2) by (auto simp: best_roles_dom)
  then have no_dev: "\<nexists>m. live_link roster ?reg a m" by (simp add: live_link_def)
  have "canonical_address a = Some a" using assms(2) by (rule canonical_address_idem)
  then have "(\<exists>d. (a, d) |\<in>| reg_revoked ?reg) \<or> (\<exists>d. live_link roster ?reg d a)"
    using assms(3) by (auto simp: registry_is_revoked_def split: option.splits)
  with no_dev have "a |\<notin>| allowed_set (effective_roster roster ?reg)"
    unfolding effective_allowed_iff [OF registry_run_ok] by blast
  with assms(2) show ?thesis by (simp add: admit_def)
qed

theorem member_on_device_keys_dropped_witness:
  "\<not> admit (addr_of ''a1'') (allowed_set (effective_roster [(addr_of ''a1'', ''owner'')]
     (registry_run stub_verifier [([], [stub_revoked (addr_of ''a1'') (addr_of ''d1'')])])))"
proof -
  have "registry_is_revoked (addr_of ''a1'') (addr_of ''d1'')
      (registry_run stub_verifier [([], [stub_revoked (addr_of ''a1'') (addr_of ''d1'')])])"
    by (simp add: registry_is_revoked_canonical sample_revoked)
  then show ?thesis
    by (intro member_on_device_keys_dropped [where role = "''owner''" and a = "addr_of ''a1''" and d = "addr_of ''d1''"])
      simp_all
qed

text \<open>The roster view lists exactly the members that pass the gate, in address order, each with
  its best role and its active devices by index.\<close>

theorem device_roster_lists:
  "map md_member (device_roster roster reg) = sorted_list_of_fset (allowed_set roster)
   \<and> map md_role (device_roster roster reg) =
       map (\<lambda>a. the (fmlookup (best_roles roster) a)) (sorted_list_of_fset (allowed_set roster))
   \<and> map md_devices (device_roster roster reg) =
       map (\<lambda>a. map device_view_of (sort_key dl_index (filter (\<lambda>l. dl_member l = a) (registry_links reg))))
         (sorted_list_of_fset (allowed_set roster))"
proof -
  have "devices_of a reg = sort_key dl_index (filter (\<lambda>l. dl_member l = a) (registry_links reg))"
    if "a |\<in>| allowed_set roster" for a
    using allowed_set_canonical [OF that]
    by (simp add: devices_of_def canonical_address_fixed registry_links_def)
  then show ?thesis by (simp add: device_roster_def member_entries_values comp_def)
qed

end
