(* ===== verification/Wire.thy ===== *)
theory Wire
  imports Effective_Roster
begin

section \<open>Signatures and wire records of the daemon\<close>

text \<open>
  \<open>crates/cluster-daemon/src/devices.rs\<close>: the EIP-191 verifier the daemon injects into
  \<open>cluster-core\<close>, and the conversions between the JSON records and the core types. The secp256k1,
  Keccak and hex routines come from other crates: they are the fields of a record of parameters, on
  byte strings, and what the verifier's promise needs of them is stated as a hypothesis.
\<close>

subsection \<open>The EIP-191 verifier\<close>

record ('s, 'r, 'k) crypto =
  cr_hex_decode :: "rstr \<Rightarrow> rstr option"
  cr_hex_encode :: "rstr \<Rightarrow> rstr"
  cr_keccak256 :: "rstr \<Rightarrow> rstr"
  cr_sig_from_slice :: "rstr \<Rightarrow> 's option"
  cr_normalize_s :: "'s \<Rightarrow> 's option"
  cr_recid_from_byte :: "8 word \<Rightarrow> 'r option"
  cr_recover_from_prehash :: "rstr \<Rightarrow> 's \<Rightarrow> 'r \<Rightarrow> 'k option"
  cr_encoded_point :: "'k \<Rightarrow> rstr"

definition eip191_digest :: "('s, 'r, 'k) crypto \<Rightarrow> rstr \<Rightarrow> rstr" where
  "eip191_digest C message =
    cr_keccak256 C
      ((CHR 0x19 # ''Ethereum Signed Message:'' @ [LF] @ show_dec (length message)) @ message)"

definition address_of :: "('s, 'r, 'k) crypto \<Rightarrow> 'k \<Rightarrow> rstr" where
  "address_of C key = cr_hex_encode C (drop 12 (cr_keccak256 C (drop 1 (cr_encoded_point C key))))"

text \<open>\<open>match raw[64] \{ 0 | 27 => 0, 1 | 28 => 1, _ => return None \}\<close>.\<close>

definition recovery_byte :: "byte \<Rightarrow> 8 word option" where
  "recovery_byte v =
    (if code v \<in> {0, 27} then Some 0 else if code v \<in> {1, 28} then Some 1 else None)"

definition eip191_recover :: "('s, 'r, 'k) crypto \<Rightarrow> link_verifier" where
  "eip191_recover C message sig_hex =
    (case cr_hex_decode C (trim_start_matches ''0x'' (trim sig_hex)) of None \<Rightarrow> None | Some raw \<Rightarrow>
       if length raw \<noteq> 65 then None
       else case cr_sig_from_slice C (take 64 raw) of None \<Rightarrow> None | Some sig \<Rightarrow>
         if cr_normalize_s C sig \<noteq> None then None
         else case recovery_byte (raw ! 64) of None \<Rightarrow> None | Some v \<Rightarrow>
           case cr_recid_from_byte C v of None \<Rightarrow> None | Some recid \<Rightarrow>
             case cr_recover_from_prehash C (eip191_digest C message) sig recid of None \<Rightarrow> None
             | Some key \<Rightarrow> Some (address_of C key))"

lemma eip191_recover_Some:
  assumes "eip191_recover C message sig_hex = Some a"
  shows "\<exists>raw sig key. cr_hex_decode C (trim_start_matches ''0x'' (trim sig_hex)) = Some raw
    \<and> length raw = 65 \<and> cr_sig_from_slice C (take 64 raw) = Some sig \<and> cr_normalize_s C sig = None
    \<and> code (raw ! 64) \<in> {0, 1, 27, 28} \<and> a = address_of C key"
  using assms
  by (auto simp: eip191_recover_def recovery_byte_def split: option.splits if_splits)

text \<open>
  What \<open>hex::encode\<close> and Keccak-256 promise: two lower-case digits for a byte, and a digest of 32
  bytes.
\<close>

definition hex_encode_doc :: "(rstr \<Rightarrow> rstr) \<Rightarrow> bool" where
  "hex_encode_doc enc \<longleftrightarrow>
    (\<forall>bs. length (enc bs) = 2 * length bs
        \<and> list_all (\<lambda>c. (48 \<le> code c \<and> code c \<le> 57) \<or> (97 \<le> code c \<and> code c \<le> 102)) (enc bs))"

lemma lower_hex_canonical:
  assumes "length h = 40"
    and "list_all (\<lambda>c. (48 \<le> code c \<and> code c \<le> 57) \<or> (97 \<le> code c \<and> code c \<le> 102)) h"
  shows "is_canonical h"
proof -
  have "is_ascii_hexdigit c \<and> to_ascii_lowercase c = c" if "c \<in> set h" for c
  proof -
    have "(48 \<le> code c \<and> code c \<le> 57) \<or> (97 \<le> code c \<and> code c \<le> 102)"
      using assms(2) that by (simp add: list_all_iff)
    then show ?thesis by (auto simp: is_ascii_hexdigit_def to_ascii_lowercase_def)
  qed
  with assms(1) show ?thesis by (simp add: is_canonical_def list_all_iff)
qed

lemma address_of_canonical:
  assumes "hex_encode_doc (cr_hex_encode C)" and "\<forall>m. length (cr_keccak256 C m) = 32"
  shows "is_canonical (address_of C key)"
  using assms unfolding hex_encode_doc_def address_of_def by (intro lower_hex_canonical) auto

text \<open>C37. The verifier keeps the promise of \<open>LinkVerifier\<close>: whatever it recovers is a canonical address,
  from a signature of 65 bytes in low-s form whose last byte is 0, 1, 27 or 28.\<close>

theorem eip191_recover_contract:
  assumes "hex_encode_doc (cr_hex_encode C)" and "\<forall>m. length (cr_keccak256 C m) = 32"
    and "eip191_recover C message sig_hex = Some a"
  shows "canonical_address a = Some a
    \<and> (\<exists>raw sig. cr_hex_decode C (trim_start_matches ''0x'' (trim sig_hex)) = Some raw \<and> length raw = 65
        \<and> cr_sig_from_slice C (take 64 raw) = Some sig \<and> cr_normalize_s C sig = None
        \<and> code (raw ! 64) \<in> {0, 1, 27, 28})"
proof -
  from eip191_recover_Some [OF assms(3)] obtain raw sig key where
    r: "cr_hex_decode C (trim_start_matches ''0x'' (trim sig_hex)) = Some raw" "length raw = 65"
      "cr_sig_from_slice C (take 64 raw) = Some sig" "cr_normalize_s C sig = None"
      "code (raw ! 64) \<in> {0, 1, 27, 28}" and a: "a = address_of C key" by blast
  have "canonical_address a = Some a"
    unfolding a by (rule canonical_address_fixed) (rule address_of_canonical [OF assms(1,2)])
  with r show ?thesis by blast
qed

definition stub_crypto :: "(rstr, 8 word, rstr) crypto" where
  "stub_crypto =
    \<lparr>cr_hex_decode = (\<lambda>s. Some s), cr_hex_encode = (\<lambda>bs. concat (map (\<lambda>_. ''ab'') bs)),
     cr_keccak256 = (\<lambda>_. replicate 32 (CHR ''k'')), cr_sig_from_slice = Some, cr_normalize_s = (\<lambda>_. None),
     cr_recid_from_byte = Some, cr_recover_from_prehash = (\<lambda>_ s _. Some s), cr_encoded_point = id\<rparr>"

lemma stub_crypto_docs:
  "hex_encode_doc (cr_hex_encode stub_crypto)" "\<forall>m. length (cr_keccak256 stub_crypto m) = 32"
proof -
  have "length (concat (map (\<lambda>_. ''ab'') bs)) = 2 * length bs" for bs :: rstr
    by (induction bs) simp_all
  moreover have "list_all (\<lambda>c. (48 \<le> code c \<and> code c \<le> 57) \<or> (97 \<le> code c \<and> code c \<le> 102))
      (concat (map (\<lambda>_. ''ab'') bs))" for bs :: rstr
    by (induction bs) simp_all
  ultimately show "hex_encode_doc (cr_hex_encode stub_crypto)"
    by (simp add: hex_encode_doc_def stub_crypto_def)
  show "\<forall>m. length (cr_keccak256 stub_crypto m) = 32" by (simp add: stub_crypto_def)
qed

theorem eip191_recover_contract_witness:
  "canonical_address (address_of stub_crypto (replicate 64 (CHR ''r''))) =
    Some (address_of stub_crypto (replicate 64 (CHR ''r'')))"
proof -
  let ?sig = "replicate 64 (CHR ''r'') @ [CHR 0x1B]"
  have g: "trim ?sig = trim_end (trim_start ?sig)" by (simp add: trim_def)
  have "trim_start ?sig = ?sig" by (rule trim_start_graphic) (simp add: is_ascii_graphic_def numeral_eq_Suc)
  moreover have "trim_end ?sig = ?sig"
  proof -
    have "\<forall>p\<in>set (map rev ws_seqs). code (hd p) \<noteq> code (CHR 0x1B)"
      by (auto simp: ws_seqs_def ws_codes_def)
    then have "\<forall>p\<in>set (map rev ws_seqs). p \<noteq> [] \<longrightarrow> hd p \<noteq> CHR 0x1B" by fastforce
    then have "strip_any (map rev ws_seqs) (CHR 0x1B # rev (replicate 64 (CHR ''r''))) = None"
      by (rule strip_any_hd)
    then show ?thesis by (simp add: trim_end_def trim_seqs.simps [of "map rev ws_seqs"])
  qed
  ultimately have t: "trim ?sig = ?sig" using g by simp
  have "trim_start_matches ''0x'' ?sig = ?sig"
    by (rule trim_start_matches_id) (simp_all add: starts_with_def numeral_eq_Suc)
  with t have "eip191_recover stub_crypto ''m'' ?sig = Some (address_of stub_crypto (replicate 64 (CHR ''r'')))"
    by (simp add: eip191_recover_def stub_crypto_def recovery_byte_def nth_append)
  from eip191_recover_contract [OF stub_crypto_docs this] show ?thesis by simp
qed

subsection \<open>Wire records\<close>

record device_link_wire =
  lw_member :: rstr
  lw_device :: rstr
  lw_wallet :: rstr
  lw_index :: "32 word"
  lw_label :: rstr
  lw_issued_at :: "64 word"
  lw_member_sig :: rstr
  lw_device_sig :: rstr
  lw_wallet_sig :: rstr

definition signed_link_of_wire :: "device_link_wire \<Rightarrow> signed_device_link" where
  "signed_link_of_wire w =
    \<lparr>sl_link = \<lparr>dl_member = lw_member w, dl_device = lw_device w, dl_wallet = lw_wallet w,
       dl_index = lw_index w, dl_label = lw_label w, dl_issued_at = lw_issued_at w\<rparr>,
     sl_member_sig = lw_member_sig w, sl_device_sig = lw_device_sig w, sl_wallet_sig = lw_wallet_sig w\<rparr>"

record revocation_wire =
  rw_member :: rstr
  rw_device :: rstr
  rw_revoked_at :: "64 word"
  rw_member_sig :: rstr

definition signed_revocation_of_wire :: "revocation_wire \<Rightarrow> signed_revocation" where
  "signed_revocation_of_wire w =
    \<lparr>sr_revocation = \<lparr>dr_member = rw_member w, dr_device = rw_device w, dr_revoked_at = rw_revoked_at w\<rparr>,
     sr_member_sig = rw_member_sig w\<rparr>"

record device_view_wire =
  vw_device :: rstr
  vw_index :: "32 word"
  vw_label :: rstr
  vw_issued_at :: "64 word"
  vw_online :: bool

record member_devices_wire =
  mw_member :: rstr
  mw_role :: rstr
  mw_online :: bool
  mw_devices :: "device_view_wire list"

definition member_devices_from_core :: "rstr fset \<Rightarrow> member_devices \<Rightarrow> member_devices_wire" where
  "member_devices_from_core connected m =
    \<lparr>mw_member = md_member m, mw_role = md_role m, mw_online = (md_member m |\<in>| connected),
     mw_devices = map (\<lambda>d. \<lparr>vw_device = dv_device d, vw_index = dv_index d, vw_label = dv_label d,
       vw_issued_at = dv_issued_at d, vw_online = (dv_device d |\<in>| connected)\<rparr>) (md_devices m)\<rparr>"

fun describe_rejection :: "link_rejection \<Rightarrow> rstr" where
  "describe_rejection (Malformed device) = device @ '': malformed link''"
| "describe_rejection (BadSignature device which) = device @ '': '' @ which @ '' signature does not verify''"
| "describe_rejection (Conflict device) = device @ '': conflicting links''"
| "describe_rejection (Revoked device) = device @ '': revoked''"
| "describe_rejection (BadRevocation device) = device @ '': revocation signature does not verify''"
| "describe_rejection TooMany = ''too many links in one update''"

end
