(* ===== verification/Daemon.thy ===== *)
theory Daemon
  imports Wire Session Seed Cid
begin

section \<open>The daemon: one session per group\<close>

text \<open>
  \<open>ClusterDaemon\<close> of \<open>crates/cluster-daemon/src/lib.rs\<close>, every method a function on the daemon's
  state. The transport \<open>T\<close> is a record of operations over its state type \<open>'t\<close>; the transport factory
  (which may fail, differently on each call) is the argument \<open>mk\<close> of the operations that can create a
  session; the signature verifier is the argument \<open>V\<close> (\<open>eip191_recover\<close> in the program). The
  formatted error strings are kept as constructors with the values they print.
\<close>

definition MAX_SHARED_FILES :: nat where
  "MAX_SHARED_FILES = 4096"

definition MAX_SHARED_FILES_PAGE :: nat where
  "MAX_SHARED_FILES_PAGE = 1024"

definition MAX_GROUPS :: nat where
  "MAX_GROUPS = 32"

type_synonym 't transport_factory = "rstr \<Rightarrow> rstr + 't"

datatype daemon_error =
    ServesOnly rstr rstr
  | EmptyGroup
  | TooManyGroups
  | StartFailed rstr rstr
  | NoSession rstr
  | NotInGroup rstr
  | TransportError rstr
  | NoListenAddress
  | SeedInvalid seed_error
  | OtherGroup
  | BadCid
  | SharedFull rstr

record group_devices =
  gd_roster :: roster
  gd_registry :: device_registry

definition group_devices_default :: group_devices where
  "group_devices_default = \<lparr>gd_roster = [], gd_registry = registry_new\<rparr>"

record 't daemon =
  d_self :: rstr
  d_single :: "rstr option"
  d_groups :: "(rstr, 't cluster_session) fmap"
  d_shared :: "(rstr, rstr fset) fmap"
  d_devices :: "(rstr, group_devices) fmap"

record peer_view =
  pv_address :: rstr
  pv_online :: bool
  pv_member :: "rstr option"

definition daemon_with_factory :: "rstr \<Rightarrow> 't daemon" where
  "daemon_with_factory self_address =
    \<lparr>d_self = (case canonical_address self_address of None \<Rightarrow> [] | Some a \<Rightarrow> a), d_single = None,
     d_groups = fmempty, d_shared = fmempty, d_devices = fmempty\<rparr>"

definition daemon_single_group :: "rstr \<Rightarrow> rstr \<Rightarrow> 't daemon" where
  "daemon_single_group self_address grp = (daemon_with_factory self_address)\<lparr>d_single := Some grp\<rparr>"

definition daemon_groups :: "'t daemon \<Rightarrow> rstr list" where
  "daemon_groups d = sorted_list_of_fset (fmdom (d_groups d))"

definition put_session :: "rstr \<Rightarrow> 't cluster_session \<Rightarrow> 't daemon \<Rightarrow> 't daemon" where
  "put_session grp s d = d\<lparr>d_groups := fmupd grp s (d_groups d)\<rparr>"

definition ensure_group_allowed :: "rstr \<Rightarrow> 't daemon \<Rightarrow> daemon_error + unit" where
  "ensure_group_allowed grp d =
    (case d_single d of
       Some g \<Rightarrow> if g \<noteq> grp then Err (ServesOnly g grp) else Ok ()
     | None \<Rightarrow> Ok ())"

definition sync_admission :: "('t, 'z) cluster_transport_scheme \<Rightarrow> rstr \<Rightarrow> 't daemon \<Rightarrow> 't daemon" where
  "sync_admission T grp d =
    (case fmlookup (d_groups d) grp of
       Some s \<Rightarrow> put_session grp (sync_admitted_from_wire T s) d
     | None \<Rightarrow> d)"

text \<open>The loop over the received messages: past the cap nothing is inserted.\<close>

definition insert_shared :: "mesh_message \<Rightarrow> rstr fset \<Rightarrow> rstr fset" where
  "insert_shared m shared = (if fcard shared < MAX_SHARED_FILES then finsert (msg_data m) shared else shared)"

definition drain_into_shared ::
  "('t, 'z) mesh_transport_scheme \<Rightarrow> rstr \<Rightarrow> 't daemon \<Rightarrow> mesh_message list \<times> 't daemon" where
  "drain_into_shared T grp d =
    (case fmlookup (d_groups d) grp of
       None \<Rightarrow> ([], d)
     | Some s \<Rightarrow>
         (case tr_drain T (s_transport s) of (received, t) \<Rightarrow>
            let messages = filter (\<lambda>m. is_valid_cid (msg_data m)) received;
                d1 = put_session grp (s\<lparr>s_transport := t\<rparr>) d
            in (messages,
                if messages \<noteq> []
                then d1\<lparr>d_shared := fmupd grp (fold insert_shared messages (fm_get_or {||} (d_shared d1) grp)) (d_shared d1)\<rparr>
                else d1)))"

definition ensure_session ::
  "'t transport_factory \<Rightarrow> rstr \<Rightarrow> 't daemon \<Rightarrow> (daemon_error + 't cluster_session) \<times> 't daemon" where
  "ensure_session mk grp d =
    (if grp |\<notin>| fmdom (d_groups d) then
       if trim grp = [] then (Err EmptyGroup, d)
       else if MAX_GROUPS \<le> fcard (fmdom (d_groups d)) then (Err TooManyGroups, d)
       else (case mk grp of
               Err e \<Rightarrow> (Err (StartFailed grp e), d)
             | Ok t \<Rightarrow> (let d1 = put_session grp (session_new [] t) d
                 in (ok_or (fmlookup (d_groups d1) grp) (NoSession grp), d1)))
     else (ok_or (fmlookup (d_groups d) grp) (NoSession grp), d))"

definition apply_roster ::
  "('t, 'z) mesh_transport_scheme \<Rightarrow> 't transport_factory \<Rightarrow> rstr \<Rightarrow> roster \<Rightarrow> 't daemon
    \<Rightarrow> (daemon_error + rstr list) \<times> 't daemon" where
  "apply_roster T mk grp roster d =
    (case ensure_session mk grp d of
       (Err e, d1) \<Rightarrow> (Err e, d1)
     | (Ok s, d1) \<Rightarrow>
         let before = fset_of_list (membership_allowed (s_membership s))
         in case session_reconcile T roster s of (evicted, s1) \<Rightarrow>
              let allowed = membership_allowed (s_membership s1);
                  after = fset_of_list allowed;
                  removed = filter (\<lambda>a. a |\<notin>| after) (sorted_list_of_fset before);
                  s2 = s1\<lparr>s_transport := fold (tr_disconnect T) removed (s_transport s1)\<rparr>;
                  s3 = s2\<lparr>s_transport := fold (tr_authorize T) allowed (s_transport s2)\<rparr>
              in (Ok evicted, put_session grp s3 d1))"

definition set_roster_with_devices ::
  "('t, 'z) mesh_transport_scheme \<Rightarrow> 't transport_factory \<Rightarrow> link_verifier \<Rightarrow> rstr \<Rightarrow> roster
    \<Rightarrow> device_link_wire list \<Rightarrow> revocation_wire list \<Rightarrow> 't daemon
    \<Rightarrow> (daemon_error + rstr list \<times> rstr list) \<times> 't daemon" where
  "set_roster_with_devices T mk V grp roster links revocations d =
    (case ensure_group_allowed grp d of
       Err e \<Rightarrow> (Err e, d)
     | Ok _ \<Rightarrow>
         (case ensure_session mk grp d of
            (Err e, d1) \<Rightarrow> (Err e, d1)
          | (Ok _, d1) \<Rightarrow>
              let state = fm_get_or group_devices_default (d_devices d1) grp
              in case registry_update V (map signed_link_of_wire links)
                       (map signed_revocation_of_wire revocations) (gd_registry state) of
                   (rejections, reg) \<Rightarrow>
                     let rejected = map describe_rejection rejections;
                         d2 = d1\<lparr>d_devices := fmupd grp \<lparr>gd_roster = roster, gd_registry = reg\<rparr> (d_devices d1)\<rparr>;
                         effective = effective_roster roster reg
                     in case apply_roster T mk grp effective d2 of
                          (Err e, d3) \<Rightarrow> (Err e, d3)
                        | (Ok evicted, d3) \<Rightarrow> (Ok (evicted, rejected), d3)))"

definition set_roster ::
  "('t, 'z) mesh_transport_scheme \<Rightarrow> 't transport_factory \<Rightarrow> link_verifier \<Rightarrow> rstr \<Rightarrow> roster \<Rightarrow> 't daemon
    \<Rightarrow> (daemon_error + rstr list) \<times> 't daemon" where
  "set_roster T mk V grp roster d =
    (case set_roster_with_devices T mk V grp roster [] [] d of (r, d') \<Rightarrow> (map_sum id fst r, d'))"

definition daemon_join :: "'t transport_factory \<Rightarrow> rstr \<Rightarrow> 't daemon \<Rightarrow> (daemon_error + unit) \<times> 't daemon" where
  "daemon_join mk grp d =
    (case ensure_group_allowed grp d of
       Err e \<Rightarrow> (Err e, d)
     | Ok _ \<Rightarrow> (case ensure_session mk grp d of (Err e, d1) \<Rightarrow> (Err e, d1) | (Ok _, d1) \<Rightarrow> (Ok (), d1)))"

definition daemon_seed ::
  "('t, 'z) mesh_transport_scheme \<Rightarrow> rstr \<Rightarrow> 't daemon \<Rightarrow> daemon_error + rstr \<times> rstr list" where
  "daemon_seed T grp d =
    (case fmlookup (d_groups d) grp of
       None \<Rightarrow> Err (NotInGroup grp)
     | Some s \<Rightarrow>
         (case tr_seed_addrs T (s_transport s) of
            Err e \<Rightarrow> Err (TransportError e)
          | Ok addrs \<Rightarrow>
              if addrs = [] then Err NoListenAddress
              else case group_seed_new grp addrs of
                     Err e \<Rightarrow> Err (SeedInvalid e)
                   | Ok seed \<Rightarrow> Ok (seed_encode seed, addrs)))"

definition add_seed ::
  "('t, 'z) mesh_transport_scheme \<Rightarrow> rstr \<Rightarrow> rstr \<Rightarrow> 't daemon \<Rightarrow> (daemon_error + nat) \<times> 't daemon" where
  "add_seed T grp seed_text d =
    (case seed_decode seed_text of
       Err e \<Rightarrow> (Err (SeedInvalid e), d)
     | Ok seed \<Rightarrow>
         if gs_group seed \<noteq> grp then (Err OtherGroup, d)
         else case fmlookup (d_groups d) grp of
                None \<Rightarrow> (Err (NotInGroup grp), d)
              | Some s \<Rightarrow>
                  (case tr_add_peers T (gs_addrs seed) (s_transport s) of (r, t) \<Rightarrow>
                     (map_sum TransportError id r, put_session grp (s\<lparr>s_transport := t\<rparr>) d)))"

definition daemon_leave :: "rstr \<Rightarrow> 't daemon \<Rightarrow> 't daemon" where
  "daemon_leave grp d = d\<lparr>d_groups := fmdrop grp (d_groups d), d_shared := fmdrop grp (d_shared d)\<rparr>"

definition daemon_status ::
  "('t, 'z) mesh_transport_scheme \<Rightarrow> rstr \<Rightarrow> 't daemon \<Rightarrow> (nat \<times> nat \<times> rstr list) \<times> 't daemon" where
  "daemon_status T grp d =
    (let d1 = sync_admission T grp d;
         d2 = snd (drain_into_shared T grp d1)
     in (case fmlookup (d_groups d2) grp of
           Some s \<Rightarrow>
             (length (tr_connected T (s_transport s)), length (membership_allowed (s_membership s)),
              sorted_list_of_fset (fm_get_or {||} (d_shared d2) grp))
         | None \<Rightarrow> (0, 0, []), d2))"

definition daemon_peers ::
  "('t, 'z) cluster_transport_scheme \<Rightarrow> rstr \<Rightarrow> 't daemon \<Rightarrow> peer_view list \<times> 't daemon" where
  "daemon_peers T grp d =
    (let d1 = sync_admission T grp d
     in (case fmlookup (d_groups d1) grp of
           None \<Rightarrow> []
         | Some s \<Rightarrow>
             let registry = map_option gd_registry (fmlookup (d_devices d1) grp);
                 connected = fset_of_list (tr_connected T (s_transport s))
             in map (\<lambda>address. \<lparr>pv_address = address, pv_online = (address |\<in>| connected),
                       pv_member = Option.bind registry (registry_member_of address)\<rparr>)
                  (membership_allowed (s_membership s)), d1))"

definition daemon_devices ::
  "('t, 'z) cluster_transport_scheme \<Rightarrow> rstr \<Rightarrow> 't daemon \<Rightarrow> member_devices_wire list \<times> 't daemon" where
  "daemon_devices T grp d =
    (let d1 = sync_admission T grp d
     in (case fmlookup (d_devices d1) grp of
           None \<Rightarrow> []
         | Some state \<Rightarrow>
             let connected = (case fmlookup (d_groups d1) grp of
                   Some s \<Rightarrow> fset_of_list (tr_connected T (s_transport s))
                 | None \<Rightarrow> {||})
             in map (member_devices_from_core connected)
                  (device_roster (gd_roster state) (gd_registry state)), d1))"

definition share_file ::
  "('t, 'z) mesh_transport_scheme \<Rightarrow> rstr \<Rightarrow> rstr \<Rightarrow> 't daemon \<Rightarrow> (daemon_error + unit) \<times> 't daemon" where
  "share_file T grp cid d =
    (case fmlookup (d_groups d) grp of
       None \<Rightarrow> (Err (NotInGroup grp), d)
     | Some s \<Rightarrow>
         if \<not> is_valid_cid cid then (Err BadCid, d)
         else let shared = fm_get_or {||} (d_shared d) grp;
                  d1 = d\<lparr>d_shared := fmupd grp shared (d_shared d)\<rparr>
           in if cid |\<notin>| shared \<and> MAX_SHARED_FILES \<le> fcard shared then (Err (SharedFull grp), d1)
              else (Ok (),
                (put_session grp (s\<lparr>s_transport := tr_publish T (d_self d) cid (s_transport s)\<rparr>) d1)
                  \<lparr>d_shared := fmupd grp (finsert cid shared) (d_shared d1)\<rparr>))"

definition shared_files_page ::
  "('t, 'z) mesh_transport_scheme \<Rightarrow> rstr \<Rightarrow> nat \<Rightarrow> nat \<Rightarrow> 't daemon \<Rightarrow> (rstr list \<times> nat) \<times> 't daemon" where
  "shared_files_page T grp offset limit d =
    (let d1 = snd (drain_into_shared T grp d)
     in (case fmlookup (d_shared d1) grp of
           None \<Rightarrow> ([], 0)
         | Some shared \<Rightarrow>
             (take (min limit MAX_SHARED_FILES_PAGE) (drop offset (sorted_list_of_fset shared)), fcard shared), d1))"

definition daemon_poll ::
  "('t, 'z) mesh_transport_scheme \<Rightarrow> rstr \<Rightarrow> 't daemon \<Rightarrow> mesh_message list \<times> 't daemon" where
  "daemon_poll T grp d = drain_into_shared T grp (sync_admission T grp d)"

definition admit_peer ::
  "('t, 'z) cluster_transport_scheme \<Rightarrow> 't transport_factory \<Rightarrow> rstr \<Rightarrow> rstr \<Rightarrow> rstr \<Rightarrow> 't daemon
    \<Rightarrow> bool \<times> 't daemon" where
  "admit_peer T mk grp address role d =
    (case ensure_group_allowed grp d of
       Err _ \<Rightarrow> (False, d)
     | Ok _ \<Rightarrow>
         (case ensure_session mk grp d of
            (Ok s, d1) \<Rightarrow> (case session_join T address role s of (admitted, s1) \<Rightarrow> (admitted, put_session grp s1 d1))
          | (Err _, d1) \<Rightarrow> (False, d1)))"

definition drop_peer ::
  "('t, 'z) cluster_transport_scheme \<Rightarrow> rstr \<Rightarrow> rstr \<Rightarrow> 't daemon \<Rightarrow> 't daemon" where
  "drop_peer T grp address d =
    (case fmlookup (d_groups d) grp of
       Some s \<Rightarrow> put_session grp (session_leave T address s) d
     | None \<Rightarrow> d)"

end
