(* ===== verification/Daemon_Inv.thy ===== *)
theory Daemon_Inv
  imports Daemon
begin

section \<open>What the daemon's operations keep\<close>

text \<open>
  The invariant of the daemon's state and the frame of its operations. Every operation addresses one
  group; \<open>only_group\<close> says that nothing else changes. The invariant bounds the number of groups and
  the shared sets, ties every session's allowed set to the effective roster of its group, and keeps
  the registries well-formed. One lemma per primitive change of the state, one per operation.
\<close>

subsection \<open>Frame\<close>

definition group_view ::
  "rstr \<Rightarrow> 't daemon \<Rightarrow> 't cluster_session option \<times> rstr fset option \<times> group_devices option" where
  "group_view g d = (fmlookup (d_groups d) g, fmlookup (d_shared d) g, fmlookup (d_devices d) g)"

definition only_group :: "rstr \<Rightarrow> 't daemon \<Rightarrow> 't daemon \<Rightarrow> bool" where
  "only_group g d d' \<longleftrightarrow>
    d_self d' = d_self d \<and> d_single d' = d_single d \<and> (\<forall>h. h \<noteq> g \<longrightarrow> group_view h d' = group_view h d)"

lemma only_group_refl [simp]: "only_group g d d"
  by (simp add: only_group_def)

lemma only_group_trans [trans]: "only_group g d d1 \<Longrightarrow> only_group g d1 d2 \<Longrightarrow> only_group g d d2"
  by (simp add: only_group_def)

lemma only_group_put_session [simp]: "only_group g d (put_session g s d)"
  by (simp add: only_group_def group_view_def put_session_def)

lemma only_group_updates [simp]:
  "only_group g d (d\<lparr>d_shared := fmupd g S (d_shared d)\<rparr>)"
  "only_group g d (d\<lparr>d_devices := fmupd g st (d_devices d)\<rparr>)"
  "only_group g d (daemon_leave g d)"
  by (simp_all add: only_group_def group_view_def daemon_leave_def)

named_theorems daemon_frame \<open>an operation changes its own group only\<close>

lemma sync_admission_frame [daemon_frame]: "only_group g d (sync_admission T g d)"
  by (simp add: sync_admission_def split: option.splits)

lemma drain_into_shared_frame [daemon_frame]: "only_group g d (snd (drain_into_shared T g d))"
  by (auto simp: drain_into_shared_def Let_def only_group_def group_view_def put_session_def
      split: option.splits prod.splits)

lemma ensure_session_frame [daemon_frame]: "only_group g d (snd (ensure_session mk g d))"
  by (simp add: ensure_session_def Let_def split: sum.splits)

lemma apply_roster_frame [daemon_frame]: "only_group g d (snd (apply_roster T mk g roster d))"
  using ensure_session_frame [of g d mk]
  by (auto simp: apply_roster_def Let_def split: prod.splits sum.splits elim!: only_group_trans)

lemma set_roster_with_devices_frame [daemon_frame]:
  "only_group g d (snd (set_roster_with_devices T mk V g roster links revocations d))"
proof -
  obtain r1 d1 where e: "ensure_session mk g d = (r1, d1)" by fastforce
  have f1: "only_group g d d1" using ensure_session_frame [of g d mk] by (simp add: e)
  obtain rej reg where u: "registry_update V (map signed_link_of_wire links)
      (map signed_revocation_of_wire revocations) (gd_registry (fm_get_or group_devices_default (d_devices d1) g)) = (rej, reg)"
    by fastforce
  let ?d2 = "d1\<lparr>d_devices := fmupd g \<lparr>gd_roster = roster, gd_registry = reg\<rparr> (d_devices d1)\<rparr>"
  have "only_group g d (snd (apply_roster T mk g (effective_roster roster reg) ?d2))"
    using f1 only_group_updates(2) apply_roster_frame by (blast intro: only_group_trans)
  with f1 show ?thesis
    by (auto simp: set_roster_with_devices_def e u Let_def split: sum.splits prod.splits)
qed

lemma daemon_join_frame [daemon_frame]: "only_group g d (snd (daemon_join mk g d))"
  using ensure_session_frame [of g d mk]
  by (auto simp: daemon_join_def split: sum.splits prod.splits)

lemma add_seed_frame [daemon_frame]: "only_group g d (snd (add_seed T g text d))"
  by (simp add: add_seed_def split: sum.splits option.splits prod.splits)

lemma daemon_status_frame [daemon_frame]: "only_group g d (snd (daemon_status T g d))"
  unfolding daemon_status_def Let_def snd_conv
  by (rule only_group_trans [OF sync_admission_frame drain_into_shared_frame])

lemma daemon_peers_frame [daemon_frame]: "only_group g d (snd (daemon_peers T g d))"
  by (simp add: daemon_peers_def Let_def sync_admission_frame)

lemma daemon_devices_frame [daemon_frame]: "only_group g d (snd (daemon_devices T g d))"
  by (simp add: daemon_devices_def Let_def sync_admission_frame)

lemma share_file_frame [daemon_frame]: "only_group g d (snd (share_file T g cid d))"
  by (auto simp: share_file_def Let_def only_group_def group_view_def put_session_def split: option.splits)

lemma shared_files_page_frame [daemon_frame]: "only_group g d (snd (shared_files_page T g offset limit d))"
  by (simp add: shared_files_page_def Let_def drain_into_shared_frame)

lemma daemon_poll_frame [daemon_frame]: "only_group g d (snd (daemon_poll T g d))"
  unfolding daemon_poll_def by (rule only_group_trans [OF sync_admission_frame drain_into_shared_frame])

lemma admit_peer_frame [daemon_frame]: "only_group g d (snd (admit_peer T mk g address role d))"
  using ensure_session_frame [of g d mk]
  by (auto simp: admit_peer_def split: sum.splits prod.splits elim!: only_group_trans)

lemma drop_peer_frame [daemon_frame]: "only_group g d (drop_peer T g address d)"
  by (simp add: drop_peer_def split: option.splits)

subsection \<open>The invariant\<close>

text \<open>The state of a group and its device state.\<close>

definition session_matches :: "'t cluster_session \<Rightarrow> group_devices option \<Rightarrow> bool" where
  "session_matches s dev \<longleftrightarrow>
    membership_ok (s_membership s)
    \<and> (mem_allowed (s_membership s) = {||}
       \<or> (\<exists>st. dev = Some st \<and> mem_allowed (s_membership s) =
            allowed_set (effective_roster (gd_roster st) (gd_registry st))))"

definition shared_ok :: "rstr fset \<Rightarrow> bool" where
  "shared_ok S \<longleftrightarrow> fcard S \<le> MAX_SHARED_FILES \<and> fBall S is_valid_cid"

definition group_ok :: "rstr option \<Rightarrow> rstr
    \<Rightarrow> 't cluster_session option \<times> rstr fset option \<times> group_devices option \<Rightarrow> bool" where
  "group_ok pinned g v \<longleftrightarrow> (case v of (ses, shared, dev) \<Rightarrow>
    (case ses of
       None \<Rightarrow> shared = None
     | Some s \<Rightarrow> trim g \<noteq> [] \<and> (pinned = None \<or> pinned = Some g) \<and> session_matches s dev)
    \<and> (case shared of None \<Rightarrow> True | Some S \<Rightarrow> shared_ok S)
    \<and> (case dev of None \<Rightarrow> True | Some st \<Rightarrow> registry_ok (gd_registry st)))"

definition daemon_ok :: "'t daemon \<Rightarrow> bool" where
  "daemon_ok d \<longleftrightarrow> fcard (fmdom (d_groups d)) \<le> MAX_GROUPS \<and> (\<forall>g. group_ok (d_single d) g (group_view g d))"

lemma daemon_ok_new [simp]: "daemon_ok (daemon_with_factory a)" "daemon_ok (daemon_single_group a p)"
  by (simp_all add: daemon_ok_def daemon_with_factory_def daemon_single_group_def group_ok_def group_view_def)

lemma daemon_ok_groupI:
  assumes "daemon_ok d" and "only_group g d d'"
    and "fmdom (d_groups d') |\<subseteq>| fmdom (d_groups d)" and "group_ok (d_single d) g (group_view g d')"
  shows "daemon_ok d'"
  unfolding daemon_ok_def
proof
  have "fcard (fmdom (d_groups d')) \<le> fcard (fmdom (d_groups d))" using assms(3) by (rule fcard_mono)
  with assms(1) show "fcard (fmdom (d_groups d')) \<le> MAX_GROUPS" by (simp add: daemon_ok_def)
  show "\<forall>h. group_ok (d_single d') h (group_view h d')"
  proof
    fix h
    show "group_ok (d_single d') h (group_view h d')"
      using assms by (cases "h = g") (auto simp: daemon_ok_def only_group_def)
  qed
qed

lemma daemon_ok_group: "daemon_ok d \<Longrightarrow> group_ok (d_single d) g (group_view g d)"
  by (simp add: daemon_ok_def)

lemma put_session_ok:
  assumes "daemon_ok d" and "fmlookup (d_groups d) g = Some s"
    and "mem_allowed (s_membership s') = mem_allowed (s_membership s)" and "membership_ok (s_membership s')"
  shows "daemon_ok (put_session g s' d)"
proof (rule daemon_ok_groupI [OF assms(1) only_group_put_session])
  show "fmdom (d_groups (put_session g s' d)) |\<subseteq>| fmdom (d_groups d)"
    using assms(2) by (auto simp: put_session_def intro: fmdomI)
  show "group_ok (d_single d) g (group_view g (put_session g s' d))"
    using daemon_ok_group [OF assms(1), of g] assms(2-4)
    by (auto simp: group_ok_def group_view_def put_session_def session_matches_def)
qed

lemma put_shared_ok:
  assumes "daemon_ok d" and "fmlookup (d_groups d) g = Some s" and "shared_ok S"
  shows "daemon_ok (d\<lparr>d_shared := fmupd g S (d_shared d)\<rparr>)"
proof (rule daemon_ok_groupI [OF assms(1) only_group_updates(1)])
  show "group_ok (d_single d) g (group_view g (d\<lparr>d_shared := fmupd g S (d_shared d)\<rparr>))"
    using daemon_ok_group [OF assms(1), of g] assms(2,3) by (simp add: group_ok_def group_view_def)
qed simp

lemma put_roster_ok:
  assumes "daemon_ok d" and "fmlookup (d_groups d) g = Some s"
    and "membership_ok (s_membership s')" and "registry_ok reg"
    and "mem_allowed (s_membership s') = allowed_set (effective_roster roster reg)"
  shows "daemon_ok (put_session g s' (d\<lparr>d_devices := fmupd g \<lparr>gd_roster = roster, gd_registry = reg\<rparr> (d_devices d)\<rparr>))"
    (is "daemon_ok ?d")
proof (rule daemon_ok_groupI [OF assms(1)])
  show "only_group g d ?d" using only_group_updates(2) only_group_put_session by (rule only_group_trans)
  show "fmdom (d_groups ?d) |\<subseteq>| fmdom (d_groups d)"
    using assms(2) by (auto simp: put_session_def intro: fmdomI)
  show "group_ok (d_single d) g (group_view g ?d)"
    using daemon_ok_group [OF assms(1), of g] assms
    by (auto simp: group_ok_def group_view_def put_session_def session_matches_def)
qed

lemma leave_ok: "daemon_ok d \<Longrightarrow> daemon_ok (daemon_leave g d)"
proof (rule daemon_ok_groupI [OF _ only_group_updates(3)])
  assume "daemon_ok d"
  from daemon_ok_group [OF this, of g]
  show "group_ok (d_single d) g (group_view g (daemon_leave g d))"
    by (auto simp: group_ok_def group_view_def daemon_leave_def split: option.splits)
qed (auto simp: daemon_leave_def)

lemma daemon_ok_session:
  "daemon_ok d \<Longrightarrow> fmlookup (d_groups d) g = Some s \<Longrightarrow> membership_ok (s_membership s)"
  using daemon_ok_group [of d g] by (simp add: group_ok_def group_view_def session_matches_def)

lemma daemon_ok_shared: "daemon_ok d \<Longrightarrow> shared_ok (fm_get_or {||} (d_shared d) g)"
  using daemon_ok_group [of d g]
  by (auto simp: group_ok_def group_view_def fm_get_or_def shared_ok_def split: option.splits)

lemma daemon_ok_registry: "daemon_ok d \<Longrightarrow> registry_ok (gd_registry (fm_get_or group_devices_default (d_devices d) g))"
  using daemon_ok_group [of d g]
  by (auto simp: group_ok_def group_view_def fm_get_or_def group_devices_default_def registry_ok_new split: option.splits)

text \<open>What \<open>ensure_session\<close> leaves behind.\<close>

lemma ensure_session_Ok:
  "ensure_session mk g d = (Ok s, d') \<Longrightarrow>
    fmlookup (d_groups d') g = Some s
    \<and> (d' = d \<or> (\<exists>t. mk g = Ok t \<and> s = session_new [] t \<and> d' = put_session g s d
          \<and> g |\<notin>| fmdom (d_groups d) \<and> trim g \<noteq> [] \<and> fcard (fmdom (d_groups d)) < MAX_GROUPS))"
  by (auto simp: ensure_session_def Let_def put_session_def ok_or_def not_le
      split: if_splits option.splits sum.splits)

lemma ensure_session_Err: "ensure_session mk g d = (Err e, d') \<Longrightarrow> d' = d"
  by (auto simp: ensure_session_def Let_def put_session_def ok_or_def split: if_splits option.splits sum.splits)

lemma ensure_session_again:
  "fmlookup (d_groups d) g = Some s \<Longrightarrow> ensure_session mk g d = (Ok s, d)"
  by (simp add: ensure_session_def fmdomI)

lemma ensure_group_allowed_Ok: "ensure_group_allowed g d = Ok () \<longleftrightarrow> d_single d = None \<or> d_single d = Some g"
  by (auto simp: ensure_group_allowed_def split: option.splits)

lemma ensure_session_ok:
  assumes "daemon_ok d" and "d_single d = None \<or> d_single d = Some g"
  shows "daemon_ok (snd (ensure_session mk g d))"
proof (cases "ensure_session mk g d")
  case (Pair r d')
  show ?thesis
  proof (cases r)
    case (Inl e)
    with Pair assms(1) show ?thesis by (auto dest: ensure_session_Err)
  next
    case (Inr s)
    from ensure_session_Ok [OF Pair [unfolded Inr]] consider "d' = d"
      | t where "s = session_new [] t" "d' = put_session g s d" "g |\<notin>| fmdom (d_groups d)" "trim g \<noteq> []"
        "fcard (fmdom (d_groups d)) < MAX_GROUPS" by blast
    then show ?thesis
    proof cases
      case 2
      have "group_ok (d_single d) h (group_view h d')" for h
        using daemon_ok_group [OF assms(1), of h] daemon_ok_group [OF assms(1), of g] assms(2) 2
        by (auto simp: group_ok_def group_view_def put_session_def session_matches_def session_simps
            membership_simps fmlookup_None_iff [symmetric])
      moreover have "fcard (fmdom (d_groups d')) \<le> MAX_GROUPS"
        using 2 by (simp add: put_session_def fcard_finsert_disjoint)
      moreover have "d_single d' = d_single d" using 2 by (simp add: put_session_def)
      ultimately show ?thesis by (simp add: Pair daemon_ok_def)
    qed (simp add: Pair assms(1))
  qed
qed

subsection \<open>The operations keep the invariant\<close>

named_theorems daemon_keeps \<open>operations that keep the invariant\<close>

lemma sync_admission_ok [daemon_keeps]: "daemon_ok d \<Longrightarrow> daemon_ok (sync_admission T g d)"
  by (auto simp: sync_admission_def session_simps membership_simps split: option.splits
      intro!: put_session_ok membership_ok_sync dest: daemon_ok_session)

lemma sync_admission_fields [simp]:
  "d_shared (sync_admission T g d) = d_shared d" "d_devices (sync_admission T g d) = d_devices d"
  "d_self (sync_admission T g d) = d_self d" "d_single (sync_admission T g d) = d_single d"
  by (simp_all add: sync_admission_def put_session_def split: option.splits)

lemma shared_ok_insert: "shared_ok S \<Longrightarrow> is_valid_cid (msg_data m) \<Longrightarrow> shared_ok (insert_shared m S)"
  using fcard_finsert_bound [of "msg_data m" S]
  by (auto simp: insert_shared_def shared_ok_def intro: order_trans)

lemma shared_ok_fold:
  "shared_ok S \<Longrightarrow> \<forall>m\<in>set ms. is_valid_cid (msg_data m) \<Longrightarrow> shared_ok (fold insert_shared ms S)"
  by (induction ms arbitrary: S) (simp_all add: shared_ok_insert)

lemma put_session_lookup [simp]: "fmlookup (d_groups (put_session g s d)) g = Some s"
  by (simp add: put_session_def)

lemma put_session_fields [simp]:
  "d_shared (put_session g s d) = d_shared d" "d_devices (put_session g s d) = d_devices d"
  "d_self (put_session g s d) = d_self d" "d_single (put_session g s d) = d_single d"
  by (simp_all add: put_session_def)

lemma drain_into_shared_ok [daemon_keeps]:
  assumes "daemon_ok d"
  shows "daemon_ok (snd (drain_into_shared T g d))"
proof (cases "fmlookup (d_groups d) g")
  case (Some s)
  obtain received t where r: "tr_drain T (s_transport s) = (received, t)" by fastforce
  let ?ms = "filter (\<lambda>m. is_valid_cid (msg_data m)) received"
  let ?d1 = "put_session g (s\<lparr>s_transport := t\<rparr>) d"
  have ok1: "daemon_ok ?d1"
    by (rule put_session_ok [OF assms Some]) (simp_all add: daemon_ok_session [OF assms Some])
  then have "shared_ok (fold insert_shared ?ms (fm_get_or {||} (d_shared ?d1) g))"
    by (intro shared_ok_fold daemon_ok_shared) auto
  then have "daemon_ok (?d1\<lparr>d_shared := fmupd g (fold insert_shared ?ms (fm_get_or {||} (d_shared ?d1) g)) (d_shared ?d1)\<rparr>)"
    by (rule put_shared_ok [OF ok1 put_session_lookup])
  with ok1 show ?thesis unfolding drain_into_shared_def by (simp add: Some r Let_def)
qed (simp add: drain_into_shared_def assms)

text \<open>The session after a roster change.\<close>

definition roster_session :: "('t, 'z) mesh_transport_scheme \<Rightarrow> roster \<Rightarrow> 't cluster_session \<Rightarrow> 't cluster_session" where
  "roster_session T roster s =
    \<lparr>s_membership = snd (membership_reconcile roster (s_membership s)),
     s_transport =
       fold (tr_authorize T) (sorted_list_of_fset (allowed_set roster))
        (fold (tr_disconnect T) (sorted_list_of_fset (mem_allowed (s_membership s) |-| allowed_set roster))
         (fold (tr_disconnect T) (sorted_list_of_fset (mem_admitted (s_membership s) |-| allowed_set roster))
           (s_transport s)))\<rparr>"

lemma fset_of_sorted_list [simp]: "fset_of_list (sorted_list_of_fset A) = A"
  by (simp add: fset_eq_iff fset_of_list_elem)

lemma filter_notin: "filter (\<lambda>a. a |\<notin>| B) (sorted_list_of_fset A) = sorted_list_of_fset (A |-| B)"
proof -
  have "ffilter (\<lambda>a. a |\<notin>| B) A = A |-| B" by auto
  then show ?thesis by (simp add: filter_sorted_list_of_fset)
qed

lemma apply_roster_session:
  assumes "fmlookup (d_groups d) g = Some s"
  shows "apply_roster T mk g roster d =
    (Ok (sorted_list_of_fset (mem_admitted (s_membership s) |-| allowed_set roster)),
     put_session g (roster_session T roster s) d)"
proof -
  obtain evicted s1 where r: "session_reconcile T roster s = (evicted, s1)" by fastforce
  have s1: "s_membership s1 = snd (membership_reconcile roster (s_membership s))"
      "s_transport s1 = fold (tr_disconnect T) evicted (s_transport s)"
    and ev: "evicted = sorted_list_of_fset (mem_admitted (s_membership s) |-| allowed_set roster)"
    using session_reconcile_simps [of T roster s] membership_reconcile_evicted [of roster "s_membership s"]
    by (simp_all add: r)
  have al: "membership_allowed (s_membership s1) = sorted_list_of_fset (allowed_set roster)"
    by (simp add: membership_allowed_def s1 membership_simps)
  have "s1\<lparr>s_transport := X\<rparr> = \<lparr>s_membership = snd (membership_reconcile roster (s_membership s)), s_transport = X\<rparr>" for X
    by (simp add: s1(1) [symmetric])
  then show ?thesis
    by (simp add: apply_roster_def ensure_session_again [OF assms] r Let_def al s1(2) ev
        membership_allowed_def [of "s_membership s"] filter_notin roster_session_def)
qed

lemma roster_session_membership [simp]:
  "s_membership (roster_session T roster s) = snd (membership_reconcile roster (s_membership s))"
  by (simp add: roster_session_def)

text \<open>A roster update succeeds or leaves the daemon as it was.\<close>

lemma set_roster_Err:
  assumes "set_roster_with_devices T mk V g roster links revocations d = (Err e, d')"
  shows "d' = d"
proof (cases "ensure_session mk g d")
  case (Pair r d1)
  show ?thesis
  proof (cases r)
    case (Inl e1)
    with Pair assms ensure_session_Err show ?thesis
      by (fastforce simp: set_roster_with_devices_def split: sum.splits)
  next
    case (Inr s)
    from ensure_session_Ok [OF Pair [unfolded Inr]] have "fmlookup (d_groups d1) g = Some s" by simp
    then show ?thesis using assms Pair Inr
      by (auto simp: set_roster_with_devices_def Let_def apply_roster_session split: sum.splits prod.splits)
  qed
qed

lemma set_roster_Ok:
  assumes "set_roster_with_devices T mk V g roster links revocations d = (Ok (evicted, rejected), d')"
  obtains s d1 reg where "ensure_session mk g d = (Ok s, d1)" and "d_single d = None \<or> d_single d = Some g"
    and "reg = snd (registry_update V (map signed_link_of_wire links) (map signed_revocation_of_wire revocations)
           (gd_registry (fm_get_or group_devices_default (d_devices d1) g)))"
    and "d' = put_session g (roster_session T (effective_roster roster reg) s)
           (d1\<lparr>d_devices := fmupd g \<lparr>gd_roster = roster, gd_registry = reg\<rparr> (d_devices d1)\<rparr>)"
    and "evicted = sorted_list_of_fset (mem_admitted (s_membership s) |-| allowed_set (effective_roster roster reg))"
proof -
  obtain r d1 where e: "ensure_session mk g d = (r, d1)" by fastforce
  have al: "ensure_group_allowed g d = Ok ()"
    using assms by (auto simp: set_roster_with_devices_def split: sum.splits)
  obtain s where s: "r = Ok s"
    using assms al e by (cases r) (auto simp: set_roster_with_devices_def)
  obtain rej reg where u: "registry_update V (map signed_link_of_wire links)
      (map signed_revocation_of_wire revocations) (gd_registry (fm_get_or group_devices_default (d_devices d1) g)) = (rej, reg)"
    by fastforce
  have l: "fmlookup (d_groups d1) g = Some s" using ensure_session_Ok [OF e [unfolded s]] by simp
  show thesis
  proof (rule that)
    show "ensure_session mk g d = (Ok s, d1)" by (simp add: e s)
    show "d_single d = None \<or> d_single d = Some g" using al by (simp add: ensure_group_allowed_Ok)
    show "reg = snd (registry_update V (map signed_link_of_wire links) (map signed_revocation_of_wire revocations)
           (gd_registry (fm_get_or group_devices_default (d_devices d1) g)))" by (simp add: u)
  qed (use assms al e s u l in \<open>auto simp: set_roster_with_devices_def Let_def apply_roster_session\<close>)
qed

lemma set_roster_with_devices_ok [daemon_keeps]:
  assumes "daemon_ok d"
  shows "daemon_ok (snd (set_roster_with_devices T mk V g roster links revocations d))"
proof (cases "set_roster_with_devices T mk V g roster links revocations d")
  case (Pair r d')
  show ?thesis
  proof (cases r)
    case (Inl e)
    with Pair assms show ?thesis by (auto dest: set_roster_Err)
  next
    case (Inr er)
    obtain evicted rejected where "er = (evicted, rejected)" by fastforce
    with Pair Inr have "set_roster_with_devices T mk V g roster links revocations d = (Ok (evicted, rejected), d')"
      by simp
    then obtain s d1 reg where e: "ensure_session mk g d = (Ok s, d1)" and p: "d_single d = None \<or> d_single d = Some g"
      and reg: "reg = snd (registry_update V (map signed_link_of_wire links) (map signed_revocation_of_wire revocations)
           (gd_registry (fm_get_or group_devices_default (d_devices d1) g)))"
      and d': "d' = put_session g (roster_session T (effective_roster roster reg) s)
           (d1\<lparr>d_devices := fmupd g \<lparr>gd_roster = roster, gd_registry = reg\<rparr> (d_devices d1)\<rparr>)"
      by (rule set_roster_Ok)
    have ok1: "daemon_ok d1" using ensure_session_ok [OF assms p, of mk] by (simp add: e)
    have l: "fmlookup (d_groups d1) g = Some s" using ensure_session_Ok [OF e] by simp
    have "daemon_ok d'" unfolding d'
    proof (rule put_roster_ok [OF ok1 l])
      show "registry_ok reg" unfolding reg by (rule registry_ok_update) (rule daemon_ok_registry [OF ok1])
      show "membership_ok (s_membership (roster_session T (effective_roster roster reg) s))"
        using daemon_ok_session [OF ok1 l] by (simp add: membership_ok_reconcile)
      show "mem_allowed (s_membership (roster_session T (effective_roster roster reg) s)) =
          allowed_set (effective_roster roster reg)" by (simp add: membership_simps)
    qed
    then show ?thesis by (simp add: Pair)
  qed
qed

lemma daemon_join_ok [daemon_keeps]: "daemon_ok d \<Longrightarrow> daemon_ok (snd (daemon_join mk g d))"
  using ensure_session_ok [of d g mk] ensure_group_allowed_Ok [of g d]
  by (auto simp: daemon_join_def split: sum.splits prod.splits)

lemma add_seed_ok [daemon_keeps]: "daemon_ok d \<Longrightarrow> daemon_ok (snd (add_seed T g text d))"
  by (auto simp: add_seed_def split: sum.splits option.splits prod.splits
      intro!: put_session_ok dest: daemon_ok_session)

lemma daemon_status_ok [daemon_keeps]: "daemon_ok d \<Longrightarrow> daemon_ok (snd (daemon_status T g d))"
  by (simp add: daemon_status_def Let_def daemon_keeps)

lemma daemon_peers_ok [daemon_keeps]: "daemon_ok d \<Longrightarrow> daemon_ok (snd (daemon_peers T g d))"
  by (simp add: daemon_peers_def Let_def daemon_keeps)

lemma daemon_devices_ok [daemon_keeps]: "daemon_ok d \<Longrightarrow> daemon_ok (snd (daemon_devices T g d))"
  by (simp add: daemon_devices_def Let_def daemon_keeps)

lemma daemon_poll_ok [daemon_keeps]: "daemon_ok d \<Longrightarrow> daemon_ok (snd (daemon_poll T g d))"
  by (simp add: daemon_poll_def daemon_keeps)

lemma shared_files_page_ok [daemon_keeps]: "daemon_ok d \<Longrightarrow> daemon_ok (snd (shared_files_page T g offset limit d))"
  by (simp add: shared_files_page_def Let_def daemon_keeps)

lemma share_file_ok [daemon_keeps]:
  assumes "daemon_ok d"
  shows "daemon_ok (snd (share_file T g cid d))"
proof (cases "fmlookup (d_groups d) g")
  case (Some s)
  let ?S = "fm_get_or {||} (d_shared d) g"
  have S: "shared_ok ?S" using assms by (rule daemon_ok_shared)
  let ?d1 = "d\<lparr>d_shared := fmupd g ?S (d_shared d)\<rparr>"
  let ?d2 = "put_session g (s\<lparr>s_transport := tr_publish T (d_self d) cid (s_transport s)\<rparr>) ?d1"
  have ok1: "daemon_ok ?d1" by (rule put_shared_ok [OF assms Some S])
  have ok2: "daemon_ok ?d2"
    by (rule put_session_ok [OF ok1, of _ s]) (simp_all add: Some daemon_ok_session [OF assms Some])
  have "daemon_ok (?d2\<lparr>d_shared := fmupd g (finsert cid ?S) (d_shared ?d2)\<rparr>)"
    if "is_valid_cid cid" "\<not> (cid |\<notin>| ?S \<and> MAX_SHARED_FILES \<le> fcard ?S)"
  proof (rule put_shared_ok [OF ok2 put_session_lookup])
    show "shared_ok (finsert cid ?S)"
      using S that fcard_finsert_bound [of cid ?S]
      by (auto simp: shared_ok_def not_le finsert_absorb intro: order_trans)
  qed
  then show ?thesis using ok1 assms by (auto simp: share_file_def Some Let_def)
qed (simp add: share_file_def assms)

lemma admit_peer_ok [daemon_keeps]:
  assumes "daemon_ok d"
  shows "daemon_ok (snd (admit_peer T mk g address role d))"
proof (cases "d_single d = None \<or> d_single d = Some g")
  case True
  then have a: "ensure_group_allowed g d = Ok ()" by (simp add: ensure_group_allowed_Ok)
  obtain r d1 where e: "ensure_session mk g d = (r, d1)" by fastforce
  have ok1: "daemon_ok d1" using ensure_session_ok [OF assms True, of mk] by (simp add: e)
  show ?thesis
  proof (cases r)
    case (Inr s)
    then have l: "fmlookup (d_groups d1) g = Some s" using ensure_session_Ok e by blast
    obtain b s1 where j: "session_join T address role s = (b, s1)" by fastforce
    have "s_membership s1 = snd (membership_join address role (s_membership s))"
      using session_join_simps(2) [of T address role s] by (simp add: j)
    then have "daemon_ok (put_session g s1 d1)"
      by (intro put_session_ok [OF ok1 l])
        (simp_all add: membership_simps membership_ok_join daemon_ok_session [OF ok1 l])
    then show ?thesis by (simp add: admit_peer_def a e Inr j)
  qed (simp add: admit_peer_def a e ok1)
next
  case False
  then show ?thesis using assms by (auto simp: admit_peer_def ensure_group_allowed_def split: option.splits)
qed

lemma drop_peer_ok [daemon_keeps]: "daemon_ok d \<Longrightarrow> daemon_ok (drop_peer T g address d)"
  by (auto simp: drop_peer_def session_simps membership_simps membership_ok_leave split: option.splits
      intro!: put_session_ok dest: daemon_ok_session)

lemmas leave_keeps [daemon_keeps] = leave_ok

end
