(* ===== verification/Ipc.thy ===== *)
theory Ipc
  imports Daemon_Inv
begin

section \<open>Requests, responses and runs of the daemon\<close>

text \<open>
  \<open>crates/cluster-daemon/src/ipc.rs\<close>: the requests a client sends and \<open>handle_request\<close>, which maps
  each onto the daemon. A run of the daemon is a list of events: requests, the two hooks of the
  transport, and steps of a group's transport on its own, which are arbitrary functions of its state.
  The properties hold of every run, whatever the transports do in between.
\<close>

datatype request =
    ReqSetRoster rstr roster "device_link_wire list" "revocation_wire list"
  | ReqDevices rstr
  | ReqJoin rstr
  | ReqLeave rstr
  | ReqStatus rstr
  | ReqPeers rstr
  | ReqShareFile rstr rstr
  | ReqPoll rstr
  | ReqSharedFiles rstr nat "nat option"
  | ReqSeed rstr
  | ReqAddSeed rstr rstr

datatype response =
    RespOk
  | RespReconciled "rstr list" "rstr list"
  | RespDevices "member_devices_wire list"
  | RespStatus nat nat "rstr list"
  | RespPeers "peer_view list"
  | RespMessages "mesh_message list"
  | RespSharedFiles "rstr list" nat nat
  | RespSeed rstr "rstr list"
  | RespSeeded nat
  | RespError daemon_error

definition respond :: "('a \<Rightarrow> response) \<Rightarrow> (daemon_error + 'a) \<times> 'd \<Rightarrow> response \<times> 'd" where
  "respond f r = (case r of (Err e, d) \<Rightarrow> (RespError e, d) | (Ok x, d) \<Rightarrow> (f x, d))"

fun handle_request ::
  "('t, 'z) mesh_transport_scheme \<Rightarrow> 't transport_factory \<Rightarrow> link_verifier \<Rightarrow> request \<Rightarrow> 't daemon
    \<Rightarrow> response \<times> 't daemon" where
  "handle_request T mk V (ReqSetRoster grp roster devices revocations) d =
    respond (\<lambda>(evicted, rejected). RespReconciled evicted rejected)
      (set_roster_with_devices T mk V grp roster devices revocations d)"
| "handle_request T mk V (ReqDevices grp) d =
    (case daemon_devices T grp d of (members, d') \<Rightarrow> (RespDevices members, d'))"
| "handle_request T mk V (ReqJoin grp) d = respond (\<lambda>_. RespOk) (daemon_join mk grp d)"
| "handle_request T mk V (ReqLeave grp) d = (RespOk, daemon_leave grp d)"
| "handle_request T mk V (ReqStatus grp) d =
    (case daemon_status T grp d of ((online, allowed, shared), d') \<Rightarrow> (RespStatus online allowed shared, d'))"
| "handle_request T mk V (ReqPeers grp) d =
    (case daemon_peers T grp d of (peers, d') \<Rightarrow> (RespPeers peers, d'))"
| "handle_request T mk V (ReqShareFile grp cid) d = respond (\<lambda>_. RespOk) (share_file T grp cid d)"
| "handle_request T mk V (ReqPoll grp) d =
    (case daemon_poll T grp d of (messages, d') \<Rightarrow> (RespMessages messages, d'))"
| "handle_request T mk V (ReqSharedFiles grp offset limit) d =
    (case shared_files_page T grp offset
            (case limit of Some l \<Rightarrow> l | None \<Rightarrow> MAX_SHARED_FILES_PAGE) d of
       ((files, n), d') \<Rightarrow> (RespSharedFiles files offset n, d'))"
| "handle_request T mk V (ReqSeed grp) d =
    respond (\<lambda>(seed, addrs). RespSeed seed addrs) (daemon_seed T grp d, d)"
| "handle_request T mk V (ReqAddSeed grp seed) d = respond RespSeeded (add_seed T grp seed d)"

fun request_group :: "request \<Rightarrow> rstr" where
  "request_group (ReqSetRoster grp _ _ _) = grp"
| "request_group (ReqDevices grp) = grp"
| "request_group (ReqJoin grp) = grp"
| "request_group (ReqLeave grp) = grp"
| "request_group (ReqStatus grp) = grp"
| "request_group (ReqPeers grp) = grp"
| "request_group (ReqShareFile grp _) = grp"
| "request_group (ReqPoll grp) = grp"
| "request_group (ReqSharedFiles grp _ _) = grp"
| "request_group (ReqSeed grp) = grp"
| "request_group (ReqAddSeed grp _) = grp"

subsection \<open>Runs\<close>

datatype 't daemon_event =
    EvRequest "'t transport_factory" request
  | EvTransport rstr "'t \<Rightarrow> 't"
  | EvAdmit "'t transport_factory" rstr rstr rstr
  | EvDrop rstr rstr

definition transport_moves :: "rstr \<Rightarrow> ('t \<Rightarrow> 't) \<Rightarrow> 't daemon \<Rightarrow> 't daemon" where
  "transport_moves grp f d =
    (case fmlookup (d_groups d) grp of
       Some s \<Rightarrow> put_session grp (s\<lparr>s_transport := f (s_transport s)\<rparr>) d
     | None \<Rightarrow> d)"

fun daemon_step ::
  "('t, 'z) mesh_transport_scheme \<Rightarrow> link_verifier \<Rightarrow> 't daemon_event \<Rightarrow> 't daemon \<Rightarrow> 't daemon" where
  "daemon_step T V (EvRequest mk req) d = snd (handle_request T mk V req d)"
| "daemon_step T V (EvTransport grp f) d = transport_moves grp f d"
| "daemon_step T V (EvAdmit mk grp address role) d = snd (admit_peer T mk grp address role d)"
| "daemon_step T V (EvDrop grp address) d = drop_peer T grp address d"

definition daemon_run ::
  "('t, 'z) mesh_transport_scheme \<Rightarrow> link_verifier \<Rightarrow> 't daemon_event list \<Rightarrow> 't daemon \<Rightarrow> 't daemon" where
  "daemon_run T V evs d = fold (daemon_step T V) evs d"

lemma daemon_run_append: "daemon_run T V (evs @ evs') d = daemon_run T V evs' (daemon_run T V evs d)"
  by (simp add: daemon_run_def)

lemma snd_respond [simp]: "snd (respond f r) = snd r"
  by (auto simp: respond_def split: prod.splits sum.splits)

text \<open>The state a request leaves, whatever its answer.\<close>

lemma handle_request_state:
  "snd (handle_request T mk V req d) =
    (case req of
       ReqSetRoster g roster links revs \<Rightarrow> snd (set_roster_with_devices T mk V g roster links revs d)
     | ReqDevices g \<Rightarrow> snd (daemon_devices T g d)
     | ReqJoin g \<Rightarrow> snd (daemon_join mk g d)
     | ReqLeave g \<Rightarrow> daemon_leave g d
     | ReqStatus g \<Rightarrow> snd (daemon_status T g d)
     | ReqPeers g \<Rightarrow> snd (daemon_peers T g d)
     | ReqShareFile g cid \<Rightarrow> snd (share_file T g cid d)
     | ReqPoll g \<Rightarrow> snd (daemon_poll T g d)
     | ReqSharedFiles g off lim \<Rightarrow>
         snd (shared_files_page T g off (case lim of Some n \<Rightarrow> n | None \<Rightarrow> MAX_SHARED_FILES_PAGE) d)
     | ReqSeed g \<Rightarrow> d
     | ReqAddSeed g text \<Rightarrow> snd (add_seed T g text d))"
  by (cases req) (auto split: prod.splits)

lemma handle_request_frame: "only_group (request_group req) d (snd (handle_request T mk V req d))"
  unfolding handle_request_state by (cases req) (simp_all add: daemon_frame)

lemma transport_moves_frame: "only_group g d (transport_moves g f d)"
  by (simp add: transport_moves_def split: option.splits)

lemma transport_moves_ok: "daemon_ok d \<Longrightarrow> daemon_ok (transport_moves g f d)"
  by (auto simp: transport_moves_def split: option.splits intro!: put_session_ok dest: daemon_ok_session)

lemma handle_request_ok: "daemon_ok d \<Longrightarrow> daemon_ok (snd (handle_request T mk V req d))"
  unfolding handle_request_state by (cases req) (simp_all add: daemon_keeps)

lemma daemon_step_ok: "daemon_ok d \<Longrightarrow> daemon_ok (daemon_step T V ev d)"
  by (cases ev) (simp_all add: handle_request_ok transport_moves_ok daemon_keeps)

lemma daemon_run_ok: "daemon_ok d \<Longrightarrow> daemon_ok (daemon_run T V evs d)"
  unfolding daemon_run_def by (induction evs arbitrary: d) (simp_all add: daemon_step_ok)

fun event_group :: "'t daemon_event \<Rightarrow> rstr" where
  "event_group (EvRequest _ req) = request_group req"
| "event_group (EvTransport g _) = g"
| "event_group (EvAdmit _ g _ _) = g"
| "event_group (EvDrop g _) = g"

lemma daemon_step_frame: "only_group (event_group ev) d (daemon_step T V ev d)"
  by (cases ev) (simp_all add: handle_request_frame transport_moves_frame daemon_frame)

lemma daemon_run_single: "d_single (daemon_run T V evs d) = d_single d"
proof -
  have "d_single (daemon_step T V ev d) = d_single d" for ev d
    using daemon_step_frame [of ev d T V] by (simp add: only_group_def)
  then show ?thesis unfolding daemon_run_def by (induction evs arbitrary: d) simp_all
qed

subsection \<open>Device state across events\<close>

text \<open>Only \<open>SetRoster\<close> changes the device state, and it only ever adds revocations.\<close>

definition revoked_of :: "rstr \<Rightarrow> 't daemon \<Rightarrow> (rstr \<times> rstr) fset" where
  "revoked_of g d = reg_revoked (gd_registry (fm_get_or group_devices_default (d_devices d) g))"

lemma drain_devices [simp]: "d_devices (snd (drain_into_shared T g d)) = d_devices d"
  by (simp add: drain_into_shared_def Let_def split: option.splits prod.splits)

lemma ensure_session_devices [simp]: "d_devices (snd (ensure_session mk g d)) = d_devices d"
  by (simp add: ensure_session_def Let_def split: sum.splits)

lemma ensure_session_devicesD: "ensure_session mk g d = (r, d') \<Longrightarrow> d_devices d' = d_devices d"
  by (metis ensure_session_devices snd_conv)

lemma set_roster_revoked:
  "revoked_of h d |\<subseteq>| revoked_of h (snd (set_roster_with_devices T mk V g roster links revs d))"
proof (cases "set_roster_with_devices T mk V g roster links revs d")
  case (Pair r d')
  show ?thesis
  proof (cases r)
    case (Inl e)
    with Pair show ?thesis by (auto dest: set_roster_Err)
  next
    case (Inr er)
    obtain evicted rejected where "er = (evicted, rejected)" by fastforce
    with Pair Inr have "set_roster_with_devices T mk V g roster links revs d = (Ok (evicted, rejected), d')" by simp
    then obtain s d1 reg where e: "ensure_session mk g d = (Ok s, d1)"
      and reg: "reg = snd (registry_update V (map signed_link_of_wire links) (map signed_revocation_of_wire revs)
           (gd_registry (fm_get_or group_devices_default (d_devices d1) g)))"
      and d': "d' = put_session g (roster_session T (effective_roster roster reg) s)
           (d1\<lparr>d_devices := fmupd g \<lparr>gd_roster = roster, gd_registry = reg\<rparr> (d_devices d1)\<rparr>)"
      by (rule set_roster_Ok)
    have d1: "d_devices d1 = d_devices d" using e by (rule ensure_session_devicesD)
    show ?thesis
    proof (cases "h = g")
      case True
      have "reg_revoked (gd_registry (fm_get_or group_devices_default (d_devices d1) g)) |\<subseteq>| reg_revoked reg"
        unfolding reg by (auto simp: registry_update_revoked_member)
      with True show ?thesis by (simp add: Pair d' revoked_of_def d1)
    next
      case False
      then show ?thesis by (simp add: Pair d' revoked_of_def d1)
    qed
  qed
qed

lemma handle_request_devices:
  "(\<forall>g roster links revs. req \<noteq> ReqSetRoster g roster links revs) \<Longrightarrow>
    d_devices (snd (handle_request T mk V req d)) = d_devices d"
  unfolding handle_request_state
  by (cases req)
    (auto simp: daemon_devices_def daemon_join_def daemon_leave_def daemon_status_def daemon_peers_def
      share_file_def daemon_poll_def shared_files_page_def add_seed_def Let_def
      split: sum.splits option.splits prod.splits dest: arg_cong [where f = "d_devices \<circ> snd"])

lemma daemon_step_revoked: "revoked_of g d |\<subseteq>| revoked_of g (daemon_step T V ev d)"
proof (cases ev)
  case (EvRequest mk req)
  show ?thesis
  proof (cases "\<exists>h roster links revs. req = ReqSetRoster h roster links revs")
    case True
    then obtain h roster links revs where "req = ReqSetRoster h roster links revs" by blast
    then show ?thesis using set_roster_revoked EvRequest by (simp add: handle_request_state)
  next
    case False
    then have "d_devices (snd (handle_request T mk V req d)) = d_devices d" by (intro handle_request_devices) blast
    with EvRequest show ?thesis by (simp add: revoked_of_def)
  qed
next
  case (EvTransport h f)
  then show ?thesis by (simp add: transport_moves_def revoked_of_def split: option.splits)
next
  case (EvAdmit mk h address role)
  have "d_devices (snd (admit_peer T mk h address role d)) = d_devices d"
    by (auto simp: admit_peer_def dest: ensure_session_devicesD split: sum.splits prod.splits)
  with EvAdmit show ?thesis by (simp add: revoked_of_def)
next
  case (EvDrop h address)
  then show ?thesis by (simp add: drop_peer_def revoked_of_def split: option.splits)
qed

lemma daemon_run_revoked: "revoked_of g d |\<subseteq>| revoked_of g (daemon_run T V evs d)"
  unfolding daemon_run_def
proof (induction evs arbitrary: d)
  case (Cons ev evs)
  have "revoked_of g d |\<subseteq>| revoked_of g (daemon_step T V ev d)" by (rule daemon_step_revoked)
  also have "\<dots> |\<subseteq>| revoked_of g (fold (daemon_step T V) evs (daemon_step T V ev d))" by (rule Cons.IH)
  finally show ?case by simp
qed simp

subsection \<open>Properties of the daemon\<close>

text \<open>C30. Whatever its clients and transports do, a daemon serves at most \<open>MAX_GROUPS\<close> groups, and one
  that is pinned to a group serves no other.\<close>

theorem daemon_group_bound:
  "length (daemon_groups (daemon_run T V evs (daemon_with_factory a))) \<le> MAX_GROUPS
   \<and> set (daemon_groups (daemon_run T V evs (daemon_single_group a p))) \<subseteq> {p}"
proof
  let ?d1 = "daemon_run T V evs (daemon_with_factory a)" and ?d2 = "daemon_run T V evs (daemon_single_group a p)"
  have ok1: "daemon_ok ?d1" by (rule daemon_run_ok) simp
  have ok2: "daemon_ok ?d2" by (rule daemon_run_ok) simp
  from ok1 show "length (daemon_groups ?d1) \<le> MAX_GROUPS" by (simp add: daemon_groups_def daemon_ok_def)
  have "d_single ?d2 = Some p" by (simp add: daemon_run_single daemon_single_group_def)
  then have "g = p" if "fmlookup (d_groups ?d2) g = Some s" for g s
    using daemon_ok_group [OF ok2, of g] that by (simp add: group_ok_def group_view_def)
  then show "set (daemon_groups ?d2) \<subseteq> {p}" by (auto simp: daemon_groups_def fmlookup_dom_iff)
qed

text \<open>C31. The shared set of every group holds well-formed content ids only, and at most
  \<open>MAX_SHARED_FILES\<close> of them, whatever the peers send.\<close>

theorem daemon_shared_bounded:
  "let S = fm_get_or {||} (d_shared (daemon_run T V evs (daemon_with_factory a))) g
   in fcard S \<le> MAX_SHARED_FILES \<and> fset S \<subseteq> Collect is_valid_cid"
proof -
  have "daemon_ok (daemon_run T V evs (daemon_with_factory a))" by (rule daemon_run_ok) simp
  from daemon_ok_shared [OF this, of g] show ?thesis by (auto simp: Let_def shared_ok_def)
qed

text \<open>C28. Groups are isolated: an event changes the session, the shared set and the device state of the
  group it addresses and of no other, and never the daemon's address or its pin.\<close>

theorem daemon_groups_isolated:
  "(h = event_group ev \<or> group_view h (daemon_step T V ev d) = group_view h d)
   \<and> d_self (daemon_step T V ev d) = d_self d \<and> d_single (daemon_step T V ev d) = d_single d"
  using daemon_step_frame [of ev d T V] by (auto simp: only_group_def)

text \<open>C1. In every session of every run of the daemon, the admitted peers are among the allowed ones, and
  the allowed ones are those of the effective roster of the group's last member roster and device
  registry (none before the first roster of the session).\<close>

theorem daemon_admission_sound:
  assumes "fmlookup (d_groups (daemon_run T V evs (daemon_with_factory a))) g = Some s"
  shows "mem_admitted (s_membership s) |\<subseteq>| mem_allowed (s_membership s)
    \<and> (mem_allowed (s_membership s) = {||}
       \<or> (\<exists>st. fmlookup (d_devices (daemon_run T V evs (daemon_with_factory a))) g = Some st
            \<and> mem_allowed (s_membership s) = allowed_set (effective_roster (gd_roster st) (gd_registry st))))"
proof -
  have "daemon_ok (daemon_run T V evs (daemon_with_factory a))" by (rule daemon_run_ok) simp
  from daemon_ok_group [OF this, of g] assms show ?thesis
    by (simp add: group_ok_def group_view_def session_matches_def membership_ok_def invariant_holds_def)
qed

text \<open>C11. A revocation outlives everything: once a group's registry has recorded that a member revoked a
  device, no later events, leaving and joining the group again included, put the device back into the
  allowed set of that group as a device of that member. It is there only as a member of the roster
  itself, or through an active link of another member.\<close>

theorem daemon_revocation_permanent:
  assumes "(m, dv) |\<in>| revoked_of g (daemon_run T V evs (daemon_with_factory a))"
    and "fmlookup (d_groups (daemon_run T V (evs @ evs') (daemon_with_factory a))) g = Some s"
    and "dv |\<in>| mem_allowed (s_membership s)"
  shows "\<exists>st. fmlookup (d_devices (daemon_run T V (evs @ evs') (daemon_with_factory a))) g = Some st
    \<and> (m, dv) |\<in>| reg_revoked (gd_registry st)
    \<and> (dv |\<in>| allowed_set (gd_roster st)
       \<or> (\<exists>m'. m' \<noteq> m \<and> registry_member_of dv (gd_registry st) = Some m'))"
proof -
  let ?d = "daemon_run T V (evs @ evs') (daemon_with_factory a)"
  have ok: "daemon_ok ?d" by (rule daemon_run_ok) simp
  from daemon_ok_group [OF ok, of g] assms(2,3) obtain st where
    st: "fmlookup (d_devices ?d) g = Some st" and reg: "registry_ok (gd_registry st)"
    and al: "dv |\<in>| allowed_set (effective_roster (gd_roster st) (gd_registry st))"
    by (auto simp: group_ok_def group_view_def session_matches_def)
  have "revoked_of g (daemon_run T V evs (daemon_with_factory a)) |\<subseteq>| revoked_of g ?d"
    unfolding daemon_run_append by (rule daemon_run_revoked)
  with assms(1) st have r: "(m, dv) |\<in>| reg_revoked (gd_registry st)" by (auto simp: revoked_of_def)
  from al consider "dv |\<in>| allowed_set (gd_roster st)" | m' where "live_link (gd_roster st) (gd_registry st) dv m'"
    unfolding effective_allowed_iff [OF reg] by blast
  then show ?thesis
  proof cases
    case 2
    note f = live_link_fields [OF reg 2]
    then have "m' \<noteq> m" using r by blast
    moreover have "registry_member_of dv (gd_registry st) = Some m'"
      using f(1) 2 by (simp add: registry_member_of_canonical live_link_def)
    ultimately show ?thesis using st r by blast
  qed (use st r in blast)
qed

text \<open>C8. A roster update is atomic. It fails and changes nothing, or it records the roster, updates the
  group's registry with the links and revocations, sets the allowed set to that of the effective
  roster, keeps exactly the admitted peers that are still allowed and returns the others.\<close>

theorem set_roster_effect:
  "case set_roster_with_devices T mk V g roster links revs d of
     (Err e, d') \<Rightarrow> d' = d
   | (Ok (evicted, rejected), d') \<Rightarrow>
       (let reg = snd (registry_update V (map signed_link_of_wire links) (map signed_revocation_of_wire revs)
              (gd_registry (fm_get_or group_devices_default (d_devices d) g)));
            allowed = allowed_set (effective_roster roster reg);
            before = (case fmlookup (d_groups d) g of None \<Rightarrow> {||} | Some s \<Rightarrow> mem_admitted (s_membership s))
        in fmlookup (d_devices d') g = Some \<lparr>gd_roster = roster, gd_registry = reg\<rparr>
           \<and> map_option s_membership (fmlookup (d_groups d') g)
             = Some \<lparr>mem_allowed = allowed, mem_admitted = before |\<inter>| allowed\<rparr>
           \<and> evicted = sorted_list_of_fset (before |-| allowed))"
proof (cases "set_roster_with_devices T mk V g roster links revs d")
  case (Pair r d')
  show ?thesis
  proof (cases r)
    case (Inl e)
    with Pair show ?thesis by (auto dest: set_roster_Err)
  next
    case (Inr er)
    obtain evicted rejected where er: "er = (evicted, rejected)" by fastforce
    with Pair Inr have "set_roster_with_devices T mk V g roster links revs d = (Ok (evicted, rejected), d')" by simp
    then obtain s d1 reg where e: "ensure_session mk g d = (Ok s, d1)"
      and reg: "reg = snd (registry_update V (map signed_link_of_wire links) (map signed_revocation_of_wire revs)
           (gd_registry (fm_get_or group_devices_default (d_devices d1) g)))"
      and d': "d' = put_session g (roster_session T (effective_roster roster reg) s)
           (d1\<lparr>d_devices := fmupd g \<lparr>gd_roster = roster, gd_registry = reg\<rparr> (d_devices d1)\<rparr>)"
      and ev: "evicted = sorted_list_of_fset (mem_admitted (s_membership s) |-| allowed_set (effective_roster roster reg))"
      by (rule set_roster_Ok)
    have d1: "d_devices d1 = d_devices d" using e by (rule ensure_session_devicesD)
    have before: "(case fmlookup (d_groups d) g of None \<Rightarrow> {||} | Some s \<Rightarrow> mem_admitted (s_membership s))
        = mem_admitted (s_membership s)"
      using ensure_session_Ok [OF e] by (auto simp: session_simps membership_simps fmlookup_None_iff [symmetric])
    have "s_membership (roster_session T (effective_roster roster reg) s) =
        \<lparr>mem_allowed = allowed_set (effective_roster roster reg),
         mem_admitted = mem_admitted (s_membership s) |\<inter>| allowed_set (effective_roster roster reg)\<rparr>"
      by (rule cluster_membership.equality) (simp_all add: membership_simps)
    with Pair Inr er ev reg d' show ?thesis by (simp add: Let_def before d1)
  qed
qed

subsection \<open>A sample run\<close>

text \<open>
  The group \<open>g\<close> with an owner \<open>a1\<close> and a member \<open>a2\<close>: \<open>a1\<close> revokes the device \<open>d1\<close>, then \<open>a2\<close>
  links it.
\<close>

definition sample_roster :: roster where
  "sample_roster = [(addr_of ''a1'', ''owner''), (addr_of ''a2'', ''member'')]"

definition sample_factory :: "in_process_transport transport_factory" where
  "sample_factory grp = Ok in_process_new"

definition wire_of_signed_link :: "signed_device_link \<Rightarrow> device_link_wire" where
  "wire_of_signed_link s =
    \<lparr>lw_member = dl_member (sl_link s), lw_device = dl_device (sl_link s), lw_wallet = dl_wallet (sl_link s),
     lw_index = dl_index (sl_link s), lw_label = dl_label (sl_link s), lw_issued_at = dl_issued_at (sl_link s),
     lw_member_sig = sl_member_sig s, lw_device_sig = sl_device_sig s, lw_wallet_sig = sl_wallet_sig s\<rparr>"

definition wire_of_signed_revocation :: "signed_revocation \<Rightarrow> revocation_wire" where
  "wire_of_signed_revocation s =
    \<lparr>rw_member = dr_member (sr_revocation s), rw_device = dr_device (sr_revocation s),
     rw_revoked_at = dr_revoked_at (sr_revocation s), rw_member_sig = sr_member_sig s\<rparr>"

lemma of_wire_wire_of [simp]:
  "signed_link_of_wire (wire_of_signed_link s) = s"
  "signed_revocation_of_wire (wire_of_signed_revocation r) = r"
  by (simp_all add: signed_link_of_wire_def wire_of_signed_link_def signed_revocation_of_wire_def
      wire_of_signed_revocation_def)

text \<open>A roster update of a group that has a session.\<close>

lemma set_roster_session:
  assumes "fmlookup (d_groups d) g = Some s" and "d_single d = None"
    and "reg = snd (registry_update V (map signed_link_of_wire links) (map signed_revocation_of_wire revs)
           (gd_registry (fm_get_or group_devices_default (d_devices d) g)))"
  shows "snd (set_roster_with_devices T mk V g roster links revs d) =
    put_session g (roster_session T (effective_roster roster reg) s)
      (d\<lparr>d_devices := fmupd g \<lparr>gd_roster = roster, gd_registry = reg\<rparr> (d_devices d)\<rparr>)"
  using assms ensure_session_again [OF assms(1), of mk]
  by (auto simp: set_roster_with_devices_def ensure_group_allowed_def Let_def apply_roster_session
      split: prod.splits)

definition sample_events :: "in_process_transport daemon_event list" where
  "sample_events =
    [EvRequest sample_factory (ReqJoin ''g''),
     EvRequest sample_factory (ReqSetRoster ''g'' sample_roster []
       [wire_of_signed_revocation (stub_revoked (addr_of ''a1'') (addr_of ''d1''))])]"

definition sample_relink :: "in_process_transport daemon_event" where
  "sample_relink = EvRequest sample_factory
    (ReqSetRoster ''g'' sample_roster [wire_of_signed_link (stub_signed link_a2)] [])"

lemma sample_join:
  "daemon_run in_process stub_verifier [EvRequest sample_factory (ReqJoin ''g'')] (daemon_with_factory a) =
    put_session ''g'' (session_new [] in_process_new) (daemon_with_factory a)"
proof -
  have "trim ''g'' = ''g''" by (rule trim_graphic) (simp add: is_ascii_graphic_def)
  then show ?thesis
    by (simp add: daemon_run_def daemon_join_def ensure_group_allowed_def daemon_with_factory_def
        ensure_session_def MAX_GROUPS_def sample_factory_def put_session_def ok_or_def)
qed

lemma sample_run1:
  "fmlookup (d_devices (daemon_run in_process stub_verifier sample_events (daemon_with_factory a))) ''g'' =
     Some \<lparr>gd_roster = sample_roster,
       gd_registry = registry_run stub_verifier [([], [stub_revoked (addr_of ''a1'') (addr_of ''d1'')])]\<rparr>"
  "\<exists>s. fmlookup (d_groups (daemon_run in_process stub_verifier sample_events (daemon_with_factory a))) ''g'' = Some s
     \<and> mem_allowed (s_membership s) = allowed_set (effective_roster sample_roster
       (registry_run stub_verifier [([], [stub_revoked (addr_of ''a1'') (addr_of ''d1'')])]))"
  "d_single (daemon_run in_process stub_verifier sample_events (daemon_with_factory a)) = None"
proof -
  let ?d1 = "put_session ''g'' (session_new [] in_process_new) (daemon_with_factory a)"
  have e: "daemon_run in_process stub_verifier sample_events (daemon_with_factory a) =
      snd (set_roster_with_devices in_process sample_factory stub_verifier ''g'' sample_roster []
        [wire_of_signed_revocation (stub_revoked (addr_of ''a1'') (addr_of ''d1''))] ?d1)"
    using sample_join [of a] by (simp add: sample_events_def daemon_run_def)
  have g: "fmlookup (d_groups ?d1) ''g'' = Some (session_new [] in_process_new)" "d_single ?d1 = None"
    by (simp_all add: daemon_with_factory_def)
  have r: "registry_run stub_verifier [([], [stub_revoked (addr_of ''a1'') (addr_of ''d1'')])] =
      snd (registry_update stub_verifier (map signed_link_of_wire [])
        (map signed_revocation_of_wire [wire_of_signed_revocation (stub_revoked (addr_of ''a1'') (addr_of ''d1''))])
        (gd_registry (fm_get_or group_devices_default (d_devices ?d1) ''g'')))"
    by (simp add: registry_run_Cons_unfold(2) daemon_with_factory_def group_devices_default_def)
  show "fmlookup (d_devices (daemon_run in_process stub_verifier sample_events (daemon_with_factory a))) ''g'' =
     Some \<lparr>gd_roster = sample_roster,
       gd_registry = registry_run stub_verifier [([], [stub_revoked (addr_of ''a1'') (addr_of ''d1'')])]\<rparr>"
    "\<exists>s. fmlookup (d_groups (daemon_run in_process stub_verifier sample_events (daemon_with_factory a))) ''g'' = Some s
     \<and> mem_allowed (s_membership s) = allowed_set (effective_roster sample_roster
       (registry_run stub_verifier [([], [stub_revoked (addr_of ''a1'') (addr_of ''d1'')])]))"
    "d_single (daemon_run in_process stub_verifier sample_events (daemon_with_factory a)) = None"
    unfolding e set_roster_session [OF g r] by (simp_all add: daemon_with_factory_def membership_simps)
qed

lemma sample_run2:
  defines "reg \<equiv> registry_run stub_verifier
     [([], [stub_revoked (addr_of ''a1'') (addr_of ''d1'')]), ([stub_signed link_a2], [])]"
  shows "\<exists>s. fmlookup (d_groups (daemon_run in_process stub_verifier (sample_events @ [sample_relink])
        (daemon_with_factory a))) ''g'' = Some s
      \<and> mem_allowed (s_membership s) = allowed_set (effective_roster sample_roster reg)"
proof -
  let ?d = "daemon_run in_process stub_verifier sample_events (daemon_with_factory a)"
  obtain s where s: "fmlookup (d_groups ?d) ''g'' = Some s" using sample_run1(2) by blast
  have r: "reg = snd (registry_update stub_verifier
      (map signed_link_of_wire [wire_of_signed_link (stub_signed link_a2)]) (map signed_revocation_of_wire [])
      (gd_registry (fm_get_or group_devices_default (d_devices ?d) ''g'')))"
    by (simp add: reg_def registry_run_Cons_unfold(1) fm_get_or_Some [OF sample_run1(1)])
  have "daemon_run in_process stub_verifier (sample_events @ [sample_relink]) (daemon_with_factory a) =
      snd (set_roster_with_devices in_process sample_factory stub_verifier ''g'' sample_roster
        [wire_of_signed_link (stub_signed link_a2)] [] ?d)"
    unfolding daemon_run_append by (simp add: daemon_run_def sample_relink_def)
  then show ?thesis unfolding set_roster_session [OF s sample_run1(3) r]
    by (simp add: membership_simps)
qed

theorem daemon_admission_sound_witness:
  "\<exists>s. fmlookup (d_groups (daemon_run in_process stub_verifier (sample_events @ [sample_relink])
        (daemon_with_factory []))) ''g'' = Some s
     \<and> mem_admitted (s_membership s) |\<subseteq>| mem_allowed (s_membership s)"
  using sample_run2 [of "[]"] daemon_admission_sound [of in_process stub_verifier "sample_events @ [sample_relink]" "[]" "''g''"]
  by blast

theorem daemon_revocation_permanent_witness:
  "\<exists>st. fmlookup (d_devices (daemon_run in_process stub_verifier (sample_events @ [sample_relink])
        (daemon_with_factory []))) ''g'' = Some st
     \<and> (addr_of ''a1'', addr_of ''d1'') |\<in>| reg_revoked (gd_registry st)"
proof -
  let ?reg = "registry_run stub_verifier
     [([], [stub_revoked (addr_of ''a1'') (addr_of ''d1'')]), ([stub_signed link_a2], [])]"
  have r: "(addr_of ''a1'', addr_of ''d1'') |\<in>|
      revoked_of ''g'' (daemon_run in_process stub_verifier sample_events (daemon_with_factory []))"
    by (simp add: revoked_of_def fm_get_or_Some [OF sample_run1(1)] sample_revoked)
  have "addr_of ''a2'' |\<in>| allowed_set sample_roster"
    by (simp add: allowed_set_def sample_roster_def insert_some_def allowed_entry_def role_rank_member)
  moreover have "addr_of ''d1'' |\<notin>| fmdom (best_roles sample_roster)"
    by (simp add: best_roles_def sample_roster_def role_entry_def)
  ultimately have "live_link sample_roster ?reg (addr_of ''d1'') (addr_of ''a2'')"
    by (simp add: live_link_def sample_readmitted)
  then have "addr_of ''d1'' |\<in>| allowed_set (effective_roster sample_roster ?reg)"
    unfolding effective_allowed_iff [OF registry_run_ok] by blast
  moreover obtain s where
    s: "fmlookup (d_groups (daemon_run in_process stub_verifier (sample_events @ [sample_relink])
        (daemon_with_factory []))) ''g'' = Some s"
      "mem_allowed (s_membership s) = allowed_set (effective_roster sample_roster ?reg)"
    using sample_run2 [of "[]"] by blast
  ultimately have "addr_of ''d1'' |\<in>| mem_allowed (s_membership s)" by (simp only: s(2))
  from daemon_revocation_permanent [OF r s(1) this] show ?thesis by blast
qed

subsection \<open>Further properties of the requests\<close>

lemma fmupd_same: "fmlookup m k = Some v \<Longrightarrow> fmupd k v m = m"
  by (rule fmap_ext) auto

lemma put_session_same: "fmlookup (d_groups d) g = Some s \<Longrightarrow> put_session g s d = d"
  by (simp add: put_session_def fmupd_same)

lemma share_file_Err:
  assumes "share_file T g cid d = (Err e, d')"
  shows "d' = d"
proof -
  have "d\<lparr>d_shared := fmupd g (fm_get_or {||} (d_shared d) g) (d_shared d)\<rparr> = d"
    if "MAX_SHARED_FILES \<le> fcard (fm_get_or {||} (d_shared d) g)"
    using that by (cases "fmlookup (d_shared d) g") (simp_all add: fmupd_same MAX_SHARED_FILES_def)
  with assms show ?thesis
    by (auto simp: share_file_def Let_def split: option.splits if_splits)
qed

lemma add_seed_Err:
  assumes "\<And>as t e t'. tr_add_peers T as t = (Err e, t') \<Longrightarrow> t' = t"
    and "add_seed T g stext d = (Err e, d')"
  shows "d' = d"
proof (cases "seed_decode stext")
  case (Inr seed)
  show ?thesis
  proof (cases "fmlookup (d_groups d) g")
    case (Some s)
    obtain r t where r: "tr_add_peers T (gs_addrs seed) (s_transport s) = (r, t)" by fastforce
    show ?thesis
    proof (cases r)
      case (Inl e)
      with r assms(1) have "t = s_transport s" by blast
      with assms(2) Inr Some r Inl show ?thesis
        by (auto simp: add_seed_def put_session_same split: if_splits)
    qed (use assms(2) Inr Some r in \<open>auto simp: add_seed_def split: if_splits\<close>)
  qed (use assms(2) Inr in \<open>auto simp: add_seed_def split: if_splits\<close>)
qed (use assms(2) in \<open>simp add: add_seed_def\<close>)

lemma daemon_join_Err: "daemon_join mk g d = (Err e, d') \<Longrightarrow> d' = d"
  by (auto simp: daemon_join_def dest: ensure_session_Err split: sum.splits prod.splits)

lemma respond_Error: "(\<And>x. f x \<noteq> RespError e) \<Longrightarrow> respond f r = (RespError e, d') \<Longrightarrow> r = (Err e, d')"
  by (auto simp: respond_def split: prod.splits sum.splits)

text \<open>C29. An error answer means nothing happened: if a request is answered with an error, the daemon's
  state is what it was before, provided the transport leaves its own state alone when it refuses a
  list of addresses.\<close>

theorem error_changes_nothing:
  assumes "\<And>as t e t'. tr_add_peers T as t = (Err e, t') \<Longrightarrow> t' = t"
    and "handle_request T mk V req d = (RespError e, d')"
  shows "d' = d"
proof (cases req)
  case (ReqSetRoster g roster links revs)
  with assms(2) have "set_roster_with_devices T mk V g roster links revs d = (Err e, d')"
    by (auto dest: respond_Error [rotated])
  then show ?thesis by (rule set_roster_Err)
next
  case (ReqJoin g)
  with assms(2) have "daemon_join mk g d = (Err e, d')" by (auto dest: respond_Error [rotated])
  then show ?thesis by (rule daemon_join_Err)
next
  case (ReqShareFile g cid)
  with assms(2) have "share_file T g cid d = (Err e, d')" by (auto dest: respond_Error [rotated])
  then show ?thesis by (rule share_file_Err)
next
  case (ReqSeed g)
  with assms(2) have "(daemon_seed T g d, d) = (Err e, d')" by (auto dest: respond_Error [rotated])
  then show ?thesis by simp
next
  case (ReqAddSeed g stext)
  with assms(2) have "add_seed T g stext d = (Err e, d')" by (auto dest: respond_Error [rotated])
  then show ?thesis by (rule add_seed_Err [rotated]) (rule assms(1))
qed (use assms(2) in \<open>auto split: prod.splits\<close>)

theorem error_changes_nothing_witness:
  "handle_request in_process sample_factory stub_verifier (ReqJoin []) (daemon_with_factory [])
    = (RespError EmptyGroup, daemon_with_factory [])"
proof -
  let ?r = "handle_request in_process sample_factory stub_verifier (ReqJoin []) (daemon_with_factory [])"
  have r: "?r = (RespError EmptyGroup, snd ?r)"
    by (simp add: daemon_join_def ensure_group_allowed_def daemon_with_factory_def ensure_session_def respond_def)
  have "snd ?r = daemon_with_factory []" by (rule error_changes_nothing [OF _ r]) auto
  with r show ?thesis by simp
qed

text \<open>C27. Seeds are exchanged between daemons: the seed text one daemon hands out for a group, added on
  another daemon that is in the same group, makes it dial exactly the addresses of the first, unless
  the text is longer than \<open>MAX_SEED_LEN\<close>.\<close>

theorem seed_exchange:
  assumes "daemon_seed T1 g d1 = Ok (stext, addrs)" and "utf8_valid g" and "length stext \<le> MAX_SEED_LEN"
    and "fmlookup (d_groups d2) g = Some s" and "tr_add_peers T2 addrs (s_transport s) = (r, t)"
  shows "add_seed T2 g stext d2 = (map_sum TransportError id r, put_session g (s\<lparr>s_transport := t\<rparr>) d2)"
proof -
  from assms(1) obtain seed where new: "group_seed_new g addrs = Ok seed" and stext: "stext = seed_encode seed"
    by (auto simp: daemon_seed_def split: option.splits sum.splits if_splits)
  have "trim stext = seed_encode seed"
    unfolding stext by (rule trim_graphic) (rule seed_encode_graphic)
  then have "seed_decode stext = Ok seed"
    using seed_decode_of_encode [OF new assms(2)] assms(3) stext by simp
  moreover have "gs_group seed = g" "gs_addrs seed = addrs" using new by (simp_all add: group_seed_new_Ok_iff)
  ultimately show ?thesis using assms(4,5) by (simp add: add_seed_def)
qed

definition sample_wire :: "in_process_transport mesh_transport" where
  "sample_wire = in_process\<lparr>tr_seed_addrs := (\<lambda>_. Ok [''/p2p/ab'']), tr_add_peers := (\<lambda>as t. (Ok (length as), t))\<rparr>"

definition sample_daemon :: "in_process_transport daemon" where
  "sample_daemon = put_session ''g'' (session_new [] in_process_new) (daemon_with_factory [])"

theorem seed_exchange_witness:
  "add_seed sample_wire ''g'' ''citrate-cluster://seed?v=1&g=g&a=/p2p/ab'' sample_daemon = (Ok 1, sample_daemon)"
proof -
  let ?s = "session_new [] in_process_new"
  have new: "group_seed_new ''g'' [''/p2p/ab''] = Ok \<lparr>gs_group = ''g'', gs_addrs = [''/p2p/ab'']\<rparr>"
    and enc: "seed_encode \<lparr>gs_group = ''g'', gs_addrs = [''/p2p/ab'']\<rparr> = ''citrate-cluster://seed?v=1&g=g&a=/p2p/ab''"
    and u: "utf8_valid ''g''" by code_simp+
  have l: "fmlookup (d_groups sample_daemon) ''g'' = Some ?s" by (simp add: sample_daemon_def)
  have "daemon_seed sample_wire ''g'' sample_daemon = Ok (''citrate-cluster://seed?v=1&g=g&a=/p2p/ab'', [''/p2p/ab''])"
    by (simp add: daemon_seed_def l sample_wire_def new enc)
  from seed_exchange [OF this u _ l, of sample_wire "Ok 1" "s_transport ?s"]
  have "add_seed sample_wire ''g'' ''citrate-cluster://seed?v=1&g=g&a=/p2p/ab'' sample_daemon
      = (Ok 1, put_session ''g'' ?s sample_daemon)"
    by (simp add: MAX_SEED_LEN_def sample_wire_def)
  then show ?thesis by (simp add: put_session_same [OF l])
qed

lemma pages_take: "concat (map (\<lambda>k. take n (drop (k * n) xs)) [0..<m]) = take (m * n) xs"
proof (induction m)
  case (Suc m)
  have "take (Suc m * n) xs = take (m * n) xs @ take n (drop (m * n) xs)"
    by (simp only: mult_Suc add.commute [of n] take_add)
  with Suc show ?case by simp
qed simp

lemma drain_nothing:
  "fmlookup (d_groups d) g = Some s \<Longrightarrow> tr_drain T (s_transport s) = ([], s_transport s) \<Longrightarrow>
    snd (drain_into_shared T g d) = d"
  by (simp add: drain_into_shared_def Let_def put_session_same)

text \<open>A client can walk the shared set page by page: with nothing new in the inbox, the pages of any
  size up to \<open>MAX_SHARED_FILES_PAGE\<close>, one after another, list every content id of the group once, in
  ascending order.\<close>

theorem shared_pages_cover:
  assumes "fmlookup (d_groups d) g = Some s" and "tr_drain T (s_transport s) = ([], s_transport s)"
    and "fmlookup (d_shared d) g = Some S" and "n \<le> MAX_SHARED_FILES_PAGE" and "fcard S \<le> m * n"
  shows "concat (map (\<lambda>k. fst (fst (shared_files_page T g (k * n) n d))) [0..<m]) = sorted_list_of_fset S"
proof -
  have "fst (fst (shared_files_page T g off n d)) = take n (drop off (sorted_list_of_fset S))" for off
    using assms(3,4) drain_nothing [OF assms(1,2)]
    by (simp add: shared_files_page_def Let_def)
  then show ?thesis using assms(5) by (simp add: pages_take)
qed

theorem shared_pages_cover_witness:
  "concat (map (\<lambda>k. fst (fst (shared_files_page in_process ''g'' (k * 1) 1
      (sample_daemon\<lparr>d_shared := fmupd ''g'' {|''x'', ''y''|} fmempty\<rparr>)))) [0..<2]) = [''x'', ''y'']"
proof -
  let ?d = "sample_daemon\<lparr>d_shared := fmupd ''g'' {|''x'', ''y''|} fmempty\<rparr>"
  have "concat (map (\<lambda>k. fst (fst (shared_files_page in_process ''g'' (k * 1) 1 ?d))) [0..<2])
      = sorted_list_of_fset {|''x'', ''y''|}"
  proof (rule shared_pages_cover)
    show "fmlookup (d_groups ?d) ''g'' = Some (session_new [] in_process_new)" by (simp add: sample_daemon_def)
    show "fcard {|''x'', ''y''|} \<le> 2 * 1" by (simp add: fcard_finsert_if)
  qed (simp_all add: session_simps in_process_drain_def in_process_new_def MAX_SHARED_FILES_PAGE_def)
  also have "\<dots> = [''x'', ''y'']" by (rule sorted_list_of_fset_unique) auto
  finally show ?thesis .
qed

text \<open>The peer list of a group names the allowed addresses in order, and the ones it marks online are
  exactly the admitted ones of the state it leaves behind: the peers that the transport reports
  connected and the roster allows.\<close>

theorem peers_online_admitted:
  "case daemon_peers T g d of (views, d') \<Rightarrow>
     (case fmlookup (d_groups d') g of
        None \<Rightarrow> views = []
      | Some s \<Rightarrow>
          map pv_address views = sorted_list_of_fset (mem_allowed (s_membership s))
          \<and> pv_address ` set (filter pv_online views) = fset (mem_admitted (s_membership s))
          \<and> fset (mem_admitted (s_membership s))
              = set (tr_connected T (s_transport s)) \<inter> fset (mem_allowed (s_membership s)))"
proof (cases "fmlookup (d_groups d) g")
  case None
  then show ?thesis by (simp add: daemon_peers_def sync_admission_def Let_def)
next
  case (Some s)
  let ?s = "sync_admitted_from_wire T s"
  have s': "fmlookup (d_groups (sync_admission T g d)) g = Some ?s"
    by (simp add: sync_admission_def Some)
  have adm: "fset (mem_admitted (s_membership ?s)) =
      set (tr_connected T (s_transport ?s)) \<inter> fset (mem_allowed (s_membership ?s))"
    using sync_admitted_from_wire_admitted [of T s] by (simp add: session_simps membership_simps)
  obtain views d' where v: "daemon_peers T g d = (views, d')" by fastforce
  have d': "d' = sync_admission T g d" using v by (simp add: daemon_peers_def Let_def)
  have views: "map pv_address views = sorted_list_of_fset (mem_allowed (s_membership ?s))"
    using v by (auto simp: daemon_peers_def Let_def s' membership_allowed_def comp_def)
  have "views = map (\<lambda>a. \<lparr>pv_address = a, pv_online = (a |\<in>| fset_of_list (tr_connected T (s_transport ?s))),
      pv_member = Option.bind (map_option gd_registry (fmlookup (d_devices d) g)) (registry_member_of a)\<rparr>)
    (sorted_list_of_fset (mem_allowed (s_membership ?s)))"
    using v by (simp add: daemon_peers_def Let_def s' membership_allowed_def)
  then have online: "pv_address ` set (filter pv_online views) =
      set (tr_connected T (s_transport ?s)) \<inter> fset (mem_allowed (s_membership ?s))"
    by (simp only: filter_map set_map image_image comp_def peer_view.select_convs)
      (auto simp: fset_of_list_elem)
  show ?thesis unfolding v d' prod.case s' option.case using views online adm by simp
qed

end
