(* ===== verification/Device_Mesh.thy ===== *)
theory Device_Mesh
  imports Ipc
begin

section \<open>Devices in the mesh\<close>

text \<open>
  The safety properties of \<open>formal/DeviceLink.tla\<close> for the daemon. Of that machine, \<open>allowed\<close> is the
  allowed set of the last member roster, \<open>links\<close> the registry's active links, \<open>revokedBy\<close> its revoked
  pairs, \<open>admitted\<close> and \<open>legacy\<close> together the admitted set of the session. The history variable
  \<open>revokeLog\<close> is the set of the pairs that were revoked after any of the earlier events. The code
  revokes pairs of a member and a device, so \<open>RevokedDeviceEvicted\<close> is stated for pairs.
\<close>

definition revoke_log :: "('t, 'z) mesh_transport_scheme \<Rightarrow> link_verifier \<Rightarrow> 't daemon_event list \<Rightarrow> rstr \<Rightarrow> rstr
    \<Rightarrow> (rstr \<times> rstr) set" where
  "revoke_log T V evs a g = (\<Union>n. fset (revoked_of g (daemon_run T V (take n evs) (daemon_with_factory a))))"

lemma revoke_log_final: "revoke_log T V evs a g = fset (revoked_of g (daemon_run T V evs (daemon_with_factory a)))"
proof
  have "revoked_of g (daemon_run T V (take n evs) d) |\<subseteq>| revoked_of g (daemon_run T V evs d)" for n d
    using daemon_run_revoked [of g "daemon_run T V (take n evs) d" T V "drop n evs"]
    by (simp flip: daemon_run_append)
  then show "revoke_log T V evs a g \<subseteq> fset (revoked_of g (daemon_run T V evs (daemon_with_factory a)))"
    by (auto simp: revoke_log_def less_eq_fset.rep_eq)
  show "fset (revoked_of g (daemon_run T V evs (daemon_with_factory a))) \<subseteq> revoke_log T V evs a g"
    unfolding revoke_log_def by (rule subset_trans [OF _ UN_upper [of "length evs"]]) simp_all
qed

text \<open>C7. Whoever is admitted to a group answers to a member that the last roster allows, and in one of two
  ways: it is that member itself, which then has no active device and has at no time revoked one
  (\<open>LegacySubsetAllowed\<close>, \<open>LegacyOnlyWithoutDevices\<close>, \<open>RevokedMachineNotBackAsMember\<close>); or it is a device
  with an active link to that member, which has at no time revoked it (\<open>NoActWithoutLink\<close>,
  \<open>RevokedDeviceEvicted\<close>). This holds in every session of every run, also after the client has stopped
  sending the links, has left the group or has joined it again.\<close>

theorem device_mesh_safe:
  assumes "fmlookup (d_groups (daemon_run T V evs (daemon_with_factory a))) g = Some s"
    and "x |\<in>| mem_admitted (s_membership s)"
  shows "\<exists>st m. fmlookup (d_devices (daemon_run T V evs (daemon_with_factory a))) g = Some st
    \<and> m |\<in>| allowed_set (gd_roster st)
    \<and> (x = m \<and> (\<nexists>dv. live_link (gd_roster st) (gd_registry st) dv m) \<and> m \<notin> fst ` revoke_log T V evs a g
       \<or> registry_member_of x (gd_registry st) = Some m \<and> (m, x) \<notin> revoke_log T V evs a g)"
proof -
  let ?d = "daemon_run T V evs (daemon_with_factory a)"
  have ok: "daemon_ok ?d" by (rule daemon_run_ok) simp
  with assms obtain st where st: "fmlookup (d_devices ?d) g = Some st" and reg: "registry_ok (gd_registry st)"
    and al: "x |\<in>| allowed_set (effective_roster (gd_roster st) (gd_registry st))"
    using daemon_ok_group [OF ok, of g]
    by (auto simp: group_ok_def group_view_def session_matches_def membership_ok_def invariant_holds_def)
  have log: "revoke_log T V evs a g = fset (reg_revoked (gd_registry st))"
    by (simp add: revoke_log_final revoked_of_def fm_get_or_Some [OF st])
  from al consider (member) "x |\<in>| allowed_set (gd_roster st)" "\<nexists>dv. (x, dv) |\<in>| reg_revoked (gd_registry st)"
      "\<nexists>dv. live_link (gd_roster st) (gd_registry st) dv x"
    | (device) m where "live_link (gd_roster st) (gd_registry st) x m"
    unfolding effective_allowed_iff [OF reg] by blast
  then show ?thesis
  proof cases
    case member
    then show ?thesis using st log by (intro exI [of _ st] exI [of _ x]) auto
  next
    case (device m)
    note f = live_link_fields [OF reg device]
    moreover have "registry_member_of x (gd_registry st) = Some m"
      using f(1) device by (simp add: registry_member_of_canonical live_link_def)
    ultimately show ?thesis using st log by (intro exI [of _ st] exI [of _ m]) simp
  qed
qed

text \<open>A member without devices that is meshed, in a group where another member has revoked one.\<close>

definition sample_admit :: "in_process_transport daemon_event" where
  "sample_admit = EvAdmit sample_factory ''g'' (addr_of ''a2'') ''member''"

lemma daemon_run_single_event: "daemon_run T V [ev] d = daemon_step T V ev d"
  by (simp add: daemon_run_def)

lemma sample_admitted:
  "\<exists>s. fmlookup (d_groups (daemon_run in_process stub_verifier (sample_events @ [sample_admit])
        (daemon_with_factory a))) ''g'' = Some s \<and> addr_of ''a2'' |\<in>| mem_admitted (s_membership s)"
proof -
  let ?d = "daemon_run in_process stub_verifier sample_events (daemon_with_factory a)"
  let ?reg = "registry_run stub_verifier [([], [stub_revoked (addr_of ''a1'') (addr_of ''d1'')])]"
  obtain s where s: "fmlookup (d_groups ?d) ''g'' = Some s"
    and al: "mem_allowed (s_membership s) = allowed_set (effective_roster sample_roster ?reg)"
    using sample_run1(2) by blast
  have "addr_of ''a2'' |\<in>| allowed_set sample_roster"
    by (simp add: allowed_set_def sample_roster_def insert_some_def allowed_entry_def role_rank_member)
  moreover have "live_link sample_roster ?reg d m = False" for d m
    by (simp add: live_link_def registry_run_Cons_unfold registry_update_unfold links_for_def resolved_def)
  ultimately have "addr_of ''a2'' |\<in>| allowed_set (effective_roster sample_roster ?reg)"
    unfolding effective_allowed_iff [OF registry_run_ok] by (simp add: sample_revoked)
  then have j: "fst (membership_join (addr_of ''a2'') ''member'' (s_membership s))"
    by (simp add: membership_join_True_iff admit_def al role_rank_member)
  have "daemon_run in_process stub_verifier (sample_events @ [sample_admit]) (daemon_with_factory a) =
      put_session ''g'' (snd (session_join in_process (addr_of ''a2'') ''member'' s)) ?d"
    unfolding daemon_run_append daemon_run_single_event
    by (simp add: sample_admit_def admit_peer_def ensure_group_allowed_def sample_run1(3) ensure_session_again [OF s]
        split: prod.splits)
  with j show ?thesis by (simp add: session_simps membership_simps)
qed

theorem device_mesh_safe_witness:
  "\<exists>st m. fmlookup (d_devices (daemon_run in_process stub_verifier (sample_events @ [sample_admit])
        (daemon_with_factory []))) ''g'' = Some st
     \<and> m |\<in>| allowed_set (gd_roster st)
     \<and> (m = addr_of ''a2'' \<or> registry_member_of (addr_of ''a2'') (gd_registry st) = Some m)"
  using sample_admitted [of "[]"] device_mesh_safe [of in_process stub_verifier "sample_events @ [sample_admit]" "[]" "''g''"]
  by blast

end
