(* ===== verification/Multiaddr.thy ===== *)
theory Multiaddr
  imports Cid Seed Transport
begin

section \<open>Addresses to dial\<close>

text \<open>
  The pure helpers of \<open>crates/cluster-daemon/src/libp2p_transport.rs\<close>: the list of addresses kept for
  re-dialing, the peers discovered on the local network, the addresses a seed offers, the listen port
  of a group and the parser of seeded addresses. A \<open>Multiaddr\<close> is the list of its protocols; a
  \<open>PeerId\<close> is a value of an ordered type \<open>'p\<close>. Parsing a multiaddr and Keccak come from other crates
  and are arguments. A \<open>HashMap\<close> is a finite map, and what is read out of it is sorted by the code.
\<close>

definition MAX_INBOX :: nat where
  "MAX_INBOX = 1024"

definition MAX_BOOTSTRAP :: nat where
  "MAX_BOOTSTRAP = 64"

definition MAX_REDIAL_PER_TICK :: nat where
  "MAX_REDIAL_PER_TICK = 16"

definition MAX_DISCOVERED_PEERS :: nat where
  "MAX_DISCOVERED_PEERS = 256"

definition MAX_DISCOVERED_ADDRS :: nat where
  "MAX_DISCOVERED_ADDRS = 8"

definition GROUP_PORT_SPAN :: "16 word" where
  "GROUP_PORT_SPAN = 1024"

text \<open>\<open>Ip4\<close> carries its four octets, \<open>Ip6\<close> its eight segments.\<close>

datatype 'p protocol =
    Ip4 "8 word list"
  | Ip6 "16 word list"
  | Dns rstr
  | Dns4 rstr
  | Dns6 rstr
  | Tcp "16 word"
  | P2p 'p
  | OtherProtocol rstr

type_synonym 'p multiaddr = "'p protocol list"

fun bootstrap_peer_id :: "'p multiaddr \<Rightarrow> 'p option" where
  "bootstrap_peer_id [] = None"
| "bootstrap_peer_id (P2p i # ps) = Some i"
| "bootstrap_peer_id (_ # ps) = bootstrap_peer_id ps"

definition remember_bootstrap :: "'p multiaddr list \<Rightarrow> 'p multiaddr \<Rightarrow> 'p multiaddr list" where
  "remember_bootstrap bootstrap addr =
    (if addr \<in> set bootstrap then bootstrap
     else (if MAX_BOOTSTRAP \<le> length bootstrap then drop 1 bootstrap else bootstrap) @ [addr])"

text \<open>How a re-dial is made: by peer id with one address, or by address alone.\<close>

datatype 'p dial_opts = DialPeer 'p "'p multiaddr list" | DialUnknown "'p multiaddr"

definition redial_opts :: "'p multiaddr \<Rightarrow> 'p dial_opts" where
  "redial_opts addr =
    (case bootstrap_peer_id addr of Some i \<Rightarrow> DialPeer i [addr] | None \<Rightarrow> DialUnknown addr)"

definition redial_due :: "('p \<Rightarrow> bool) \<Rightarrow> bool \<Rightarrow> 'p multiaddr \<Rightarrow> bool" where
  "redial_due is_connected any_admitted a \<longleftrightarrow>
    (case bootstrap_peer_id a of Some i \<Rightarrow> \<not> is_connected i | None \<Rightarrow> \<not> any_admitted)"

definition redial_targets :: "'p multiaddr list \<Rightarrow> ('p \<Rightarrow> bool) \<Rightarrow> bool \<Rightarrow> 'p multiaddr list" where
  "redial_targets bootstrap is_connected any_admitted =
    take MAX_REDIAL_PER_TICK (filter (redial_due is_connected any_admitted) bootstrap)"

type_synonym 'p discovered = "('p, 'p multiaddr list) fmap"

definition remember_discovered :: "'p \<Rightarrow> 'p multiaddr \<Rightarrow> 'p discovered \<Rightarrow> bool \<times> 'p discovered" where
  "remember_discovered peer addr disc =
    (if peer |\<notin>| fmdom disc \<and> MAX_DISCOVERED_PEERS \<le> fcard (fmdom disc) then (False, disc)
     else let addrs = fm_get_or [] disc peer;
              disc1 = fmupd peer addrs disc
       in if addr \<in> set addrs then (False, disc1)
          else (True, fmupd peer ((if MAX_DISCOVERED_ADDRS \<le> length addrs then drop 1 addrs else addrs) @ [addr]) disc1))"

definition forget_discovered :: "'p \<Rightarrow> 'p multiaddr \<Rightarrow> 'p discovered \<Rightarrow> 'p discovered" where
  "forget_discovered peer addr disc =
    (case fmlookup disc peer of
       None \<Rightarrow> disc
     | Some addrs \<Rightarrow>
         let addrs' = filter (\<lambda>a. a \<noteq> addr) addrs
         in if addrs' = [] then fmdrop peer (fmupd peer addrs' disc) else fmupd peer addrs' disc)"

definition discovery_targets ::
  "('p::linorder) discovered \<Rightarrow> ('p \<Rightarrow> bool) \<Rightarrow> ('p \<Rightarrow> bool) \<Rightarrow> ('p \<times> 'p multiaddr list) list" where
  "discovery_targets disc is_connected is_authorized =
    take MAX_REDIAL_PER_TICK
      (sort_key fst (filter (\<lambda>(p, a). \<not> is_connected p \<and> is_authorized p) (sorted_list_of_fmap disc)))"

text \<open>\<open>Some True\<close> is loopback, \<open>Some False\<close> routable, \<open>None\<close> never offered.\<close>

fun addr_class :: "'p multiaddr \<Rightarrow> bool option" where
  "addr_class (Ip4 octets # _) =
    (if list_all (\<lambda>b. b = 0) octets then None else Some (hd octets = 127))"
| "addr_class (Ip6 segs # _) =
    (if list_all (\<lambda>b. b = 0) segs then None
     else if and (hd segs) 0xffc0 = 0xfe80 then None
     else Some (list_all (\<lambda>b. b = 0) (butlast segs) \<and> last segs = 1))"
| "addr_class (Dns _ # _) = Some False"
| "addr_class (Dns4 _ # _) = Some False"
| "addr_class (Dns6 _ # _) = Some False"
| "addr_class _ = None"

definition with_peer_id :: "'p \<Rightarrow> 'p multiaddr \<Rightarrow> 'p multiaddr" where
  "with_peer_id local_peer a = (if bootstrap_peer_id a = None then a @ [P2p local_peer] else a)"

definition seed_addr_entry ::
  "'p \<Rightarrow> 'p multiaddr \<Rightarrow> 'p multiaddr list \<times> 'p multiaddr list \<Rightarrow> 'p multiaddr list \<times> 'p multiaddr list" where
  "seed_addr_entry local_peer a acc =
    (case acc of (routable, loopback) \<Rightarrow>
       let with_id = with_peer_id local_peer a
       in case addr_class a of
            Some False \<Rightarrow> (if with_id \<notin> set routable then (routable @ [with_id], loopback) else (routable, loopback))
          | Some True \<Rightarrow> (if with_id \<notin> set loopback then (routable, loopback @ [with_id]) else (routable, loopback))
          | None \<Rightarrow> (routable, loopback))"

definition seed_addrs_from :: "'p multiaddr list \<Rightarrow> 'p \<Rightarrow> 'p multiaddr list" where
  "seed_addrs_from listeners local_peer =
    (case fold (seed_addr_entry local_peer) listeners ([], []) of (routable, loopback) \<Rightarrow>
       take MAX_SEED_ADDRS (if routable = [] then loopback else routable))"

text \<open>Why a list of seeded addresses is refused; the number is the position, counted from 1.\<close>

datatype parse_error = AddrCountError nat | NotMultiaddr nat | NoPeer nat | IsThisNode nat

fun parse_each ::
  "(rstr \<Rightarrow> 'p multiaddr option) \<Rightarrow> 'p \<Rightarrow> nat \<Rightarrow> rstr list \<Rightarrow> parse_error + 'p multiaddr list" where
  "parse_each parse local_peer i [] = Ok []"
| "parse_each parse local_peer i (a # rest) =
    (case parse (trim a) of
       None \<Rightarrow> Err (NotMultiaddr (i + 1))
     | Some ma \<Rightarrow>
         (case bootstrap_peer_id ma of
            None \<Rightarrow> Err (NoPeer (i + 1))
          | Some p \<Rightarrow>
              if p = local_peer then Err (IsThisNode (i + 1))
              else map_sum id ((#) ma) (parse_each parse local_peer (i + 1) rest)))"

definition parse_peer_addrs ::
  "(rstr \<Rightarrow> 'p multiaddr option) \<Rightarrow> rstr list \<Rightarrow> 'p \<Rightarrow> parse_error + 'p multiaddr list" where
  "parse_peer_addrs parse addrs local_peer =
    (if addrs = [] \<or> MAX_SEED_ADDRS < length addrs then Err (AddrCountError (length addrs))
     else parse_each parse local_peer 0 addrs)"

text \<open>\<open>u16::from_be_bytes([h[0], h[1]]) % GROUP_PORT_SPAN\<close>.\<close>

definition port_offset :: "(rstr \<Rightarrow> rstr) \<Rightarrow> rstr \<Rightarrow> 16 word" where
  "port_offset keccak256 grp =
    (let h = keccak256 grp in of_nat (256 * code (h ! 0) + code (h ! 1)) mod GROUP_PORT_SPAN)"

text \<open>\<open>u16::checked_add\<close>.\<close>

definition checked_add16 :: "16 word \<Rightarrow> 16 word \<Rightarrow> 16 word option" where
  "checked_add16 a b = (if unat a + unat b < 2 ^ 16 then Some (a + b) else None)"

fun listen_protocol :: "(rstr \<Rightarrow> rstr) \<Rightarrow> rstr \<Rightarrow> 'p protocol \<Rightarrow> 'p protocol" where
  "listen_protocol keccak256 grp (Tcp port) =
    (if port = 0 then Tcp 0
     else Tcp (case checked_add16 port (port_offset keccak256 grp) of Some q \<Rightarrow> q | None \<Rightarrow> 0))"
| "listen_protocol keccak256 grp other = other"

definition group_listen :: "(rstr \<Rightarrow> rstr) \<Rightarrow> 'p multiaddr \<Rightarrow> rstr \<Rightarrow> 'p multiaddr" where
  "group_listen keccak256 base grp = map (listen_protocol keccak256 grp) base"

definition ephemeral :: "'p multiaddr \<Rightarrow> 'p multiaddr" where
  "ephemeral addr = map (\<lambda>p. case p of Tcp _ \<Rightarrow> Tcp 0 | other \<Rightarrow> other) addr"

text \<open>The error carries the value the message quotes.\<close>

definition parse_flag :: "rstr option \<Rightarrow> rstr + bool" where
  "parse_flag v =
    (case map_option (\<lambda>s. map to_ascii_lowercase (trim s)) v of
       None \<Rightarrow> Ok False
     | Some s \<Rightarrow>
         if s \<in> {[], ''0'', ''false'', ''off''} then Ok False
         else if s \<in> {''1'', ''true'', ''on''} then Ok True
         else Err s)"

definition accept_payload :: "rstr \<Rightarrow> rstr option" where
  "accept_payload bytes =
    (if utf8_valid bytes \<and> is_valid_cid bytes then Some bytes else None)"

definition push_inbox :: "mesh_message list \<Rightarrow> mesh_message \<Rightarrow> bool \<times> mesh_message list" where
  "push_inbox inbox m = (if MAX_INBOX \<le> length inbox then (False, inbox) else (True, inbox @ [m]))"

subsection \<open>Bounded memory\<close>

text \<open>The re-dial list never grows past \<open>MAX_BOOTSTRAP\<close>, never holds an address twice, always holds
  the address just dialed, and gives up its oldest entry and no other to make room.\<close>

theorem remember_bootstrap_keeps:
  assumes "length bootstrap \<le> MAX_BOOTSTRAP" and "distinct bootstrap"
  shows "length (remember_bootstrap bootstrap addr) \<le> MAX_BOOTSTRAP
    \<and> distinct (remember_bootstrap bootstrap addr)
    \<and> addr \<in> set (remember_bootstrap bootstrap addr)
    \<and> set (drop 1 bootstrap) \<subseteq> set (remember_bootstrap bootstrap addr)
    \<and> set (remember_bootstrap bootstrap addr) \<subseteq> insert addr (set bootstrap)"
  using assms
  by (auto simp: remember_bootstrap_def MAX_BOOTSTRAP_def distinct_drop dest: in_set_dropD)

theorem remember_bootstrap_keeps_witness:
  "length (remember_bootstrap [[Tcp 1], [P2p (0::nat)]] [Tcp 2]) \<le> MAX_BOOTSTRAP"
  using remember_bootstrap_keeps [of "[[Tcp 1], [P2p (0::nat)]]" "[Tcp 2]"]
  by (simp add: MAX_BOOTSTRAP_def)

datatype 'p mdns_event = MdnsFound 'p "'p multiaddr" | MdnsGone 'p "'p multiaddr"

fun mdns_step :: "'p mdns_event \<Rightarrow> 'p discovered \<Rightarrow> 'p discovered" where
  "mdns_step (MdnsFound p a) disc = snd (remember_discovered p a disc)"
| "mdns_step (MdnsGone p a) disc = forget_discovered p a disc"

definition discovered_ok :: "'p discovered \<Rightarrow> bool" where
  "discovered_ok disc \<longleftrightarrow> fcard (fmdom disc) \<le> MAX_DISCOVERED_PEERS
    \<and> (\<forall>p as. fmlookup disc p = Some as \<longrightarrow> as \<noteq> [] \<and> length as \<le> MAX_DISCOVERED_ADDRS \<and> distinct as)"

lemma remember_discovered_ok:
  assumes "discovered_ok disc"
  shows "discovered_ok (snd (remember_discovered peer addr disc))"
proof (cases "fmlookup disc peer")
  case None
  then have "peer |\<notin>| fmdom disc" by (simp add: fmlookup_None_iff)
  with None assms fcard_finsert_disjoint [of peer "fmdom disc"] show ?thesis
    by (auto simp: remember_discovered_def discovered_ok_def Let_def MAX_DISCOVERED_ADDRS_def)
next
  case (Some as)
  then have "peer |\<in>| fmdom disc" by (rule fmdomI)
  then have dom: "finsert peer (fmdom disc) = fmdom disc" by auto
  from Some assms have as: "as \<noteq> []" "length as \<le> MAX_DISCOVERED_ADDRS" "distinct as"
    by (auto simp: discovered_ok_def)
  have "length (drop 1 as) < MAX_DISCOVERED_ADDRS" "distinct (drop 1 as)" "addr \<notin> set as \<Longrightarrow> addr \<notin> set (drop 1 as)"
    using as by (auto simp: MAX_DISCOVERED_ADDRS_def dest: in_set_dropD)
  with Some as assms dom \<open>peer |\<in>| fmdom disc\<close> show ?thesis
    by (auto simp: remember_discovered_def discovered_ok_def Let_def not_le)
qed

lemma forget_discovered_ok:
  assumes "discovered_ok disc"
  shows "discovered_ok (forget_discovered peer addr disc)"
proof (cases "fmlookup disc peer")
  case (Some as)
  then have "peer |\<in>| fmdom disc" by (rule fmdomI)
  then have dom: "finsert peer (fmdom disc) = fmdom disc" by auto
  have "fcard (fmdom disc |-| {|peer|}) \<le> fcard (fmdom disc)" by (rule fcard_mono) auto
  moreover have "length as \<le> MAX_DISCOVERED_ADDRS" using Some assms by (simp add: discovered_ok_def)
  then have "length (filter (\<lambda>a. a \<noteq> addr) as) \<le> MAX_DISCOVERED_ADDRS"
    using length_filter_le [of "\<lambda>a. a \<noteq> addr" as] by linarith
  ultimately show ?thesis using Some assms dom
    by (auto simp: forget_discovered_def discovered_ok_def Let_def intro: order_trans)
qed (simp add: forget_discovered_def assms)

text \<open>Discovery on the local network cannot exhaust memory: after any sequence of found and expired
  records, at most \<open>MAX_DISCOVERED_PEERS\<close> peers are kept, each with one to \<open>MAX_DISCOVERED_ADDRS\<close>
  different addresses.\<close>

theorem discovered_bounded:
  "let disc = fold mdns_step evs fmempty
   in fcard (fmdom disc) \<le> MAX_DISCOVERED_PEERS
      \<and> fmpred (\<lambda>p as. as \<noteq> [] \<and> length as \<le> MAX_DISCOVERED_ADDRS \<and> distinct as) disc"
proof -
  have "discovered_ok (fold mdns_step evs disc)" if "discovered_ok disc" for disc :: "'a discovered"
    using that
  proof (induction evs arbitrary: disc)
    case (Cons ev evs)
    then show ?case by (cases ev) (simp_all add: remember_discovered_ok forget_discovered_ok)
  qed simp
  from this [of fmempty] have "discovered_ok (fold mdns_step evs fmempty)" by (simp add: discovered_ok_def)
  then show ?thesis by (auto simp: discovered_ok_def Let_def intro!: fmpredI)
qed

subsection \<open>What is dialed\<close>

lemma discovery_targets_sorted:
  "sort_key fst (filter P (sorted_list_of_fmap m)) = filter P (sorted_list_of_fmap m)"
proof -
  have "sorted (map fst (sorted_list_of_fmap m))" by simp
  then have "sorted (map fst (filter P (sorted_list_of_fmap m)))" by (rule sorted_filter)
  then show ?thesis by (simp add: sorted_sort_id sort_key_id_if_sorted)
qed

text \<open>Each tick dials at most \<open>MAX_REDIAL_PER_TICK\<close> addresses of the re-dial list and as many
  discovered peers, only ones that are due: a peer that is not connected (for an address without a
  peer, while no peer is admitted) and, when discovered, one the group authorizes; the discovered
  peers come in the order of their ids, so the choice does not depend on the order of the table.\<close>

theorem dial_targets_due:
  "length (redial_targets bootstrap conn admitted) \<le> MAX_REDIAL_PER_TICK
   \<and> set (redial_targets bootstrap conn admitted) \<subseteq>
       {a \<in> set bootstrap. case bootstrap_peer_id a of Some i \<Rightarrow> \<not> conn i | None \<Rightarrow> \<not> admitted}
   \<and> length (discovery_targets disc conn auth) \<le> MAX_REDIAL_PER_TICK
   \<and> set (discovery_targets disc conn auth) \<subseteq> {(p, as). fmlookup disc p = Some as \<and> \<not> conn p \<and> auth p}
   \<and> sorted_wrt (<) (map fst (discovery_targets disc conn auth))"
proof -
  let ?due = "filter (\<lambda>(p, a). \<not> conn p \<and> auth p) (sorted_list_of_fmap disc)"
  have t: "discovery_targets disc conn auth = take MAX_REDIAL_PER_TICK ?due"
    by (simp add: discovery_targets_def discovery_targets_sorted)
  have "sorted_wrt (\<lambda>x y. fst x < fst y) (sorted_list_of_fmap disc)"
    by (simp add: sorted_wrt_map [symmetric] strict_sorted_iff)
  then have "sorted_wrt (\<lambda>x y. fst x < fst y) (take MAX_REDIAL_PER_TICK ?due)"
    by (intro sorted_wrt_take sorted_wrt_filter)
  then have "sorted_wrt (<) (map fst (discovery_targets disc conn auth))" by (simp add: t sorted_wrt_map)
  moreover have "set (discovery_targets disc conn auth) \<subseteq> set ?due" unfolding t by (rule set_take_subset)
  then have "set (discovery_targets disc conn auth) \<subseteq> {(p, as). fmlookup disc p = Some as \<and> \<not> conn p \<and> auth p}"
    by (auto simp: set_sorted_list_of_fmap)
  moreover have "set (redial_targets bootstrap conn admitted) \<subseteq>
      set (filter (redial_due conn admitted) bootstrap)"
    unfolding redial_targets_def by (rule set_take_subset)
  then have "set (redial_targets bootstrap conn admitted) \<subseteq>
       {a \<in> set bootstrap. case bootstrap_peer_id a of Some i \<Rightarrow> \<not> conn i | None \<Rightarrow> \<not> admitted}"
    by (auto simp: redial_due_def)
  ultimately show ?thesis by (simp add: redial_targets_def t)
qed

subsection \<open>What a seed offers\<close>

lemma bootstrap_peer_id_append:
  "bootstrap_peer_id (a @ b) = (case bootstrap_peer_id a of None \<Rightarrow> bootstrap_peer_id b | Some i \<Rightarrow> Some i)"
  by (induction a rule: bootstrap_peer_id.induct) simp_all

lemma with_peer_id_names: "bootstrap_peer_id (with_peer_id l a) \<noteq> None"
  by (auto simp: with_peer_id_def bootstrap_peer_id_append split: option.splits)

lemma fold_seed_addr_entry:
  assumes "distinct (fst acc)" and "distinct (snd acc)"
  shows "distinct (fst (fold (seed_addr_entry l) as acc)) \<and> distinct (snd (fold (seed_addr_entry l) as acc))
    \<and> set (fst (fold (seed_addr_entry l) as acc)) =
        set (fst acc) \<union> with_peer_id l ` {a \<in> set as. addr_class a = Some False}
    \<and> set (snd (fold (seed_addr_entry l) as acc)) =
        set (snd acc) \<union> with_peer_id l ` {a \<in> set as. addr_class a = Some True}"
  using assms
proof (induction as arbitrary: acc)
  case (Cons a as)
  have step: "distinct (fst (seed_addr_entry l a acc)) \<and> distinct (snd (seed_addr_entry l a acc))
    \<and> set (fst (seed_addr_entry l a acc)) =
        set (fst acc) \<union> (if addr_class a = Some False then {with_peer_id l a} else {})
    \<and> set (snd (seed_addr_entry l a acc)) =
        set (snd acc) \<union> (if addr_class a = Some True then {with_peer_id l a} else {})"
    using Cons.prems
    by (auto simp: seed_addr_entry_def Let_def split: prod.splits option.splits bool.splits)
  have split: "{x \<in> set (a # as). addr_class x = Some b} =
      (if addr_class a = Some b then {a} else {}) \<union> {x \<in> set as. addr_class x = Some b}" for b
    by auto
  from Cons.IH [of "seed_addr_entry l a acc"] step show ?case
    unfolding split by (simp add: image_Un Un_assoc)
qed simp

text \<open>The addresses a seed offers are at most \<open>MAX_SEED_ADDRS\<close> different listen addresses, each
  naming a peer id (this node's where the listener names none); none of them is unspecified or link
  local, and loopback addresses are offered only when no routable one is listening.\<close>

theorem seed_addrs_offered:
  "length (seed_addrs_from listeners l) \<le> MAX_SEED_ADDRS
   \<and> distinct (seed_addrs_from listeners l)
   \<and> None \<notin> bootstrap_peer_id ` set (seed_addrs_from listeners l)
   \<and> set (seed_addrs_from listeners l) \<subseteq>
       with_peer_id l ` {a \<in> set listeners. addr_class a = Some (Some False \<notin> addr_class ` set listeners)}"
proof -
  obtain routable loopback where f: "fold (seed_addr_entry l) listeners ([], []) = (routable, loopback)"
    by fastforce
  have d: "distinct routable" "distinct loopback"
    and r: "set routable = with_peer_id l ` {a \<in> set listeners. addr_class a = Some False}"
    and lo: "set loopback = with_peer_id l ` {a \<in> set listeners. addr_class a = Some True}"
    using fold_seed_addr_entry [of "([], [])" l listeners] by (simp_all add: f)
  let ?out = "if routable = [] then loopback else routable"
  have s: "seed_addrs_from listeners l = take MAX_SEED_ADDRS ?out" by (simp add: seed_addrs_from_def f)
  have "routable = [] \<longleftrightarrow> set routable = {}" by simp
  also have "\<dots> \<longleftrightarrow> (Some False \<notin> addr_class ` set listeners)" unfolding r by force
  finally have "routable = [] \<longleftrightarrow> (Some False \<notin> addr_class ` set listeners)" .
  then have iff: "(routable = []) = (Some False \<notin> addr_class ` set listeners)" .
  have gen: "(if q then A True else A False) = A q" for q and A :: "bool \<Rightarrow> 'a multiaddr set"
    by (cases q) simp_all
  have out: "set ?out = with_peer_id l `
      {a \<in> set listeners. addr_class a = Some (Some False \<notin> addr_class ` set listeners)}"
    unfolding if_distrib [of set] r lo iff
    by (rule gen [where A = "\<lambda>q. with_peer_id l ` {a \<in> set listeners. addr_class a = Some q}"])
  have sub: "set (seed_addrs_from listeners l) \<subseteq> with_peer_id l `
      {a \<in> set listeners. addr_class a = Some (Some False \<notin> addr_class ` set listeners)}"
    unfolding s out [symmetric] by (rule set_take_subset)
  have "bootstrap_peer_id a \<noteq> None" if "a \<in> set (seed_addrs_from listeners l)" for a
  proof -
    from subsetD [OF sub that] obtain b where "a = with_peer_id l b" by blast
    then show ?thesis using with_peer_id_names [of l b] by simp
  qed
  then have "None \<notin> bootstrap_peer_id ` set (seed_addrs_from listeners l)" by (metis imageE)
  moreover have "distinct (seed_addrs_from listeners l)" unfolding s using d by (simp add: distinct_take)
  moreover have "length (seed_addrs_from listeners l) \<le> MAX_SEED_ADDRS" unfolding s by simp
  ultimately show ?thesis using sub by blast
qed

subsection \<open>What a seed adds\<close>

lemma map_sum_Ok_iff: "map_sum id f r = Ok y \<longleftrightarrow> (\<exists>x. r = Ok x \<and> y = f x)"
  by (cases r) auto

text \<open>Seeded addresses are accepted all together or not at all: the result, when there is one, lists
  the parse of every address in order, each naming a peer that is not this node, and there are one to
  \<open>MAX_SEED_ADDRS\<close> of them; and every such list is accepted.\<close>

theorem parse_peer_addrs_all:
  "parse_peer_addrs parse addrs l = Ok mas \<longleftrightarrow>
    addrs \<noteq> [] \<and> length addrs \<le> MAX_SEED_ADDRS
    \<and> map (\<lambda>a. parse (trim a)) addrs = map Some mas
    \<and> list_all (\<lambda>ma. bootstrap_peer_id ma \<notin> {None, Some l}) mas"
proof -
  have "parse_each parse l i addrs = Ok mas \<longleftrightarrow>
      map (\<lambda>a. parse (trim a)) addrs = map Some mas
      \<and> list_all (\<lambda>ma. bootstrap_peer_id ma \<notin> {None, Some l}) mas" for i
  proof (induction addrs arbitrary: i mas)
    case (Cons a rest)
    have "parse_each parse l i (a # rest) = Ok mas \<longleftrightarrow>
        (\<exists>m ms. mas = m # ms \<and> parse (trim a) = Some m \<and> bootstrap_peer_id m \<notin> {None, Some l}
          \<and> parse_each parse l (i + 1) rest = Ok ms)"
      by (auto simp: map_sum_Ok_iff split: option.splits)
    then show ?case unfolding Cons.IH by (cases mas) auto
  qed auto
  then show ?thesis by (auto simp: parse_peer_addrs_def not_le)
qed

subsection \<open>The listen port of a group\<close>

lemma port_offset_less: "unat (port_offset keccak256 grp) < 1024"
  by (simp add: port_offset_def GROUP_PORT_SPAN_def Let_def unat_mod)

text \<open>C39. A group's listen port stays within \<open>GROUP_PORT_SPAN\<close> of the configured one and never wraps
  around: a port that would leave the 16-bit range becomes 0, which asks for an ephemeral port, as
  does a configured port of 0; every other protocol of the address is kept.\<close>

theorem group_listen_port:
  "length (group_listen keccak256 base grp) = length base
   \<and> list_all2 (\<lambda>p q. case p of
       Tcp port \<Rightarrow> (\<exists>port'. q = Tcp port' \<and>
         unat port' = (if port = 0 \<or> 2 ^ 16 \<le> unat port + unat (port_offset keccak256 grp) then 0
           else unat port + unat (port_offset keccak256 grp)))
     | _ \<Rightarrow> q = p) base (group_listen keccak256 base grp)
   \<and> unat (port_offset keccak256 grp) < unat GROUP_PORT_SPAN"
proof (intro conjI)
  have add: "unat (a + b) = unat a + unat b" if "unat a + unat b < 65536" for a b :: "16 word"
    using that by (subst unat_add_lem [THEN iffD1]) simp_all
  show "list_all2 (\<lambda>p q. case p of
       Tcp port \<Rightarrow> (\<exists>port'. q = Tcp port' \<and>
         unat port' = (if port = 0 \<or> 2 ^ 16 \<le> unat port + unat (port_offset keccak256 grp) then 0
           else unat port + unat (port_offset keccak256 grp)))
     | _ \<Rightarrow> q = p) base (group_listen keccak256 base grp)"
    unfolding group_listen_def list_all2_map2
    by (rule list_all2_refl) (auto simp: checked_add16_def add not_less split: protocol.splits)
  show "unat (port_offset keccak256 grp) < unat GROUP_PORT_SPAN"
    using port_offset_less [of keccak256 grp] by (simp add: GROUP_PORT_SPAN_def)
qed (simp add: group_listen_def)

end
