(* ===== verification/Swarm.thy ===== *)
theory Swarm
  imports Multiaddr Device
begin

section \<open>The swarm of a group\<close>

text \<open>
  \<open>Libp2pTransport\<close> and its driver task \<open>swarm_loop\<close> (\<open>crates/cluster-daemon/src/libp2p_transport.rs\<close>).
  One state holds what the surface and the task share under a lock (\<open>sw_authorized\<close>, \<open>sw_connected\<close>,
  \<open>sw_inbox\<close>), the command channel, the task's local tables, and of the libp2p swarm what the code reads
  or drives: the connected peers, the peers gossip has blacklisted (\<open>sw_gated\<close>) and the application
  scores it was given for peers, the peers it has told to disconnect, the dials and publications it has
  asked for. Each arm of the task's \<open>select!\<close> is a function; an arm that takes the lock twice
  (\<open>identify\<close> and a gossip message) is two functions with \<open>sw_pending\<close> between
  them, because the surface may take the lock in between. The step relation interleaves the arms with
  the calls of the surface in every possible way. Times are milliseconds. The two queries that answer
  through a oneshot channel (\<open>Listeners\<close>, \<open>SeedAddrs\<close>) are read directly, since the caller blocks on
  them.
\<close>

subsection \<open>Keys and addresses\<close>

record ('k, 's, 'p) peer_keys =
  pk_peer_id :: "'k \<Rightarrow> 'p"
  pk_secp256k1 :: "'k \<Rightarrow> 's option"
  pk_uncompressed :: "'s \<Rightarrow> rstr"
  pk_keccak256 :: "rstr \<Rightarrow> rstr"
  pk_hex_encode :: "rstr \<Rightarrow> rstr"
  pk_multihash_code :: "'p \<Rightarrow> nat"
  pk_multihash_digest :: "'p \<Rightarrow> rstr"
  pk_decode_protobuf :: "rstr \<Rightarrow> 'k option"

definition address_from_public_key :: "('k, 's, 'p) peer_keys \<Rightarrow> 'k \<Rightarrow> rstr option" where
  "address_from_public_key K pk =
    (case pk_secp256k1 K pk of
       None \<Rightarrow> None
     | Some secp \<Rightarrow> Some (pk_hex_encode K (drop 12 (pk_keccak256 K (drop 1 (pk_uncompressed K secp))))))"

definition address_from_peer_id :: "('k, 's, 'p) peer_keys \<Rightarrow> 'p \<Rightarrow> rstr option" where
  "address_from_peer_id K peer =
    (if pk_multihash_code K peer \<noteq> 0 then None
     else case pk_decode_protobuf K (pk_multihash_digest K peer) of
            None \<Rightarrow> None
          | Some pk \<Rightarrow> address_from_public_key K pk)"

definition peer_authorized :: "('k, 's, 'p) peer_keys \<Rightarrow> rstr fset \<Rightarrow> 'p \<Rightarrow> bool" where
  "peer_authorized K authorized peer \<longleftrightarrow>
    (case address_from_peer_id K peer of None \<Rightarrow> False | Some a \<Rightarrow> a |\<in>| authorized)"

subsection \<open>State\<close>

definition IDENTIFY_TIMEOUT :: nat where
  "IDENTIFY_TIMEOUT = 5000"

datatype 'p swarm_cmd = CmdPublish rstr | CmdDial "'p multiaddr" | CmdDisconnect rstr

text \<open>What the task still has to do under the lock in the arm it is executing.\<close>

datatype pending = NoPending | PendingConnected rstr | PendingInbox rstr rstr

record 'p swarm =
  sw_topic_hash :: rstr
  sw_authorized :: "rstr fset"
  sw_connected :: "rstr fset"
  sw_inbox :: "mesh_message list"
  sw_cmds :: "'p swarm_cmd list"
  sw_running :: bool
  sw_pending :: pending
  sw_peer_addr :: "('p, rstr) fmap"
  sw_unidentified :: "('p, nat) fmap"
  sw_bootstrap :: "'p multiaddr list"
  sw_discovered :: "'p discovered"
  sw_live :: "'p fset"
  sw_gated :: "'p fset"
  sw_app_score :: "('p, int) fmap"
  sw_closing :: "'p fset"
  sw_listeners :: "'p multiaddr list"
  sw_dialed :: "'p dial_opts list"
  sw_published :: "rstr list"

definition swarm_init :: "rstr \<Rightarrow> 'p multiaddr list \<Rightarrow> 'p multiaddr list \<Rightarrow> 'p swarm" where
  "swarm_init topic_hash bootstrap listeners =
    \<lparr>sw_topic_hash = topic_hash, sw_authorized = {||}, sw_connected = {||}, sw_inbox = [], sw_cmds = [], sw_running = True,
     sw_pending = NoPending, sw_peer_addr = fmempty, sw_unidentified = fmempty,
     sw_bootstrap = take MAX_BOOTSTRAP bootstrap, sw_discovered = fmempty, sw_live = {||}, sw_gated = {||},
     sw_app_score = fmempty, sw_closing = {||}, sw_listeners = listeners, sw_dialed = map DialUnknown bootstrap, sw_published = []\<rparr>"

subsection \<open>The surface\<close>

definition send_cmd :: "'p swarm_cmd \<Rightarrow> 'p swarm \<Rightarrow> 'p swarm" where
  "send_cmd c s = (if sw_running s then s\<lparr>sw_cmds := sw_cmds s @ [c]\<rparr> else s)"

definition lt_dial :: "rstr \<Rightarrow> 'p swarm \<Rightarrow> 'p swarm" where
  "lt_dial peer s =
    (case canonical_address peer of
       Some a \<Rightarrow> s\<lparr>sw_authorized := finsert a (sw_authorized s)\<rparr>
     | None \<Rightarrow> s)"

definition lt_disconnect :: "rstr \<Rightarrow> 'p swarm \<Rightarrow> 'p swarm" where
  "lt_disconnect peer s =
    (case canonical_address peer of
       Some a \<Rightarrow>
         send_cmd (CmdDisconnect a)
           (s\<lparr>sw_authorized := sw_authorized s |-| {|a|}, sw_connected := sw_connected s |-| {|a|}\<rparr>)
     | None \<Rightarrow> s)"

definition lt_connected :: "'p swarm \<Rightarrow> rstr list" where
  "lt_connected s = sorted_list_of_fset (sw_connected s)"

definition lt_publish :: "rstr \<Rightarrow> rstr \<Rightarrow> 'p swarm \<Rightarrow> 'p swarm" where
  "lt_publish sender body s = send_cmd (CmdPublish body) s"

definition lt_drain :: "'p swarm \<Rightarrow> mesh_message list \<times> 'p swarm" where
  "lt_drain s = (sw_inbox s, s\<lparr>sw_inbox := []\<rparr>)"

definition MESH_STOPPED :: rstr where
  "MESH_STOPPED = ''the group'' @ [CHR 0x27] @ ''s mesh has stopped''"

definition SWARM_GONE :: rstr where
  "SWARM_GONE = ''swarm task is gone''"

fun parse_error_text :: "parse_error \<Rightarrow> rstr" where
  "parse_error_text (AddrCountError n) =
    ''between 1 and '' @ show_dec MAX_SEED_ADDRS @ '' peer addresses, got '' @ show_dec n"
| "parse_error_text (NotMultiaddr i) = ''peer address '' @ show_dec i @ '' is not a multiaddr''"
| "parse_error_text (NoPeer i) = ''peer address '' @ show_dec i @ '' names no /p2p/ peer''"
| "parse_error_text (IsThisNode i) = ''peer address '' @ show_dec i @ '' is this node''"

definition lt_add_peers ::
  "(rstr \<Rightarrow> 'p multiaddr option) \<Rightarrow> 'p \<Rightarrow> rstr list \<Rightarrow> 'p swarm \<Rightarrow> (rstr + nat) \<times> 'p swarm" where
  "lt_add_peers parse local_peer addrs s =
    (case parse_peer_addrs parse addrs local_peer of
       Err e \<Rightarrow> (Err (parse_error_text e), s)
     | Ok mas \<Rightarrow>
         if sw_running s then (Ok (length mas), fold (\<lambda>a. send_cmd (CmdDial a)) mas s)
         else (Err MESH_STOPPED, s))"

definition lt_seed_addrs :: "('p multiaddr \<Rightarrow> rstr) \<Rightarrow> 'p \<Rightarrow> 'p swarm \<Rightarrow> rstr + rstr list" where
  "lt_seed_addrs to_string local_peer s =
    (if sw_running s then Ok (map to_string (seed_addrs_from (sw_listeners s) local_peer)) else Err SWARM_GONE)"

text \<open>The transport of one group: \<open>parse\<close> and \<open>to_string\<close> are those of \<open>Multiaddr\<close>.\<close>

definition libp2p_transport ::
  "(rstr \<Rightarrow> 'p multiaddr option) \<Rightarrow> ('p multiaddr \<Rightarrow> rstr) \<Rightarrow> 'p \<Rightarrow> 'p swarm mesh_transport" where
  "libp2p_transport parse to_string local_peer =
    \<lparr>tr_dial = lt_dial, tr_disconnect = lt_disconnect, tr_connected = lt_connected,
     tr_publish = lt_publish, tr_drain = lt_drain, tr_authorize = lt_dial,
     tr_add_peers = lt_add_peers parse local_peer, tr_seed_addrs = lt_seed_addrs to_string local_peer\<rparr>"

subsection \<open>The task\<close>

text \<open>The scores and thresholds are whole numbers in the code too, of type \<open>f64\<close>.\<close>

definition UNADMITTED_APP_SCORE :: int where
  "UNADMITTED_APP_SCORE = -1000"

record score_params =
  sp_app_specific_weight :: int
  sp_ip_colocation_factor_weight :: int

definition admission_score_params :: score_params where
  "admission_score_params = \<lparr>sp_app_specific_weight = 1, sp_ip_colocation_factor_weight = 0\<rparr>"

record score_thresholds =
  th_gossip :: int
  th_publish :: int
  th_graylist :: int

definition admission_score_thresholds :: score_thresholds where
  "admission_score_thresholds = \<lparr>th_gossip = -10, th_publish = -50, th_graylist = -10000\<rparr>"

definition gate_peer :: "'p \<Rightarrow> 'p swarm \<Rightarrow> 'p swarm" where
  "gate_peer p s =
    s\<lparr>sw_gated := finsert p (sw_gated s), sw_app_score := fmupd p UNADMITTED_APP_SCORE (sw_app_score s)\<rparr>"

definition ungate_peer :: "'p \<Rightarrow> 'p swarm \<Rightarrow> 'p swarm" where
  "ungate_peer p s = s\<lparr>sw_gated := sw_gated s |-| {|p|}, sw_app_score := fmupd p 0 (sw_app_score s)\<rparr>"

text \<open>\<open>swarm.disconnect_peer_id(p)\<close>: closes the connections of a connected peer, later.\<close>

definition disconnect_peer_id :: "'p \<Rightarrow> 'p swarm \<Rightarrow> 'p swarm" where
  "disconnect_peer_id p s = (if p |\<in>| sw_live s then s\<lparr>sw_closing := finsert p (sw_closing s)\<rparr> else s)"

definition swarm_dial :: "'p dial_opts \<Rightarrow> 'p swarm \<Rightarrow> 'p swarm" where
  "swarm_dial opts s = s\<lparr>sw_dialed := sw_dialed s @ [opts]\<rparr>"

definition drop_unidentified :: "'p \<Rightarrow> 'p swarm \<Rightarrow> 'p swarm" where
  "drop_unidentified p s =
    disconnect_peer_id p (gate_peer p (s\<lparr>sw_unidentified := fmdrop p (sw_unidentified s)\<rparr>))"

definition on_sweep :: "nat \<Rightarrow> ('p::linorder) swarm \<Rightarrow> 'p swarm" where
  "on_sweep now s =
    (let expired = map fst (filter (\<lambda>(p, since). IDENTIFY_TIMEOUT \<le> now - since) (sorted_list_of_fmap (sw_unidentified s)))
     in fold drop_unidentified expired s)"

definition on_redial :: "('k, 's, 'p::linorder) peer_keys \<Rightarrow> 'p swarm \<Rightarrow> 'p swarm" where
  "on_redial K s =
    (let any_admitted = (sw_peer_addr s \<noteq> fmempty);
         s1 = fold (\<lambda>addr. swarm_dial (redial_opts addr))
                (redial_targets (sw_bootstrap s) (\<lambda>p. p |\<in>| sw_live s) any_admitted) s;
         due = discovery_targets (sw_discovered s1) (\<lambda>p. p |\<in>| sw_live s1) (peer_authorized K (sw_authorized s1))
     in fold (\<lambda>(peer, addrs). swarm_dial (DialPeer peer addrs)) due s1)"

fun on_cmd :: "('p::linorder) swarm_cmd \<Rightarrow> 'p swarm \<Rightarrow> 'p swarm" where
  "on_cmd (CmdPublish bytes) s = s\<lparr>sw_published := sw_published s @ [bytes]\<rparr>"
| "on_cmd (CmdDial addr) s =
    swarm_dial (redial_opts addr) (s\<lparr>sw_bootstrap := remember_bootstrap (sw_bootstrap s) addr\<rparr>)"
| "on_cmd (CmdDisconnect address) s =
    fold (\<lambda>p s. disconnect_peer_id p (gate_peer p s))
      (map fst (filter (\<lambda>(p, a). a = address) (sorted_list_of_fmap (sw_peer_addr s)))) s"

definition on_established :: "nat \<Rightarrow> 'p \<Rightarrow> 'p swarm \<Rightarrow> 'p swarm" where
  "on_established now p s =
    (let s1 = s\<lparr>sw_live := finsert p (sw_live s)\<rparr>
     in if p |\<notin>| fmdom (sw_peer_addr s1)
        then (gate_peer p s1)\<lparr>sw_unidentified :=
               (if p |\<in>| fmdom (sw_unidentified s1) then sw_unidentified s1
                else fmupd p now (sw_unidentified s1))\<rparr>
        else s1)"

definition on_identify :: "('k, 's, 'p) peer_keys \<Rightarrow> 'p \<Rightarrow> 'k \<Rightarrow> 'p swarm \<Rightarrow> 'p swarm" where
  "on_identify K p public_key s =
    (let s1 = s\<lparr>sw_unidentified := fmdrop p (sw_unidentified s)\<rparr>
     in if pk_peer_id K public_key \<noteq> p then disconnect_peer_id p s1
        else case address_from_public_key K public_key of
               None \<Rightarrow> disconnect_peer_id p s1
             | Some address \<Rightarrow>
                 if address |\<in>| sw_authorized s1
                 then (ungate_peer p (s1\<lparr>sw_peer_addr := fmupd p address (sw_peer_addr s1)\<rparr>))
                        \<lparr>sw_pending := PendingConnected address\<rparr>
                 else disconnect_peer_id p (gate_peer p s1))"

text \<open>A gossip message: the hash of its topic, the source, if any, and the bytes.\<close>

definition on_message :: "rstr \<Rightarrow> 'p option \<Rightarrow> rstr \<Rightarrow> 'p swarm \<Rightarrow> 'p swarm" where
  "on_message topic source bytes s =
    (if topic \<noteq> sw_topic_hash s then s
     else case source of
       None \<Rightarrow> s
     | Some p \<Rightarrow>
         (case fmlookup (sw_peer_addr s) p of
            None \<Rightarrow> s
          | Some address \<Rightarrow>
              if address |\<notin>| sw_authorized s then s
              else (case accept_payload bytes of
                      None \<Rightarrow> s
                    | Some body \<Rightarrow> s\<lparr>sw_pending := PendingInbox address body\<rparr>)))"

text \<open>The second critical section of \<open>identify\<close> and of a message.\<close>

fun on_pending :: "pending \<Rightarrow> 'p swarm \<Rightarrow> 'p swarm" where
  "on_pending NoPending s = s"
| "on_pending (PendingConnected address) s =
    s\<lparr>sw_pending := NoPending, sw_connected := finsert address (sw_connected s)\<rparr>"
| "on_pending (PendingInbox address body) s =
    s\<lparr>sw_pending := NoPending,
      sw_inbox := snd (push_inbox (sw_inbox s) \<lparr>msg_from = address, msg_data = body\<rparr>)\<rparr>"

text \<open>The state of the loop over the found records: the table and the peers newly learned.\<close>

definition discover_entry ::
  "'p \<Rightarrow> 'p \<times> 'p multiaddr \<Rightarrow> 'p discovered \<times> 'p list \<Rightarrow> 'p discovered \<times> 'p list" where
  "discover_entry local_peer e acc =
    (case e of (peer, addr) \<Rightarrow> case acc of (disc, fresh) \<Rightarrow>
       if peer = local_peer then (disc, fresh)
       else case remember_discovered peer addr disc of (learned, disc') \<Rightarrow>
              (disc', if learned \<and> peer \<notin> set fresh then fresh @ [peer] else fresh))"

definition dial_fresh :: "('k, 's, 'p) peer_keys \<Rightarrow> rstr fset \<Rightarrow> 'p \<Rightarrow> 'p swarm \<Rightarrow> 'p swarm" where
  "dial_fresh K authorized peer s =
    (if peer |\<in>| sw_live s \<or> \<not> peer_authorized K authorized peer then s
     else case fmlookup (sw_discovered s) peer of
            Some addrs \<Rightarrow> swarm_dial (DialPeer peer addrs) s
          | None \<Rightarrow> s)"

definition on_discovered ::
  "('k, 's, 'p) peer_keys \<Rightarrow> 'p \<Rightarrow> ('p \<times> 'p multiaddr) list \<Rightarrow> 'p swarm \<Rightarrow> 'p swarm" where
  "on_discovered K local_peer found s =
    (case fold (discover_entry local_peer) found (sw_discovered s, []) of (disc, fresh) \<Rightarrow>
       let s1 = s\<lparr>sw_discovered := disc\<rparr>
       in fold (dial_fresh K (sw_authorized s1)) fresh s1)"

definition on_expired :: "('p \<times> 'p multiaddr) list \<Rightarrow> 'p swarm \<Rightarrow> 'p swarm" where
  "on_expired gone s =
    s\<lparr>sw_discovered := fold (\<lambda>(peer, addr). forget_discovered peer addr) gone (sw_discovered s)\<rparr>"

text \<open>The last connection of a peer is closed.\<close>

definition on_closed :: "'p \<Rightarrow> 'p swarm \<Rightarrow> 'p swarm" where
  "on_closed p s =
    (let s1 = s\<lparr>sw_live := sw_live s |-| {|p|}, sw_closing := sw_closing s |-| {|p|},
                sw_unidentified := fmdrop p (sw_unidentified s), sw_gated := sw_gated s |-| {|p|}\<rparr>
     in case fmlookup (sw_peer_addr s1) p of
          None \<Rightarrow> s1
        | Some address \<Rightarrow>
            s1\<lparr>sw_peer_addr := fmdrop p (sw_peer_addr s1), sw_connected := sw_connected s1 |-| {|address|}\<rparr>)"

subsection \<open>Steps\<close>

text \<open>
  The surface may act at any time. The task acts while it runs, one arm after the other: no arm starts
  before the one in progress has finished. libp2p reports \<open>identify\<close> for connected peers only.
\<close>

inductive swarm_step ::
  "('k, 's, 'p::linorder) peer_keys \<Rightarrow> 'p \<Rightarrow> 'p swarm \<Rightarrow> 'p swarm \<Rightarrow> bool" for K local_peer where
  surface_dial: "swarm_step K local_peer s (lt_dial peer s)"
| surface_disconnect: "swarm_step K local_peer s (lt_disconnect peer s)"
| surface_publish: "swarm_step K local_peer s (lt_publish sender body s)"
| surface_drain: "swarm_step K local_peer s (snd (lt_drain s))"
| surface_add_peers: "swarm_step K local_peer s (snd (lt_add_peers parse local_peer addrs s))"
| task_pending: "sw_running s \<Longrightarrow> sw_pending s \<noteq> NoPending \<Longrightarrow>
    swarm_step K local_peer s (on_pending (sw_pending s) s)"
| task_sweep: "sw_running s \<Longrightarrow> sw_pending s = NoPending \<Longrightarrow> swarm_step K local_peer s (on_sweep now s)"
| task_redial: "sw_running s \<Longrightarrow> sw_pending s = NoPending \<Longrightarrow> swarm_step K local_peer s (on_redial K s)"
| task_cmd: "sw_running s \<Longrightarrow> sw_pending s = NoPending \<Longrightarrow> sw_cmds s = c # cs \<Longrightarrow>
    swarm_step K local_peer s (on_cmd c (s\<lparr>sw_cmds := cs\<rparr>))"
| task_established: "sw_running s \<Longrightarrow> sw_pending s = NoPending \<Longrightarrow>
    swarm_step K local_peer s (on_established now p s)"
| task_identify: "sw_running s \<Longrightarrow> sw_pending s = NoPending \<Longrightarrow> p |\<in>| sw_live s \<Longrightarrow>
    swarm_step K local_peer s (on_identify K p key s)"
| task_message: "sw_running s \<Longrightarrow> sw_pending s = NoPending \<Longrightarrow>
    swarm_step K local_peer s (on_message topic source bytes s)"
| task_discovered: "sw_running s \<Longrightarrow> sw_pending s = NoPending \<Longrightarrow>
    swarm_step K local_peer s (on_discovered K local_peer found s)"
| task_expired: "sw_running s \<Longrightarrow> sw_pending s = NoPending \<Longrightarrow> swarm_step K local_peer s (on_expired gone s)"
| task_closed: "sw_running s \<Longrightarrow> sw_pending s = NoPending \<Longrightarrow> swarm_step K local_peer s (on_closed p s)"
| env_listeners: "swarm_step K local_peer s (s\<lparr>sw_listeners := listeners\<rparr>)"
| env_stopped: "swarm_step K local_peer s (s\<lparr>sw_running := False\<rparr>)"

inductive_cases swarm_stepE: "swarm_step K local_peer s s'"

abbreviation swarm_reach :: "('k, 's, 'p::linorder) peer_keys \<Rightarrow> 'p \<Rightarrow> 'p swarm \<Rightarrow> 'p swarm \<Rightarrow> bool" where
  "swarm_reach K local_peer \<equiv> (swarm_step K local_peer)\<^sup>*\<^sup>*"

end
