(* ===== verification/Swarm_Inv.thy ===== *)
theory Swarm_Inv
  imports Swarm
begin

section \<open>What the swarm keeps\<close>

text \<open>
  Four invariants of the reachable states of a swarm, each kept by every step. \<open>conn_ok\<close>: a connected
  address belongs to an identified peer, and is authorized or about to be dropped. \<open>gate_ok\<close>: a
  connected peer that is not identified is gated and has a deadline or is being closed. \<open>score_ok\<close>: a
  connected peer has the low score exactly when it is gated. \<open>bounds_ok\<close>:
  the inbox, the re-dial list and the discovery table are bounded. \<open>inj_peer_id\<close> is what libp2p
  promises of a \<open>PeerId\<close>: different keys have different ones.
\<close>

subsection \<open>The loops of the arms, solved\<close>

lemma fold_swarm_dial: "fold (\<lambda>a. swarm_dial (f a)) xs s = s\<lparr>sw_dialed := sw_dialed s @ map f xs\<rparr>"
  by (induction xs arbitrary: s) (simp_all add: swarm_dial_def)

text \<open>The same score for several peers.\<close>

definition score_all :: "'p list \<Rightarrow> int \<Rightarrow> ('p, int) fmap \<Rightarrow> ('p, int) fmap" where
  "score_all ps v m = fold (\<lambda>p. fmupd p v) ps m"

lemma score_all_simps [simp]:
  "score_all [] v m = m" "score_all (p # ps) v m = score_all ps v (fmupd p v m)"
  by (simp_all add: score_all_def)

lemma score_all_lookup: "fmlookup (score_all ps v m) q = (if q \<in> set ps then Some v else fmlookup m q)"
  by (induction ps arbitrary: m) auto

lemma fold_drop_unidentified:
  "fold drop_unidentified ps s =
    s\<lparr>sw_unidentified := fmdrop_fset (fset_of_list ps) (sw_unidentified s),
      sw_gated := sw_gated s |\<union>| fset_of_list ps,
      sw_app_score := score_all ps UNADMITTED_APP_SCORE (sw_app_score s),
      sw_closing := sw_closing s |\<union>| (fset_of_list ps |\<inter>| sw_live s)\<rparr>"
proof (induction ps arbitrary: s)
  case (Cons p ps)
  have "fmdrop_fset (fset_of_list (p # ps)) m = fmdrop_fset (fset_of_list ps) (fmdrop p m)" for m :: "('a, nat) fmap"
    by (rule fmap_ext) auto
  moreover have "drop_unidentified p s =
    s\<lparr>sw_unidentified := fmdrop p (sw_unidentified s), sw_gated := finsert p (sw_gated s),
      sw_app_score := fmupd p UNADMITTED_APP_SCORE (sw_app_score s),
      sw_closing := sw_closing s |\<union>| ({|p|} |\<inter>| sw_live s)\<rparr>"
    by (auto simp: drop_unidentified_def gate_peer_def disconnect_peer_id_def)
  moreover have "sw_closing s |\<union>| ({|p|} |\<inter>| sw_live s) |\<union>| (fset_of_list ps |\<inter>| sw_live s)
      = sw_closing s |\<union>| (fset_of_list (p # ps) |\<inter>| sw_live s)" by auto
  ultimately show ?case by (simp add: Cons.IH del: fmdrop_fset_insert)
qed simp

lemma fold_disconnect:
  "fold (\<lambda>p s. disconnect_peer_id p (gate_peer p s)) ps s =
    s\<lparr>sw_gated := sw_gated s |\<union>| fset_of_list ps,
      sw_app_score := score_all ps UNADMITTED_APP_SCORE (sw_app_score s),
      sw_closing := sw_closing s |\<union>| (fset_of_list ps |\<inter>| sw_live s)\<rparr>"
  by (induction ps arbitrary: s) (auto simp: gate_peer_def disconnect_peer_id_def)

lemma fold_dial_fresh: "\<exists>ds. fold (dial_fresh K au) ps s = s\<lparr>sw_dialed := ds\<rparr>"
proof (induction ps arbitrary: s)
  case Nil
  have "fold (dial_fresh K au) [] s = s\<lparr>sw_dialed := sw_dialed s\<rparr>" by simp
  then show ?case by blast
next
  case (Cons p ps)
  obtain d where "dial_fresh K au p s = s\<lparr>sw_dialed := d\<rparr>"
    by (cases "p |\<in>| sw_live s \<or> \<not> peer_authorized K au p"; cases "fmlookup (sw_discovered s) p")
      (auto simp: dial_fresh_def swarm_dial_def intro: that [of "sw_dialed s"])
  moreover obtain d' where "fold (dial_fresh K au) ps (s\<lparr>sw_dialed := d\<rparr>) = (s\<lparr>sw_dialed := d\<rparr>)\<lparr>sw_dialed := d'\<rparr>"
    using Cons.IH by blast
  ultimately show ?case by (auto intro!: exI [of _ d'])
qed

text \<open>Dials change nothing the invariants read.\<close>

lemma fold_dial_pairs:
  "fold (\<lambda>(peer, addrs). swarm_dial (DialPeer peer addrs)) xs s =
    s\<lparr>sw_dialed := sw_dialed s @ map (\<lambda>(p, as). DialPeer p as) xs\<rparr>"
  by (induction xs arbitrary: s) (auto simp: swarm_dial_def)

lemma on_redial_eq: "\<exists>ds. on_redial K s = s\<lparr>sw_dialed := ds\<rparr>"
  by (simp add: on_redial_def Let_def fold_swarm_dial fold_dial_pairs) blast

lemma fold_discover_entry:
  "discovered_ok disc \<Longrightarrow> discovered_ok (fst (fold (discover_entry l) found (disc, fresh)))"
proof (induction found arbitrary: disc fresh)
  case (Cons e found)
  obtain p a where e: "e = (p, a)" by (cases e)
  obtain learned disc' where r: "remember_discovered p a disc = (learned, disc')" by fastforce
  have "discovered_ok disc'" using remember_discovered_ok [OF Cons.prems, of p a] by (simp add: r)
  with Cons e r show ?case by (simp add: discover_entry_def)
qed simp

lemma on_discovered_eq:
  "\<exists>disc ds. on_discovered K l found s = s\<lparr>sw_discovered := disc, sw_dialed := ds\<rparr>
    \<and> (discovered_ok (sw_discovered s) \<longrightarrow> discovered_ok disc)"
proof -
  obtain disc fresh where f: "fold (discover_entry l) found (sw_discovered s, []) = (disc, fresh)" by fastforce
  obtain ds where "fold (dial_fresh K (sw_authorized (s\<lparr>sw_discovered := disc\<rparr>))) fresh (s\<lparr>sw_discovered := disc\<rparr>)
      = (s\<lparr>sw_discovered := disc\<rparr>)\<lparr>sw_dialed := ds\<rparr>" using fold_dial_fresh by blast
  then have "on_discovered K l found s = s\<lparr>sw_discovered := disc, sw_dialed := ds\<rparr>"
    by (simp add: on_discovered_def f Let_def)
  moreover have "discovered_ok (sw_discovered s) \<longrightarrow> discovered_ok disc"
    using fold_discover_entry [of "sw_discovered s" l found "[]"] by (simp add: f)
  ultimately show ?thesis by blast
qed

lemma on_expired_ok:
  "discovered_ok (sw_discovered s) \<Longrightarrow> discovered_ok (sw_discovered (on_expired gone s))"
proof -
  have "discovered_ok disc \<Longrightarrow> discovered_ok (fold (\<lambda>(p, a). forget_discovered p a) gone disc)" for disc :: "'a discovered"
    by (induction gone arbitrary: disc) (auto simp: forget_discovered_ok)
  then show "discovered_ok (sw_discovered s) \<Longrightarrow> discovered_ok (sw_discovered (on_expired gone s))"
    by (simp add: on_expired_def)
qed

lemma on_sweep_eq:
  "on_sweep now s =
    (let ps = map fst (filter (\<lambda>(p, since). IDENTIFY_TIMEOUT \<le> now - since) (sorted_list_of_fmap (sw_unidentified s)))
     in s\<lparr>sw_unidentified := fmdrop_fset (fset_of_list ps) (sw_unidentified s),
          sw_gated := sw_gated s |\<union>| fset_of_list ps,
          sw_app_score := score_all ps UNADMITTED_APP_SCORE (sw_app_score s),
          sw_closing := sw_closing s |\<union>| (fset_of_list ps |\<inter>| sw_live s)\<rparr>)"
  by (simp add: on_sweep_def Let_def fold_drop_unidentified)

lemma on_disconnect_eq:
  "on_cmd (CmdDisconnect address) s =
    (let ps = map fst (filter (\<lambda>(p, a). a = address) (sorted_list_of_fmap (sw_peer_addr s)))
     in s\<lparr>sw_gated := sw_gated s |\<union>| fset_of_list ps,
          sw_app_score := score_all ps UNADMITTED_APP_SCORE (sw_app_score s),
          sw_closing := sw_closing s |\<union>| (fset_of_list ps |\<inter>| sw_live s)\<rparr>)"
  by (simp add: Let_def fold_disconnect)

lemma disconnect_targets:
  "p |\<in>| fset_of_list (map fst (filter (\<lambda>(p, a). a = address) (sorted_list_of_fmap m))) \<longleftrightarrow>
    fmlookup m p = Some address"
  by (force simp: fset_of_list_elem set_sorted_list_of_fmap)

lemma fold_send_dial:
  "fold (\<lambda>a. send_cmd (CmdDial a)) mas s =
    (if sw_running s then s\<lparr>sw_cmds := sw_cmds s @ map CmdDial mas\<rparr> else s)"
  by (induction mas arbitrary: s) (simp_all add: send_cmd_def)

subsection \<open>Bounds\<close>

definition bounds_ok :: "'p swarm \<Rightarrow> bool" where
  "bounds_ok s \<longleftrightarrow>
    length (sw_inbox s) \<le> MAX_INBOX \<and> list_all (\<lambda>m. is_valid_cid (msg_data m)) (sw_inbox s)
    \<and> (\<forall>a body. sw_pending s = PendingInbox a body \<longrightarrow> is_valid_cid body)
    \<and> length (sw_bootstrap s) \<le> MAX_BOOTSTRAP \<and> discovered_ok (sw_discovered s)"

lemma remember_bootstrap_length:
  "length b \<le> MAX_BOOTSTRAP \<Longrightarrow> length (remember_bootstrap b a) \<le> MAX_BOOTSTRAP"
  by (auto simp: remember_bootstrap_def MAX_BOOTSTRAP_def)

lemma on_cmd_bounds: "bounds_ok s \<Longrightarrow> bounds_ok (on_cmd c s)"
  by (cases c) (auto simp: bounds_ok_def swarm_dial_def remember_bootstrap_length fold_disconnect)

lemma on_pending_bounds: "bounds_ok s \<Longrightarrow> bounds_ok (on_pending (sw_pending s) s)"
  by (cases "sw_pending s") (auto simp: bounds_ok_def push_inbox_def)

lemma on_identify_bounds: "bounds_ok s \<Longrightarrow> bounds_ok (on_identify K p key s)"
  by (auto simp: bounds_ok_def on_identify_def Let_def disconnect_peer_id_def gate_peer_def ungate_peer_def
      split: option.splits)

lemma on_message_bounds: "bounds_ok s \<Longrightarrow> bounds_ok (on_message topic src bytes s)"
  by (auto simp: bounds_ok_def on_message_def accept_payload_def split: option.splits if_splits)

lemma swarm_step_bounds:
  assumes "swarm_step K l s s'" and "bounds_ok s"
  shows "bounds_ok s'"
  using assms(1)
proof cases
  case (task_redial)
  with on_redial_eq [of K s] assms(2) show ?thesis by (auto simp: bounds_ok_def)
next
  case (task_discovered found)
  with on_discovered_eq [of K l found s] assms(2) show ?thesis by (auto simp: bounds_ok_def)
next
  case (task_expired gone)
  with on_expired_ok [of s gone] assms(2) show ?thesis by (simp add: bounds_ok_def on_expired_def)
next
  case (task_cmd c cs)
  have "bounds_ok (s\<lparr>sw_cmds := cs\<rparr>)" using assms(2) by (simp add: bounds_ok_def)
  with task_cmd show ?thesis by (simp add: on_cmd_bounds)
next
  case (task_pending)
  with assms(2) show ?thesis by (simp add: on_pending_bounds)
next
  case (task_identify p key)
  with assms(2) show ?thesis by (simp add: on_identify_bounds)
next
  case (task_message topic src bytes)
  with assms(2) show ?thesis by (simp add: on_message_bounds)
next
  case (surface_add_peers parse addrs)
  with assms(2) show ?thesis
    by (auto simp: bounds_ok_def lt_add_peers_def fold_send_dial split: sum.splits)
qed (use assms(2) in \<open>auto simp: bounds_ok_def lt_dial_def lt_disconnect_def lt_publish_def lt_drain_def send_cmd_def
    on_sweep_eq Let_def on_established_def gate_peer_def on_closed_def split: option.splits\<close>)

subsection \<open>Gating\<close>

definition gate_ok :: "'p swarm \<Rightarrow> bool" where
  "gate_ok s \<longleftrightarrow>
    fBall (sw_live s) (\<lambda>p. p |\<in>| fmdom (sw_peer_addr s)
      \<or> (p |\<in>| sw_gated s \<and> (p |\<in>| fmdom (sw_unidentified s) \<or> p |\<in>| sw_closing s)))"

lemma gate_okD:
  "gate_ok s \<Longrightarrow> p |\<in>| sw_live s \<Longrightarrow> p |\<in>| fmdom (sw_peer_addr s)
    \<or> (p |\<in>| sw_gated s \<and> (p |\<in>| fmdom (sw_unidentified s) \<or> p |\<in>| sw_closing s))"
  by (auto simp: gate_ok_def)

lemma on_sweep_gate: "gate_ok s \<Longrightarrow> gate_ok (on_sweep now s)"
  by (auto simp: gate_ok_def on_sweep_eq Let_def)

lemma on_cmd_gate: "gate_ok s \<Longrightarrow> gate_ok (on_cmd c s)"
  by (cases c) (auto simp: gate_ok_def swarm_dial_def fold_disconnect)

lemma on_established_gate: "gate_ok s \<Longrightarrow> gate_ok (on_established now p s)"
  by (auto simp: gate_ok_def on_established_def Let_def gate_peer_def)

lemma on_identify_gate:
  assumes "gate_ok s" and "p |\<in>| sw_live s"
  shows "gate_ok (on_identify K p key s)"
proof -
  let ?s1 = "s\<lparr>sw_unidentified := fmdrop p (sw_unidentified s)\<rparr>"
  have gated: "p |\<in>| fmdom (sw_peer_addr s) \<or> p |\<in>| sw_gated s" using gate_okD [OF assms] by blast
  have drop: "gate_ok (disconnect_peer_id p ?s1)" "gate_ok (disconnect_peer_id p (gate_peer p ?s1))"
    using assms gated by (auto simp: gate_ok_def disconnect_peer_id_def gate_peer_def)
  have adm: "gate_ok ((ungate_peer p (?s1\<lparr>sw_peer_addr := fmupd p a (sw_peer_addr ?s1)\<rparr>))\<lparr>sw_pending := x\<rparr>)" for a x
    using assms by (auto simp: gate_ok_def ungate_peer_def)
  show ?thesis using drop adm by (simp add: on_identify_def Let_def split: option.splits)
qed

lemma on_closed_gate: "gate_ok s \<Longrightarrow> gate_ok (on_closed p s)"
  by (auto simp: gate_ok_def on_closed_def Let_def split: option.splits)

lemma on_message_fields:
  "sw_live (on_message topic src bytes s) = sw_live s" "sw_peer_addr (on_message topic src bytes s) = sw_peer_addr s"
  "sw_gated (on_message topic src bytes s) = sw_gated s" "sw_unidentified (on_message topic src bytes s) = sw_unidentified s"
  "sw_closing (on_message topic src bytes s) = sw_closing s" "sw_authorized (on_message topic src bytes s) = sw_authorized s"
  "sw_connected (on_message topic src bytes s) = sw_connected s" "sw_cmds (on_message topic src bytes s) = sw_cmds s"
  "sw_running (on_message topic src bytes s) = sw_running s"
  by (simp_all add: on_message_def split: option.splits)

lemma on_pending_fields:
  "sw_live (on_pending q s) = sw_live s" "sw_peer_addr (on_pending q s) = sw_peer_addr s"
  "sw_gated (on_pending q s) = sw_gated s" "sw_unidentified (on_pending q s) = sw_unidentified s"
  "sw_closing (on_pending q s) = sw_closing s" "sw_authorized (on_pending q s) = sw_authorized s"
  "sw_cmds (on_pending q s) = sw_cmds s" "sw_running (on_pending q s) = sw_running s"
  by (cases q; simp)+

lemma on_message_score: "sw_app_score (on_message topic src bytes s) = sw_app_score s"
  by (simp add: on_message_def split: option.splits)

lemma on_pending_score: "sw_app_score (on_pending q s) = sw_app_score s"
  by (cases q) simp_all

lemma swarm_step_gate:
  assumes "swarm_step K l s s'" and "gate_ok s"
  shows "gate_ok s'"
  using assms(1)
proof cases
  case (task_redial)
  with on_redial_eq [of K s] assms(2) show ?thesis by (auto simp: gate_ok_def)
next
  case (task_discovered found)
  with on_discovered_eq [of K l found s] assms(2) show ?thesis by (auto simp: gate_ok_def)
next
  case (task_cmd c cs)
  have "gate_ok (s\<lparr>sw_cmds := cs\<rparr>)" using assms(2) by (simp add: gate_ok_def)
  with task_cmd show ?thesis by (simp add: on_cmd_gate)
next
  case (surface_add_peers parse addrs)
  with assms(2) show ?thesis by (auto simp: gate_ok_def lt_add_peers_def fold_send_dial split: sum.splits)
qed (use assms(2) in \<open>simp_all add: on_sweep_gate on_established_gate on_identify_gate on_closed_gate\<close>,
    use assms(2) in \<open>auto simp: gate_ok_def on_message_fields on_pending_fields on_expired_def lt_dial_def
      lt_disconnect_def lt_publish_def lt_drain_def send_cmd_def split: option.splits\<close>)

subsection \<open>Scores\<close>

text \<open>A gated peer has the score of an unadmitted one, every other connected peer that of an admitted one.\<close>

definition score_ok :: "'p swarm \<Rightarrow> bool" where
  "score_ok s \<longleftrightarrow> fmdom (sw_peer_addr s) |\<subseteq>| sw_live s
    \<and> fBall (sw_gated s) (\<lambda>p. fmlookup (sw_app_score s) p = Some UNADMITTED_APP_SCORE)
    \<and> fBall (sw_live s) (\<lambda>p. p |\<in>| sw_gated s \<or> fmlookup (sw_app_score s) p = Some 0)"

lemmas score_defs = score_ok_def score_all_lookup fset_of_list_elem

lemma on_sweep_score: "score_ok s \<Longrightarrow> score_ok (on_sweep now s)"
  unfolding on_sweep_eq Let_def by (auto simp: score_defs)

lemma on_cmd_score: "score_ok s \<Longrightarrow> score_ok (on_cmd c s)"
  by (cases c) (auto simp: score_defs swarm_dial_def fold_disconnect)

lemma on_established_score: "score_ok s \<Longrightarrow> score_ok (on_established now p s)"
  by (auto simp: score_defs on_established_def Let_def gate_peer_def)

lemma on_identify_score:
  assumes "score_ok s" and "p |\<in>| sw_live s"
  shows "score_ok (on_identify K p key s)"
proof -
  let ?s1 = "s\<lparr>sw_unidentified := fmdrop p (sw_unidentified s)\<rparr>"
  have drop: "score_ok (disconnect_peer_id p ?s1)" "score_ok (disconnect_peer_id p (gate_peer p ?s1))"
    using assms by (auto simp: score_defs disconnect_peer_id_def gate_peer_def)
  have "score_ok ((ungate_peer p (?s1\<lparr>sw_peer_addr := fmupd p a (sw_peer_addr ?s1)\<rparr>))\<lparr>sw_pending := x\<rparr>)" for a x
    using assms by (auto simp: score_defs ungate_peer_def)
  with drop show ?thesis by (simp add: on_identify_def Let_def split: option.splits)
qed

lemma on_closed_score: "score_ok s \<Longrightarrow> score_ok (on_closed p s)"
  by (auto simp: score_defs on_closed_def Let_def split: option.splits dest: fmdomI)

lemma swarm_step_score:
  assumes "swarm_step K l s s'" and "score_ok s"
  shows "score_ok s'"
  using assms(1)
proof cases
  case (task_redial)
  with on_redial_eq [of K s] assms(2) show ?thesis by (auto simp: score_defs)
next
  case (task_discovered found)
  with on_discovered_eq [of K l found s] assms(2) show ?thesis by (auto simp: score_defs)
next
  case (task_cmd c cs)
  have "score_ok (s\<lparr>sw_cmds := cs\<rparr>)" using assms(2) by (simp add: score_ok_def)
  with task_cmd show ?thesis by (simp add: on_cmd_score)
next
  case (surface_add_peers parse addrs)
  with assms(2) show ?thesis by (auto simp: score_ok_def lt_add_peers_def fold_send_dial split: sum.splits)
qed (use assms(2) in \<open>simp_all add: on_sweep_score on_established_score on_identify_score on_closed_score\<close>,
    use assms(2) in \<open>auto simp: score_ok_def on_message_fields on_message_score on_pending_fields on_pending_score
      on_expired_def lt_dial_def lt_disconnect_def lt_publish_def lt_drain_def send_cmd_def split: option.splits\<close>)

subsection \<open>Connected peers\<close>

definition inj_peer_id :: "('k, 's, 'p) peer_keys \<Rightarrow> bool" where
  "inj_peer_id K \<longleftrightarrow> inj (pk_peer_id K)"

text \<open>An address that is about to be dropped: the command is queued, or its peers are being closed.\<close>

definition doomed :: "'p swarm \<Rightarrow> rstr \<Rightarrow> bool" where
  "doomed s a \<longleftrightarrow> CmdDisconnect a \<in> set (sw_cmds s)
    \<or> fmpred (\<lambda>p b. b = a \<longrightarrow> p |\<in>| sw_closing s) (sw_peer_addr s)"

definition identified_ok :: "('k, 's, 'p) peer_keys \<Rightarrow> 'p swarm \<Rightarrow> bool" where
  "identified_ok K s \<longleftrightarrow>
    fmpred (\<lambda>p a. p |\<in>| sw_live s \<and> (\<exists>key. pk_peer_id K key = p \<and> address_from_public_key K key = Some a))
      (sw_peer_addr s)
    \<and> fBall (sw_connected s) (\<lambda>a. a \<in> fmran' (sw_peer_addr s))
    \<and> (\<forall>a. sw_pending s = PendingConnected a \<longrightarrow> a \<in> fmran' (sw_peer_addr s))"

definition revoked_ok :: "'p swarm \<Rightarrow> bool" where
  "revoked_ok s \<longleftrightarrow> (sw_running s \<longrightarrow>
    fBall (sw_connected s) (\<lambda>a. a |\<in>| sw_authorized s \<or> doomed s a)
    \<and> (\<forall>a. sw_pending s = PendingConnected a \<longrightarrow>
         a |\<in>| sw_authorized s \<or> CmdDisconnect a \<in> set (sw_cmds s)))"

lemma identified_same_address:
  assumes "inj_peer_id K" and "identified_ok K s" and "fmlookup (sw_peer_addr s) p = Some a"
    and "pk_peer_id K key = p" and "address_from_public_key K key = Some b"
  shows "a = b"
proof -
  from assms(2,3) obtain key' where "pk_peer_id K key' = p" "address_from_public_key K key' = Some a"
    by (auto simp: identified_ok_def dest: fmpredD)
  with assms(1,4,5) show ?thesis by (metis inj_peer_id_def injD option.inject)
qed

lemma fmran'_iff: "a \<in> fmran' m \<longleftrightarrow> (\<exists>p. fmlookup m p = Some a)"
  by (auto simp: fmran'_def ran_def)

lemma fmpred_iff: "fmpred P m \<longleftrightarrow> (\<forall>p a. fmlookup m p = Some a \<longrightarrow> P p a)"
  by (auto intro: fmpredI dest: fmpredD)

lemmas conn_defs = identified_ok_def revoked_ok_def doomed_def fmpred_iff fmran'_iff

lemma on_identify_conn:
  assumes "inj_peer_id K" and "identified_ok K s" and "revoked_ok s" and "p |\<in>| sw_live s"
    and "sw_pending s = NoPending"
  shows "identified_ok K (on_identify K p key s) \<and> revoked_ok (on_identify K p key s)"
proof (cases "pk_peer_id K key = p")
  case False
  then show ?thesis using assms(2-5)
    by (auto simp: on_identify_def Let_def disconnect_peer_id_def conn_defs)
next
  case True
  show ?thesis
  proof (cases "address_from_public_key K key")
    case None
    then show ?thesis using assms(2-5) True
      by (auto simp: on_identify_def Let_def disconnect_peer_id_def conn_defs)
  next
    case (Some b)
    show ?thesis
    proof (cases "b |\<in>| sw_authorized s")
      case False
      then show ?thesis using assms(2-5) True Some
        by (auto simp: on_identify_def Let_def disconnect_peer_id_def gate_peer_def conn_defs)
    next
      case auth: True
      have upd: "fmlookup (fmupd p b (sw_peer_addr s)) q = Some a \<longleftrightarrow>
          (q = p \<and> a = b) \<or> fmlookup (sw_peer_addr s) q = Some a" for q a
        using identified_same_address [OF assms(1,2) _ True Some] by auto
      have o: "on_identify K p key s =
          s\<lparr>sw_unidentified := fmdrop p (sw_unidentified s), sw_peer_addr := fmupd p b (sw_peer_addr s),
            sw_gated := sw_gated s |-| {|p|}, sw_app_score := fmupd p 0 (sw_app_score s),
            sw_pending := PendingConnected b\<rparr>"
        by (simp add: on_identify_def True Some auth ungate_peer_def)
      have "identified_ok K (on_identify K p key s)"
        unfolding o identified_ok_def fmpred_iff fmran'_iff
        using assms(2,4) True Some by (auto simp: upd identified_ok_def fmpred_iff fmran'_iff simp del: fmupd_lookup)
      moreover have "revoked_ok (on_identify K p key s)"
        unfolding o revoked_ok_def doomed_def fmpred_iff
        using assms(3) auth by (auto simp: upd revoked_ok_def doomed_def fmpred_iff simp del: fmupd_lookup)
      ultimately show ?thesis ..
    qed
  qed
qed

definition conn_ok :: "('k, 's, 'p) peer_keys \<Rightarrow> 'p swarm \<Rightarrow> bool" where
  "conn_ok K s \<longleftrightarrow> identified_ok K s \<and> revoked_ok s"

lemma lt_dial_conn: "conn_ok K s \<Longrightarrow> conn_ok K (lt_dial a s)"
  by (auto simp: conn_ok_def lt_dial_def conn_defs split: option.splits)

lemma send_cmd_conn: "conn_ok K s \<Longrightarrow> conn_ok K (send_cmd c s)"
  by (auto simp: conn_ok_def send_cmd_def conn_defs)

lemma lt_disconnect_conn:
  assumes "conn_ok K s"
  shows "conn_ok K (lt_disconnect peer s)"
proof (cases "canonical_address peer")
  case (Some a)
  let ?s = "s\<lparr>sw_authorized := sw_authorized s |-| {|a|}, sw_connected := sw_connected s |-| {|a|}\<rparr>"
  have "identified_ok K (send_cmd (CmdDisconnect a) ?s)"
    using assms by (auto simp: conn_ok_def identified_ok_def send_cmd_def)
  moreover have "revoked_ok (send_cmd (CmdDisconnect a) ?s)"
    using assms by (auto simp: conn_ok_def revoked_ok_def doomed_def send_cmd_def)
  ultimately show ?thesis by (simp add: lt_disconnect_def Some conn_ok_def)
qed (simp add: lt_disconnect_def assms)

lemma on_pending_conn: "conn_ok K s \<Longrightarrow> conn_ok K (on_pending (sw_pending s) s)"
  by (cases "sw_pending s") (auto simp: conn_ok_def conn_defs)

lemma on_sweep_conn: "conn_ok K s \<Longrightarrow> conn_ok K (on_sweep now s)"
  by (auto simp: conn_ok_def on_sweep_eq Let_def conn_defs)

lemma on_cmd_conn:
  assumes "conn_ok K s" and "sw_cmds s = c # cs" and "sw_pending s = NoPending"
  shows "conn_ok K (on_cmd c (s\<lparr>sw_cmds := cs\<rparr>))"
proof (cases "\<exists>a. c = CmdDisconnect a")
  case True
  then obtain a where c: "c = CmdDisconnect a" by blast
  let ?s' = "on_cmd c (s\<lparr>sw_cmds := cs\<rparr>)"
  have f: "sw_live ?s' = sw_live s" "sw_peer_addr ?s' = sw_peer_addr s" "sw_connected ?s' = sw_connected s"
      "sw_authorized ?s' = sw_authorized s" "sw_pending ?s' = NoPending" "sw_running ?s' = sw_running s"
      "sw_cmds ?s' = cs"
    unfolding c on_disconnect_eq Let_def by (simp_all add: assms(3))
  have closing: "p |\<in>| sw_closing ?s'" if "fmlookup (sw_peer_addr s) p = Some a" for p
    using that assms(1) disconnect_targets [of p a "sw_peer_addr s"]
    unfolding c on_disconnect_eq Let_def by (auto simp: conn_ok_def identified_ok_def fmpred_iff)
  have closing': "p |\<in>| sw_closing s \<Longrightarrow> p |\<in>| sw_closing ?s'" for p
    unfolding c on_disconnect_eq Let_def by simp
  have "identified_ok K ?s'" using assms(1) f by (simp add: conn_ok_def identified_ok_def)
  moreover have "doomed ?s' b" if "doomed s b" for b
    using that closing closing' f assms(2) c by (cases "b = a") (auto simp: doomed_def fmpred_iff)
  with assms(1) f have "revoked_ok ?s'" by (auto simp: conn_ok_def revoked_ok_def)
  ultimately show ?thesis by (simp add: conn_ok_def)
next
  case False
  then show ?thesis using assms by (cases c) (auto simp: conn_ok_def conn_defs swarm_dial_def)
qed

lemma on_established_conn: "conn_ok K s \<Longrightarrow> conn_ok K (on_established now p s)"
  by (auto simp: conn_ok_def on_established_def Let_def gate_peer_def conn_defs)

lemma on_closed_conn:
  assumes "conn_ok K s" and "sw_pending s = NoPending"
  shows "conn_ok K (on_closed p s)"
proof (cases "fmlookup (sw_peer_addr s) p")
  case None
  let ?s = "on_closed p s"
  have f: "sw_peer_addr ?s = sw_peer_addr s" "sw_connected ?s = sw_connected s" "sw_authorized ?s = sw_authorized s"
      "sw_cmds ?s = sw_cmds s" "sw_pending ?s = NoPending" "sw_running ?s = sw_running s"
      "sw_live ?s = sw_live s |-| {|p|}" "sw_closing ?s = sw_closing s |-| {|p|}"
    using None assms(2) by (simp_all add: on_closed_def)
  have q: "fmlookup (sw_peer_addr s) q = Some a \<Longrightarrow> q \<noteq> p" for q a using None by auto
  have "identified_ok K ?s"
    using assms(1) by (auto simp: f conn_ok_def identified_ok_def fmpred_iff dest: q)
  moreover have d: "doomed ?s b" if "doomed s b" for b
    using that by (auto simp: f doomed_def fmpred_iff dest: q)
  have "revoked_ok ?s"
    unfolding revoked_ok_def f
  proof (intro impI conjI fBallI allI)
    fix b assume "sw_running s" and "b |\<in>| sw_connected s"
    with assms(1) have "b |\<in>| sw_authorized s \<or> doomed s b" by (auto simp: conn_ok_def revoked_ok_def)
    with d show "b |\<in>| sw_authorized s \<or> doomed ?s b" by blast
  qed simp
  ultimately show ?thesis by (simp add: conn_ok_def)
next
  case (Some a)
  let ?s = "on_closed p s"
  have f: "sw_peer_addr ?s = fmdrop p (sw_peer_addr s)" "sw_connected ?s = sw_connected s |-| {|a|}"
      "sw_authorized ?s = sw_authorized s" "sw_cmds ?s = sw_cmds s" "sw_pending ?s = NoPending"
      "sw_running ?s = sw_running s" "sw_live ?s = sw_live s |-| {|p|}" "sw_closing ?s = sw_closing s |-| {|p|}"
    using Some assms(2) by (simp_all add: on_closed_def)
  have "b \<in> fmran' (fmdrop p (sw_peer_addr s))" if "b \<in> fmran' (sw_peer_addr s)" "b \<noteq> a" for b
  proof -
    from that(1) obtain q where q: "fmlookup (sw_peer_addr s) q = Some b" by (auto simp: fmran'_iff)
    with that(2) Some have "q \<noteq> p" by auto
    with q show ?thesis by (auto simp: fmran'_iff intro!: exI [of _ q])
  qed
  then have "identified_ok K ?s"
    using assms(1) by (auto simp: f conn_ok_def identified_ok_def fmpred_iff)
  moreover have d: "doomed ?s b" if "doomed s b" for b
    using that by (auto simp: f doomed_def fmpred_iff)
  have "revoked_ok ?s"
    unfolding revoked_ok_def f
  proof (intro impI conjI fBallI allI)
    fix b assume "sw_running s" and "b |\<in>| sw_connected s |-| {|a|}"
    with assms(1) have "b |\<in>| sw_authorized s \<or> doomed s b" by (auto simp: conn_ok_def revoked_ok_def)
    with d show "b |\<in>| sw_authorized s \<or> doomed ?s b" by blast
  qed simp
  ultimately show ?thesis by (simp add: conn_ok_def)
qed

lemma swarm_step_conn:
  assumes "inj_peer_id K" and "swarm_step K l s s'" and "conn_ok K s"
  shows "conn_ok K s'"
  using assms(2)
proof cases
  case (task_redial)
  with on_redial_eq [of K s] assms(3) show ?thesis by (auto simp: conn_ok_def conn_defs)
next
  case (task_discovered found)
  with on_discovered_eq [of K l found s] assms(3) show ?thesis by (auto simp: conn_ok_def conn_defs)
next
  case (task_identify p key)
  with on_identify_conn [OF assms(1)] assms(3) show ?thesis by (simp add: conn_ok_def)
next
  case (task_message topic src bytes)
  have "sw_pending (on_message topic src bytes s) \<noteq> PendingConnected a" for a
    using task_message by (simp add: on_message_def split: option.splits)
  with task_message assms(3) show ?thesis
    by (simp add: conn_ok_def identified_ok_def revoked_ok_def doomed_def on_message_fields)
next
  case (surface_add_peers parse addrs)
  have "conn_ok K (fold (\<lambda>a. send_cmd (CmdDial a)) mas s)" for mas
    using assms(3) by (induction mas arbitrary: s) (simp_all add: send_cmd_conn)
  with surface_add_peers assms(3) show ?thesis by (auto simp: lt_add_peers_def split: sum.splits)
next
  case (surface_drain)
  with assms(3) show ?thesis by (simp add: conn_ok_def conn_defs lt_drain_def)
next
  case (task_expired gone)
  with assms(3) show ?thesis by (simp add: conn_ok_def conn_defs on_expired_def)
qed (use assms(3) in \<open>simp_all add: lt_dial_conn lt_disconnect_conn lt_publish_def send_cmd_conn on_pending_conn
    on_sweep_conn on_cmd_conn on_established_conn on_closed_conn\<close>,
    use assms(3) in \<open>simp_all add: conn_ok_def conn_defs\<close>)

subsection \<open>Reachable states\<close>

lemma swarm_init_ok: "conn_ok K (swarm_init th b ls)" "gate_ok (swarm_init th b ls)" "bounds_ok (swarm_init th b ls)"
  "score_ok (swarm_init th b ls)"
  by (simp_all add: score_ok_def conn_ok_def conn_defs gate_ok_def bounds_ok_def swarm_init_def discovered_ok_def)

lemma swarm_reach_ok:
  assumes "(swarm_step K l)\<^sup>*\<^sup>* (swarm_init th b ls) s"
  shows "gate_ok s" and "bounds_ok s" and "inj_peer_id K \<Longrightarrow> conn_ok K s" and "score_ok s"
  using assms
  by (induction rule: rtranclp_induct)
    (auto simp: swarm_init_ok intro: swarm_step_gate swarm_step_bounds swarm_step_conn swarm_step_score)

text \<open>C4. What an unadmitted peer can reach: in every reachable state, a connected peer that has not been
  identified as an authorized address is gated, so that gossip neither reaches it nor is taken from
  it, and it is either waiting for \<open>identify\<close> with the time it was first seen on record, or already
  being closed.\<close>

theorem unidentified_peers_gated:
  assumes "(swarm_step K l)\<^sup>*\<^sup>* (swarm_init topic_hash bootstrap listeners) s" and "p |\<in>| sw_live s"
    and "p |\<notin>| fmdom (sw_peer_addr s)"
  shows "p |\<in>| sw_gated s \<and> (p |\<in>| fmdom (sw_unidentified s) \<or> p |\<in>| sw_closing s)"
  using gate_okD [OF swarm_reach_ok(1) [OF assms(1)] assms(2)] assms(3) by blast

text \<open>What a peer's application score is worth.\<close>

definition app_component :: "score_params \<Rightarrow> 'p \<Rightarrow> 'p swarm \<Rightarrow> int" where
  "app_component P p s =
    sp_app_specific_weight P * (case fmlookup (sw_app_score s) p of Some v \<Rightarrow> v | None \<Rightarrow> 0)"

text \<open>C5. The gate and the score say the same: in every reachable state, the application score of a
  connected peer that is gated lies below the thresholds for gossip and for publications, yet above the
  one from which it would be ignored altogether; that of every other connected peer is zero, above all
  three.\<close>

theorem gated_scores:
  assumes "(swarm_step K l)\<^sup>*\<^sup>* (swarm_init topic_hash bootstrap listeners) s" and "p |\<in>| sw_live s"
  shows "let score = app_component admission_score_params p s; th = admission_score_thresholds
    in if p |\<in>| sw_gated s
       then score < th_gossip th \<and> score < th_publish th \<and> th_graylist th < score
       else score = 0 \<and> th_gossip th < score \<and> th_publish th < score \<and> th_graylist th < score"
  using swarm_reach_ok(4) [OF assms(1)] assms(2)
  by (auto simp: score_ok_def app_component_def admission_score_params_def admission_score_thresholds_def
      UNADMITTED_APP_SCORE_def)

text \<open>C33. What the network can make the swarm hold is bounded: in every reachable state the inbox holds
  at most \<open>MAX_INBOX\<close> messages, all well-formed content ids, the re-dial list at most \<open>MAX_BOOTSTRAP\<close>
  addresses and the discovery table at most \<open>MAX_DISCOVERED_PEERS\<close> peers.\<close>

theorem swarm_memory_bounded:
  assumes "(swarm_step K l)\<^sup>*\<^sup>* (swarm_init topic_hash bootstrap listeners) s"
  shows "length (sw_inbox s) \<le> MAX_INBOX \<and> list_all (\<lambda>m. is_valid_cid (msg_data m)) (sw_inbox s)
    \<and> length (sw_bootstrap s) \<le> MAX_BOOTSTRAP \<and> fcard (fmdom (sw_discovered s)) \<le> MAX_DISCOVERED_PEERS"
  using swarm_reach_ok(2) [OF assms] by (simp add: bounds_ok_def discovered_ok_def)

text \<open>C13. Connected peers are accountable: in every reachable state, every connected address is that of a
  connected peer that presented a key with that address, and, while the task runs, it is authorized, or
  a command to disconnect it is queued, or every peer with that address is being closed.\<close>

theorem connected_peers_accounted:
  assumes "inj_peer_id K" and "(swarm_step K l)\<^sup>*\<^sup>* (swarm_init topic_hash bootstrap listeners) s"
    and "a |\<in>| sw_connected s"
  shows "(\<exists>p key. fmlookup (sw_peer_addr s) p = Some a \<and> p |\<in>| sw_live s
        \<and> pk_peer_id K key = p \<and> address_from_public_key K key = Some a)
    \<and> (sw_running s \<longrightarrow> a |\<in>| sw_authorized s \<or> CmdDisconnect a \<in> set (sw_cmds s)
        \<or> (\<forall>p. fmlookup (sw_peer_addr s) p = Some a \<longrightarrow> p |\<in>| sw_closing s))"
proof -
  have c: "conn_ok K s" using swarm_reach_ok(3) [OF assms(2,1)] .
  then obtain p where p: "fmlookup (sw_peer_addr s) p = Some a"
    using assms(3) by (auto simp: conn_ok_def identified_ok_def fmran'_iff)
  with c have "p |\<in>| sw_live s \<and> (\<exists>key. pk_peer_id K key = p \<and> address_from_public_key K key = Some a)"
    by (auto simp: conn_ok_def identified_ok_def fmpred_iff)
  moreover have "sw_running s \<longrightarrow> a |\<in>| sw_authorized s \<or> doomed s a"
    using c assms(3) by (auto simp: conn_ok_def revoked_ok_def)
  ultimately show ?thesis using p by (auto simp: doomed_def fmpred_iff)
qed

text \<open>Once the task has caught up, the wire carries authorized peers only.\<close>

lemma quiescent_connected:
  assumes "conn_ok K s" and "sw_running s" and "sw_cmds s = []" and "sw_closing s = {||}"
  shows "sw_connected s |\<subseteq>| sw_authorized s"
proof
  fix a assume a: "a |\<in>| sw_connected s"
  then obtain p where p: "fmlookup (sw_peer_addr s) p = Some a"
    using assms(1) by (auto simp: conn_ok_def identified_ok_def fmran'_iff)
  have "a |\<in>| sw_authorized s \<or> doomed s a"
    using assms(1,2) a by (auto simp: conn_ok_def revoked_ok_def)
  with a p assms(3,4) show "a |\<in>| sw_authorized s" by (auto simp: doomed_def fmpred_iff)
qed

subsection \<open>A run in which an eviction races with \<open>identify\<close>\<close>

definition stub_keys :: "(nat, nat, nat) peer_keys" where
  "stub_keys =
    \<lparr>pk_peer_id = id, pk_secp256k1 = Some, pk_uncompressed = (\<lambda>_. []), pk_keccak256 = id,
     pk_hex_encode = (\<lambda>_. addr_of ''a1''), pk_multihash_code = (\<lambda>_. 0), pk_multihash_digest = (\<lambda>_. []),
     pk_decode_protobuf = (\<lambda>_. None)\<rparr>"

lemma stub_keys_address [simp]: "address_from_public_key stub_keys k = Some (addr_of ''a1'')"
  by (simp add: address_from_public_key_def stub_keys_def)

lemma stub_keys_id [simp]: "pk_peer_id stub_keys k = k"
  by (simp add: stub_keys_def)

lemma stub_keys_inj: "inj_peer_id stub_keys"
  by (simp add: inj_peer_id_def stub_keys_def)

text \<open>The device of \<open>a1\<close> connects and identifies; the daemon evicts \<open>a1\<close> between the two critical
  sections of the arm; the task goes on.\<close>

definition race0 :: "nat swarm" where "race0 = lt_dial (addr_of ''a1'') (swarm_init ''g'' [] [])"
definition race1 :: "nat swarm" where "race1 = on_established 0 7 race0"
definition race2 :: "nat swarm" where "race2 = on_identify stub_keys 7 7 race1"
definition race3 :: "nat swarm" where "race3 = lt_disconnect (addr_of ''a1'') race2"
definition race4 :: "nat swarm" where "race4 = on_pending (sw_pending race3) race3"

lemma race0_eq: "race0 = (swarm_init ''g'' [] [])\<lparr>sw_authorized := {|addr_of ''a1''|}\<rparr>"
  by (simp add: race0_def lt_dial_def swarm_init_def)

lemma race1_eq: "race1 = race0\<lparr>sw_live := {|7|}, sw_gated := {|7|},
     sw_app_score := fmupd 7 UNADMITTED_APP_SCORE fmempty, sw_unidentified := fmupd 7 0 fmempty\<rparr>"
  by (simp add: race1_def on_established_def race0_eq swarm_init_def gate_peer_def)

lemma race2_eq:
  "race2 = race0\<lparr>sw_live := {|7|}, sw_app_score := fmupd 7 0 fmempty, sw_peer_addr := fmupd 7 (addr_of ''a1'') fmempty,
     sw_pending := PendingConnected (addr_of ''a1'')\<rparr>"
proof -
  have "fmdrop 7 (fmupd 7 0 fmempty) = (fmempty :: (nat, nat) fmap)" by (rule fmap_ext) auto
  then show ?thesis by (simp add: race2_def on_identify_def race1_eq race0_eq swarm_init_def ungate_peer_def)
qed

lemma race3_eq:
  "race3 = race2\<lparr>sw_authorized := {||}, sw_cmds := [CmdDisconnect (addr_of ''a1'')]\<rparr>"
  by (simp add: race3_def lt_disconnect_def send_cmd_def race2_eq race0_eq swarm_init_def)

lemma race4_eq:
  "race4 = race3\<lparr>sw_pending := NoPending, sw_connected := {|addr_of ''a1''|}\<rparr>"
  by (simp add: race4_def race3_eq race2_eq race0_eq swarm_init_def)

lemma race_reach1: "(swarm_step stub_keys l)\<^sup>*\<^sup>* (swarm_init ''g'' [] []) race1"
proof -
  have "swarm_step stub_keys l (swarm_init ''g'' [] []) race0" unfolding race0_def by (rule surface_dial)
  moreover have "swarm_step stub_keys l race0 race1"
    unfolding race1_def by (rule task_established) (simp_all add: race0_eq swarm_init_def)
  ultimately show ?thesis by (meson rtranclp.rtrancl_into_rtrancl rtranclp.rtrancl_refl)
qed

lemma race_reach2: "(swarm_step stub_keys l)\<^sup>*\<^sup>* (swarm_init ''g'' [] []) race2"
proof -
  have "swarm_step stub_keys l race1 race2"
    unfolding race2_def by (rule task_identify) (simp_all add: race1_eq race0_eq swarm_init_def)
  with race_reach1 show ?thesis by (rule rtranclp.rtrancl_into_rtrancl)
qed

lemma race_reach3: "(swarm_step stub_keys l)\<^sup>*\<^sup>* (swarm_init ''g'' [] []) race3"
proof -
  have "swarm_step stub_keys l race2 race3" unfolding race3_def by (rule surface_disconnect)
  with race_reach2 show ?thesis by (rule rtranclp.rtrancl_into_rtrancl)
qed

lemma race_reach4: "(swarm_step stub_keys l)\<^sup>*\<^sup>* (swarm_init ''g'' [] []) race4"
proof -
  have "swarm_step stub_keys l race3 race4"
    unfolding race4_def by (rule task_pending) (simp_all add: race3_eq race2_eq race0_eq swarm_init_def)
  with race_reach3 show ?thesis by (rule rtranclp.rtrancl_into_rtrancl)
qed

theorem unidentified_peers_gated_witness: "7 |\<in>| sw_gated race1"
  using unidentified_peers_gated [OF race_reach1 [of 0], of 7] by (simp add: race1_eq race0_eq swarm_init_def)

theorem gated_scores_witness:
  "app_component admission_score_params 7 race1 < th_gossip admission_score_thresholds
    \<and> app_component admission_score_params 7 race4 = 0"
  using gated_scores [OF race_reach1 [of 0], of 7] gated_scores [OF race_reach4 [of 0], of 7]
  by (simp add: race4_eq race3_eq race2_eq race1_eq race0_eq swarm_init_def Let_def)

theorem swarm_memory_bounded_witness: "length (sw_inbox race4) \<le> MAX_INBOX"
  using swarm_memory_bounded [OF race_reach4 [of 0]] by blast

theorem connected_peers_accounted_witness:
  "\<exists>p key. fmlookup (sw_peer_addr race4) p = Some (addr_of ''a1'') \<and> pk_peer_id stub_keys key = p"
  using connected_peers_accounted [OF stub_keys_inj race_reach4 [of 0], of "addr_of ''a1''"]
  by (auto simp: race4_eq)

end
