(* ===== verification/Libp2p_Daemon.thy ===== *)
theory Libp2p_Daemon
  imports Ipc Swarm_Inv
begin

section \<open>The daemon on the libp2p transport\<close>

text \<open>
  What the daemon relies on from a transport that enforces an authorized set, as a locale that extends
  the contract of a cluster transport; the daemon's side of the bargain, proved once for every such
  transport; and the libp2p surface as an instance.
\<close>

text \<open>A peer dropped by hand (the hook that nothing in the program calls).\<close>

fun is_drop :: "'t daemon_event \<Rightarrow> bool" where
  "is_drop (EvDrop _ _) \<longleftrightarrow> True"
| "is_drop _ \<longleftrightarrow> False"

locale authorizing_transport = cluster_transport_laws T tinv
  for T :: "('t, 'z) mesh_transport_scheme" and tinv :: "'t \<Rightarrow> bool" +
  fixes authorized :: "'t \<Rightarrow> rstr fset"
  assumes dial_authorized: "tinv t \<Longrightarrow> is_canonical p \<Longrightarrow> authorized (tr_dial T p t) = finsert p (authorized t)"
    and disconnect_authorized:
      "tinv t \<Longrightarrow> is_canonical p \<Longrightarrow> authorized (tr_disconnect T p t) = authorized t |-| {|p|}"
    and authorize_tinv: "tinv t \<Longrightarrow> is_canonical p \<Longrightarrow> tinv (tr_authorize T p t)"
    and authorize_authorized:
      "tinv t \<Longrightarrow> is_canonical p \<Longrightarrow> authorized (tr_authorize T p t) = finsert p (authorized t)"
    and publish_keeps: "tinv t \<Longrightarrow> tinv (tr_publish T a b t) \<and> authorized (tr_publish T a b t) = authorized t"
    and drain_keeps: "tinv t \<Longrightarrow> tinv (snd (tr_drain T t)) \<and> authorized (snd (tr_drain T t)) = authorized t"
    and add_peers_keeps:
      "tinv t \<Longrightarrow> tinv (snd (tr_add_peers T as t)) \<and> authorized (snd (tr_add_peers T as t)) = authorized t"
begin

lemma authorize_all:
  "tinv t \<Longrightarrow> \<forall>p\<in>set ps. is_canonical p \<Longrightarrow>
    tinv (fold (tr_authorize T) ps t) \<and> fset (authorized (fold (tr_authorize T) ps t)) = fset (authorized t) \<union> set ps"
  by (induction ps arbitrary: t) (auto simp: authorize_tinv authorize_authorized)

lemma disconnect_all_authorized:
  "tinv t \<Longrightarrow> \<forall>p\<in>set ps. is_canonical p \<Longrightarrow>
    fset (authorized (fold (tr_disconnect T) ps t)) = fset (authorized t) - set ps"
  by (induction ps arbitrary: t) (auto simp: disconnect_tinv disconnect_authorized)

text \<open>The invariant of a session on such a transport.\<close>

definition wire_ok :: "'t cluster_session \<Rightarrow> bool" where
  "wire_ok s \<longleftrightarrow> membership_ok (s_membership s) \<and> tinv (s_transport s)
    \<and> authorized (s_transport s) |\<subseteq>| mem_allowed (s_membership s)"

lemma wire_ok_new: "tinv t \<Longrightarrow> authorized t = {||} \<Longrightarrow> wire_ok (session_new roster t)"
  by (simp add: wire_ok_def session_simps)

lemma wire_ok_roster:
  assumes "wire_ok s"
  shows "tinv (s_transport (roster_session T roster s))"
    and "authorized (s_transport (roster_session T roster s)) = allowed_set roster"
    and "wire_ok (roster_session T roster s)"
proof -
  let ?new = "allowed_set roster" and ?old = "mem_allowed (s_membership s)"
  let ?ad = "mem_admitted (s_membership s)" and ?t = "s_transport s"
  from assms have ok: "membership_ok (s_membership s)" "tinv ?t" and sub: "authorized ?t |\<subseteq>| ?old"
    by (auto simp: wire_ok_def)
  have c: "\<forall>p\<in>set (sorted_list_of_fset (?ad |-| ?new)). is_canonical p"
      "\<forall>p\<in>set (sorted_list_of_fset (?old |-| ?new)). is_canonical p"
      "\<forall>p\<in>set (sorted_list_of_fset ?new). is_canonical p"
    using ok(1) allowed_set_canonical by (auto simp: membership_ok_def invariant_holds_def)
  let ?t1 = "fold (tr_disconnect T) (sorted_list_of_fset (?ad |-| ?new)) ?t"
  let ?t2 = "fold (tr_disconnect T) (sorted_list_of_fset (?old |-| ?new)) ?t1"
  let ?t3 = "fold (tr_authorize T) (sorted_list_of_fset ?new) ?t2"
  have t1: "tinv ?t1" using ok(2) c(1) by (rule disconnect_all_tinv)
  have t2: "tinv ?t2" using t1 c(2) by (rule disconnect_all_tinv)
  have "fset (authorized ?t2) = fset (authorized ?t) - (fset ?ad - fset ?new) - (fset ?old - fset ?new)"
    using disconnect_all_authorized [OF t1 c(2)] disconnect_all_authorized [OF ok(2) c(1)] by simp
  with sub have "fset (authorized ?t3) = fset ?new"
    using authorize_all [OF t2 c(3)] by auto
  then show a: "authorized (s_transport (roster_session T roster s)) = allowed_set roster"
    by (simp add: roster_session_def fset_inject)
  show i: "tinv (s_transport (roster_session T roster s))"
    using authorize_all [OF t2 c(3)] by (simp add: roster_session_def)
  show "wire_ok (roster_session T roster s)"
    using a i ok(1) by (simp add: wire_ok_def membership_ok_reconcile membership_simps)
qed

lemma wire_ok_join: "wire_ok s \<Longrightarrow> wire_ok (snd (session_join T address role s))"
  using session_join_dials_canonical [of address role "s_membership s"]
  by (auto simp: wire_ok_def session_simps membership_ok_join membership_simps dial_tinv dial_authorized
      membership_join_True_iff admit_def split: option.splits)

lemma wire_ok_leave: "wire_ok s \<Longrightarrow> wire_ok (session_leave T address s)"
  by (auto simp: wire_ok_def session_simps membership_ok_leave membership_simps disconnect_tinv
      disconnect_authorized canonical_address_canonical split: option.splits)

lemma wire_ok_sync: "wire_ok s \<Longrightarrow> wire_ok (sync_admitted_from_wire T s)"
  by (simp add: wire_ok_def session_simps membership_ok_sync membership_simps)

lemma wire_ok_transport:
  "wire_ok s \<Longrightarrow> tinv t \<Longrightarrow> authorized t = authorized (s_transport s) \<Longrightarrow> wire_ok (s\<lparr>s_transport := t\<rparr>)"
  by (simp add: wire_ok_def)

subsection \<open>The daemon\<close>

text \<open>What every session of a daemon keeps, through requests and the moves of the transports.\<close>

definition session_inv :: "('t cluster_session \<Rightarrow> bool) \<Rightarrow> bool" where
  "session_inv P \<longleftrightarrow>
    (\<forall>t. tinv t \<longrightarrow> authorized t = {||} \<longrightarrow> P (session_new [] t))
    \<and> (\<forall>s roster. P s \<longrightarrow> P (roster_session T roster s))
    \<and> (\<forall>s address role. P s \<longrightarrow> P (snd (session_join T address role s)))
    \<and> (\<forall>s. P s \<longrightarrow> P (sync_admitted_from_wire T s))
    \<and> (\<forall>s t. P s \<longrightarrow> tinv t \<longrightarrow> authorized t = authorized (s_transport s) \<longrightarrow> P (s\<lparr>s_transport := t\<rparr>))
    \<and> (\<forall>s. P s \<longrightarrow> wire_ok s)"

lemma session_invD:
  assumes "session_inv P"
  shows "tinv t \<Longrightarrow> authorized t = {||} \<Longrightarrow> P (session_new [] t)"
    and "P s \<Longrightarrow> P (roster_session T roster s)"
    and "P s \<Longrightarrow> P (snd (session_join T address role s))"
    and "P s \<Longrightarrow> P (sync_admitted_from_wire T s)"
    and "P s \<Longrightarrow> tinv t \<Longrightarrow> authorized t = authorized (s_transport s) \<Longrightarrow> P (s\<lparr>s_transport := t\<rparr>)"
    and "P s \<Longrightarrow> wire_ok s"
  using assms by (simp_all add: session_inv_def)

lemma wire_ok_inv: "session_inv wire_ok"
  by (simp add: session_inv_def wire_ok_new wire_ok_roster(3) wire_ok_join wire_ok_sync wire_ok_transport)

text \<open>Without a peer dropped by hand, the authorized set is the allowed set.\<close>

definition wire_exact :: "'t cluster_session \<Rightarrow> bool" where
  "wire_exact s \<longleftrightarrow> wire_ok s \<and> authorized (s_transport s) = mem_allowed (s_membership s)"

lemma wire_exact_join: "wire_exact s \<Longrightarrow> wire_exact (snd (session_join T address role s))"
  using wire_ok_join [of s address role] session_join_dials_canonical [of address role "s_membership s"]
  by (auto simp: wire_exact_def wire_ok_def session_simps membership_simps dial_authorized
      membership_join_True_iff admit_def split: option.splits)

lemma wire_exact_inv: "session_inv wire_exact"
  unfolding session_inv_def
  using wire_ok_roster(2) wire_exact_join
  by (auto simp: wire_exact_def wire_ok_new wire_ok_roster(3) wire_ok_join wire_ok_sync wire_ok_transport
      session_simps membership_simps)

definition wires_ok :: "('t cluster_session \<Rightarrow> bool) \<Rightarrow> 't daemon \<Rightarrow> bool" where
  "wires_ok P d \<longleftrightarrow> (\<forall>g s. fmlookup (d_groups d) g = Some s \<longrightarrow> P s)"

lemma wires_ok_put: "wires_ok P d \<Longrightarrow> P s \<Longrightarrow> wires_ok P (put_session g s d)"
  by (auto simp: wires_ok_def put_session_def)

lemma wires_okD: "wires_ok P d \<Longrightarrow> fmlookup (d_groups d) g = Some s \<Longrightarrow> P s"
  by (auto simp: wires_ok_def)

lemma wires_ok_same: "wires_ok P d \<Longrightarrow> d_groups d' = d_groups d \<Longrightarrow> wires_ok P d'"
  by (simp add: wires_ok_def)

definition fresh_factory :: "'t transport_factory \<Rightarrow> bool" where
  "fresh_factory mk \<longleftrightarrow> (\<forall>g t. mk g = Ok t \<longrightarrow> tinv t \<and> authorized t = {||})"

text \<open>The transport factory makes transports that authorize nobody, and a transport moving on its own
  leaves its authorized set alone.\<close>

fun mesh_event :: "'t daemon_event \<Rightarrow> bool" where
  "mesh_event (EvRequest mk _) \<longleftrightarrow> fresh_factory mk"
| "mesh_event (EvTransport _ f) \<longleftrightarrow> (\<forall>t. tinv t \<longrightarrow> tinv (f t) \<and> authorized (f t) = authorized t)"
| "mesh_event (EvAdmit mk _ _ _) \<longleftrightarrow> fresh_factory mk"
| "mesh_event (EvDrop _ _) \<longleftrightarrow> True"

lemma wires_ok_sync:
  assumes "session_inv P" and "wires_ok P d"
  shows "wires_ok P (sync_admission T g d)"
proof (cases "fmlookup (d_groups d) g")
  case (Some s)
  from wires_ok_put [OF assms(2) session_invD(4) [OF assms(1) wires_okD [OF assms(2) Some]]] show ?thesis
    by (simp add: sync_admission_def Some)
qed (simp add: sync_admission_def assms(2))

text \<open>A session whose transport has moved without changing its authorized set.\<close>

lemma wires_ok_moved:
  assumes "session_inv P" and "wires_ok P d" and "fmlookup (d_groups d) g = Some s"
    and "tinv (s_transport s) \<Longrightarrow> tinv t \<and> authorized t = authorized (s_transport s)"
  shows "wires_ok P (put_session g (s\<lparr>s_transport := t\<rparr>) d)"
proof -
  have s: "P s" using assms(2,3) by (rule wires_okD)
  then have "tinv (s_transport s)" using session_invD(6) [OF assms(1)] by (simp add: wire_ok_def)
  with assms(4) have "P (s\<lparr>s_transport := t\<rparr>)" by (blast intro: session_invD(5) [OF assms(1) s])
  with assms(2) show ?thesis by (rule wires_ok_put)
qed

lemma wires_ok_drain:
  assumes "session_inv P" and "wires_ok P d"
  shows "wires_ok P (snd (drain_into_shared T g d))"
proof (cases "fmlookup (d_groups d) g")
  case (Some s)
  obtain ms t where r: "tr_drain T (s_transport s) = (ms, t)" by fastforce
  have "wires_ok P (put_session g (s\<lparr>s_transport := t\<rparr>) d)"
    using drain_keeps [of "s_transport s"] by (intro wires_ok_moved [OF assms Some]) (simp add: r)
  then show ?thesis by (auto simp: drain_into_shared_def Some r Let_def intro: wires_ok_same)
qed (simp add: drain_into_shared_def assms)

lemma wires_ok_ensure:
  assumes "session_inv P" and "wires_ok P d" and "fresh_factory mk" and "ensure_session mk g d = (r, d')"
  shows "wires_ok P d'"
proof (cases r)
  case (Inl e)
  with assms show ?thesis by (auto dest: ensure_session_Err)
next
  case (Inr s)
  from ensure_session_Ok [OF assms(4) [unfolded Inr]] assms(2,3) show ?thesis
    by (auto simp: fresh_factory_def intro!: wires_ok_put session_invD(1) [OF assms(1)])
qed

lemma wires_ok_set_roster:
  assumes "session_inv P" and "wires_ok P d" and "fresh_factory mk"
    and "set_roster_with_devices T mk V g roster links revs d = (r, d')"
  shows "wires_ok P d'"
    and "r = Ok x \<Longrightarrow> \<exists>s. fmlookup (d_groups d') g = Some s \<and> authorized (s_transport s) = mem_allowed (s_membership s)"
proof -
  have main: "wires_ok P d' \<and> (\<exists>s. fmlookup (d_groups d') g = Some s
      \<and> authorized (s_transport s) = mem_allowed (s_membership s))" if "r = Ok x" for x
  proof -
    obtain evicted rejected where x: "x = (evicted, rejected)" by fastforce
    from assms(4) that x obtain s d1 reg where e: "ensure_session mk g d = (Ok s, d1)"
      and d': "d' = put_session g (roster_session T (effective_roster roster reg) s)
           (d1\<lparr>d_devices := fmupd g \<lparr>gd_roster = roster, gd_registry = reg\<rparr> (d_devices d1)\<rparr>)"
      by (auto elim: set_roster_Ok)
    have ok1: "wires_ok P d1" using assms(1,2,3) e by (rule wires_ok_ensure)
    then have s: "P s" using ensure_session_Ok [OF e] by (blast dest: wires_okD)
    have "wires_ok P (d1\<lparr>d_devices := fmupd g \<lparr>gd_roster = roster, gd_registry = reg\<rparr> (d_devices d1)\<rparr>)"
      using ok1 by (rule wires_ok_same) simp
    then have "wires_ok P d'" unfolding d' using session_invD(2) [OF assms(1) s] by (rule wires_ok_put)
    moreover have "fmlookup (d_groups d') g = Some (roster_session T (effective_roster roster reg) s)"
      by (simp add: d')
    ultimately show ?thesis
      using wire_ok_roster(2) [OF session_invD(6) [OF assms(1) s]] by (auto simp: membership_simps)
  qed
  show "wires_ok P d'"
  proof (cases r)
    case (Inl e)
    with assms(2,4) show ?thesis by (auto dest: set_roster_Err)
  next
    case (Inr x)
    with main show ?thesis by blast
  qed
  show "r = Ok x \<Longrightarrow> \<exists>s. fmlookup (d_groups d') g = Some s \<and> authorized (s_transport s) = mem_allowed (s_membership s)"
    using main by blast
qed

lemma wires_ok_request:
  assumes "session_inv P" and "wires_ok P d" and "fresh_factory mk"
  shows "wires_ok P (snd (handle_request T mk V req d))"
proof (cases req)
  case (ReqSetRoster g roster links revs)
  obtain r d' where r: "set_roster_with_devices T mk V g roster links revs d = (r, d')" by fastforce
  with ReqSetRoster wires_ok_set_roster(1) [OF assms r] show ?thesis by (simp add: handle_request_state)
next
  case (ReqJoin g)
  obtain r d' where "ensure_session mk g d = (r, d')" by fastforce
  with ReqJoin wires_ok_ensure [OF assms this] assms(2) show ?thesis
    by (auto simp: handle_request_state daemon_join_def split: sum.splits)
next
  case (ReqLeave g)
  with assms(2) show ?thesis by (auto simp: handle_request_state daemon_leave_def wires_ok_def)
next
  case (ReqShareFile g cid)
  obtain r d' where r: "share_file T g cid d = (r, d')" by fastforce
  then have "d_groups d' = d_groups d \<or> (\<exists>s. fmlookup (d_groups d) g = Some s
      \<and> d_groups d' = d_groups (put_session g (s\<lparr>s_transport := tr_publish T (d_self d) cid (s_transport s)\<rparr>) d))"
    by (auto simp: share_file_def put_session_def Let_def split: option.splits if_splits)
  then have "wires_ok P d'"
    using assms(2) wires_ok_moved [OF assms(1,2) _ publish_keeps] by (metis wires_ok_same)
  with ReqShareFile r show ?thesis by (simp add: handle_request_state)
next
  case (ReqAddSeed g stext)
  have "wires_ok P (put_session g (s\<lparr>s_transport := t\<rparr>) d)"
    if "fmlookup (d_groups d) g = Some s" "tr_add_peers T as (s_transport s) = (r, t)" for s r t as
    using add_peers_keeps [of "s_transport s" as] that(2) by (intro wires_ok_moved [OF assms(1,2) that(1)]) simp
  with ReqAddSeed assms(2) show ?thesis
    by (auto simp: handle_request_state add_seed_def split: option.splits sum.splits prod.splits)
qed (use assms(1,2) in \<open>simp_all add: handle_request_state daemon_devices_def daemon_status_def daemon_peers_def
    daemon_poll_def shared_files_page_def Let_def wires_ok_sync wires_ok_drain del: handle_request.simps\<close>)

lemma wires_ok_event:
  assumes "session_inv P" and "wires_ok P d" and "mesh_event ev" and "\<not> is_drop ev"
  shows "wires_ok P (daemon_step T V ev d)"
proof (cases ev)
  case (EvRequest mk req)
  with assms show ?thesis by (simp add: wires_ok_request)
next
  case (EvTransport g f)
  with assms(3) have "wires_ok P (put_session g (s\<lparr>s_transport := f (s_transport s)\<rparr>) d)"
    if "fmlookup (d_groups d) g = Some s" for s
    using that by (intro wires_ok_moved [OF assms(1,2)]) simp_all
  with EvTransport assms(2) show ?thesis by (auto simp: transport_moves_def split: option.splits)
next
  case (EvAdmit mk g address role)
  obtain r d1 where e: "ensure_session mk g d = (r, d1)" by fastforce
  have ok1: "wires_ok P d1" using assms EvAdmit e by (auto intro: wires_ok_ensure)
  have join: "wires_ok P (put_session g (snd (session_join T address role s)) d1)" if "r = Ok s" for s
  proof -
    from that have "P s" using ensure_session_Ok e ok1 by (blast dest: wires_okD)
    from session_invD(3) [OF assms(1) this] show ?thesis by (rule wires_ok_put [OF ok1])
  qed
  show ?thesis
  proof (cases "ensure_group_allowed g d")
    case (Inr u)
    with EvAdmit e ok1 join show ?thesis by (auto simp: admit_peer_def split: sum.splits prod.splits)
  qed (use EvAdmit assms(2) in \<open>simp add: admit_peer_def\<close>)
qed (use assms(4) in simp)

lemma wires_ok_step:
  assumes "wires_ok wire_ok d" and "mesh_event ev"
  shows "wires_ok wire_ok (daemon_step T V ev d)"
proof (cases ev)
  case (EvDrop g address)
  with assms(1) show ?thesis
    by (auto simp: drop_peer_def split: option.splits intro!: wires_ok_put wire_ok_leave dest: wires_okD)
qed (rule wires_ok_event [OF wire_ok_inv assms], simp)+

lemma wires_ok_run:
  "wires_ok wire_ok d \<Longrightarrow> list_all mesh_event evs \<Longrightarrow> wires_ok wire_ok (daemon_run T V evs d)"
  unfolding daemon_run_def by (induction evs arbitrary: d) (simp_all add: wires_ok_step)

lemma wires_exact_run:
  "wires_ok wire_exact d \<Longrightarrow> list_all (\<lambda>ev. mesh_event ev \<and> \<not> is_drop ev) evs
    \<Longrightarrow> wires_ok wire_exact (daemon_run T V evs d)"
  unfolding daemon_run_def by (induction evs arbitrary: d) (simp_all add: wires_ok_event [OF wire_exact_inv])

lemma wires_ok_init: "wires_ok P (daemon_with_factory a)" "wires_ok P (daemon_single_group a grp)"
  by (simp_all add: wires_ok_def daemon_with_factory_def daemon_single_group_def)

end

subsection \<open>The libp2p surface keeps the contract\<close>

lemma libp2p_transport_simps [simp]:
  "tr_dial (libp2p_transport parse to_string l) = lt_dial"
  "tr_disconnect (libp2p_transport parse to_string l) = lt_disconnect"
  "tr_connected (libp2p_transport parse to_string l) = lt_connected"
  "tr_publish (libp2p_transport parse to_string l) = lt_publish"
  "tr_drain (libp2p_transport parse to_string l) = lt_drain"
  "tr_authorize (libp2p_transport parse to_string l) = lt_dial"
  "tr_add_peers (libp2p_transport parse to_string l) = lt_add_peers parse l"
  "tr_seed_addrs (libp2p_transport parse to_string l) = lt_seed_addrs to_string l"
  by (simp_all add: libp2p_transport_def)

interpretation lt: authorizing_transport "libp2p_transport parse to_string l" "\<lambda>_. True" sw_authorized
  for parse to_string l
  by unfold_locales
    (auto simp: lt_dial_def lt_disconnect_def lt_connected_def lt_publish_def lt_drain_def lt_add_peers_def
      send_cmd_def fold_send_dial canonical_address_fixed split: sum.splits)

text \<open>On libp2p the transport's authorized set never outruns the gate: in every run of the daemon
  whose factory makes fresh transports, whatever the swarms do, a group's transport authorizes only
  addresses that the group's session allows.\<close>

theorem libp2p_authorized_allowed:
  assumes "list_all lt.mesh_event evs"
    and "fmlookup (d_groups (daemon_run (libp2p_transport parse to_string l) V evs (daemon_with_factory a))) g = Some s"
  shows "sw_authorized (s_transport s) |\<subseteq>| mem_allowed (s_membership s)"
proof -
  have "lt.wires_ok lt.wire_ok (daemon_run (libp2p_transport parse to_string l) V evs (daemon_with_factory a))"
    using lt.wires_ok_init(1) assms(1) by (rule lt.wires_ok_run)
  from lt.wires_okD [OF this assms(2)] show ?thesis by (simp add: lt.wire_ok_def)
qed

text \<open>A roster update takes hold on the wire at once: when it succeeds, in any such run, the
  transport's authorized set is exactly the allowed set of the group's session, so an address that was
  taken off the roster is de-authorized whether or not it is connected.\<close>

theorem libp2p_set_roster_authorizes:
  assumes "list_all lt.mesh_event evs" and "lt.fresh_factory mk"
    and "set_roster_with_devices (libp2p_transport parse to_string l) mk V g roster links revs
      (daemon_run (libp2p_transport parse to_string l) V evs (daemon_with_factory a)) = (Ok x, d')"
  shows "\<exists>s. fmlookup (d_groups d') g = Some s \<and> sw_authorized (s_transport s) = mem_allowed (s_membership s)"
proof -
  have "lt.wires_ok lt.wire_ok (daemon_run (libp2p_transport parse to_string l) V evs (daemon_with_factory a))"
    using lt.wires_ok_init(1) assms(1) by (rule lt.wires_ok_run)
  from lt.wires_ok_set_roster(2) [OF lt.wire_ok_inv this assms(2,3)] show ?thesis by blast
qed

text \<open>The hook for a peer that disconnected takes the peer off the transport's authorized set, while the
  session goes on allowing it.\<close>

lemma drop_peer_deauthorizes:
  assumes "fmlookup (d_groups d) g = Some s" and "canonical_address p = Some a"
  shows "\<exists>s'. fmlookup (d_groups (drop_peer (libp2p_transport parse to_string l) g p d)) g = Some s'
    \<and> a |\<notin>| sw_authorized (s_transport s') \<and> mem_allowed (s_membership s') = mem_allowed (s_membership s)"
  using assms
  by (simp add: drop_peer_def session_simps membership_simps lt.disconnect_authorized [unfolded libp2p_transport_simps]
      canonical_address_canonical [OF assms(2)])

subsection \<open>A concrete run\<close>

definition sample_libp2p :: "nat swarm mesh_transport" where
  "sample_libp2p = libp2p_transport (\<lambda>_. None) (\<lambda>_. []) 0"

definition sample_swarms :: "nat swarm transport_factory" where
  "sample_swarms grp = Ok (swarm_init grp [] [])"

definition sample_mesh_events :: "nat swarm daemon_event list" where
  "sample_mesh_events =
    [EvRequest sample_swarms (ReqJoin ''g''), EvRequest sample_swarms (ReqSetRoster ''g'' sample_roster [] [])]"

lemma sample_swarms_fresh: "lt.fresh_factory sample_swarms"
  by (simp add: lt.fresh_factory_def sample_swarms_def swarm_init_def)

lemma sample_mesh_join:
  "daemon_run sample_libp2p stub_verifier [EvRequest sample_swarms (ReqJoin ''g'')] (daemon_with_factory a) =
    put_session ''g'' (session_new [] (swarm_init ''g'' [] [])) (daemon_with_factory a)"
proof -
  have "trim ''g'' = ''g''" by (rule trim_graphic) (simp add: is_ascii_graphic_def)
  then show ?thesis
    by (simp add: daemon_run_def daemon_join_def ensure_group_allowed_def daemon_with_factory_def
        ensure_session_def MAX_GROUPS_def sample_swarms_def put_session_def ok_or_def)
qed

lemma sample_mesh_set_roster:
  "\<exists>x d' s. set_roster_with_devices sample_libp2p sample_swarms stub_verifier ''g'' sample_roster [] []
      (daemon_run sample_libp2p stub_verifier [EvRequest sample_swarms (ReqJoin ''g'')] (daemon_with_factory a)) = (Ok x, d')
    \<and> fmlookup (d_groups d') ''g'' = Some s \<and> addr_of ''a1'' |\<in>| mem_allowed (s_membership s)"
proof -
  let ?d1 = "put_session ''g'' (session_new [] (swarm_init ''g'' [] [] :: nat swarm)) (daemon_with_factory a)"
  have g: "fmlookup (d_groups ?d1) ''g'' = Some (session_new [] (swarm_init ''g'' [] []))" "d_single ?d1 = None"
    by (simp_all add: daemon_with_factory_def)
  have u: "registry_update stub_verifier [] [] (gd_registry (fm_get_or group_devices_default (d_devices ?d1) ''g''))
      = ([], registry_new)"
    by (simp add: daemon_with_factory_def group_devices_default_def registry_update_def registry_new_def
        sorted_list_of_fmap_def)
  have "addr_of ''a1'' |\<in>| allowed_set (effective_roster sample_roster registry_new)"
    unfolding effective_roster_no_devices
    by (simp add: allowed_set_def sample_roster_def insert_some_def allowed_entry_def role_rank_member)
  moreover have "set_roster_with_devices sample_libp2p sample_swarms stub_verifier ''g'' sample_roster [] [] ?d1 =
      (Ok (sorted_list_of_fset (mem_admitted (s_membership (session_new [] (swarm_init ''g'' [] [] :: nat swarm)))
             |-| allowed_set (effective_roster sample_roster registry_new)), []),
       put_session ''g'' (roster_session sample_libp2p (effective_roster sample_roster registry_new)
           (session_new [] (swarm_init ''g'' [] [])))
         (?d1\<lparr>d_devices := fmupd ''g'' \<lparr>gd_roster = sample_roster, gd_registry = registry_new\<rparr> (d_devices ?d1)\<rparr>))"
    using ensure_session_again [OF g(1), of sample_swarms] g u
    by (simp add: set_roster_with_devices_def ensure_group_allowed_def apply_roster_session)
  ultimately show ?thesis
    unfolding sample_mesh_join by (auto simp: membership_simps)
qed

theorem libp2p_authorized_allowed_witness:
  "\<exists>s. fmlookup (d_groups (daemon_run sample_libp2p stub_verifier sample_mesh_events (daemon_with_factory []))) ''g'' = Some s
     \<and> addr_of ''a1'' |\<in>| mem_allowed (s_membership s)
     \<and> sw_authorized (s_transport s) |\<subseteq>| mem_allowed (s_membership s)"
proof -
  obtain x d' s where r: "set_roster_with_devices sample_libp2p sample_swarms stub_verifier ''g'' sample_roster [] []
      (daemon_run sample_libp2p stub_verifier [EvRequest sample_swarms (ReqJoin ''g'')] (daemon_with_factory [])) = (Ok x, d')"
    and l: "fmlookup (d_groups d') ''g'' = Some s" "addr_of ''a1'' |\<in>| mem_allowed (s_membership s)"
    using sample_mesh_set_roster [of "[]"] by blast
  have "daemon_run sample_libp2p stub_verifier sample_mesh_events (daemon_with_factory []) = d'"
    using r by (simp add: sample_mesh_events_def daemon_run_def)
  moreover from this l(1) have "sw_authorized (s_transport s) |\<subseteq>| mem_allowed (s_membership s)"
    using libp2p_authorized_allowed [of sample_mesh_events "\<lambda>_. None" "\<lambda>_. []" 0 stub_verifier "[]" "''g''" s]
    by (simp add: sample_mesh_events_def sample_swarms_fresh sample_libp2p_def)
  ultimately show ?thesis using l by blast
qed

theorem libp2p_set_roster_authorizes_witness:
  "\<exists>x d' s. set_roster_with_devices sample_libp2p sample_swarms stub_verifier ''g'' sample_roster [] []
      (daemon_run sample_libp2p stub_verifier [EvRequest sample_swarms (ReqJoin ''g'')] (daemon_with_factory [])) = (Ok x, d')
    \<and> fmlookup (d_groups d') ''g'' = Some s \<and> addr_of ''a1'' |\<in>| sw_authorized (s_transport s)"
proof -
  obtain x d' s where r: "set_roster_with_devices sample_libp2p sample_swarms stub_verifier ''g'' sample_roster [] []
      (daemon_run sample_libp2p stub_verifier [EvRequest sample_swarms (ReqJoin ''g'')] (daemon_with_factory [])) = (Ok x, d')"
    and l: "fmlookup (d_groups d') ''g'' = Some s" "addr_of ''a1'' |\<in>| mem_allowed (s_membership s)"
    using sample_mesh_set_roster [of "[]"] by blast
  have "\<exists>s. fmlookup (d_groups d') ''g'' = Some s \<and> sw_authorized (s_transport s) = mem_allowed (s_membership s)"
    by (rule libp2p_set_roster_authorizes [OF _ sample_swarms_fresh r [unfolded sample_libp2p_def]])
      (simp add: sample_swarms_fresh)
  with r l show ?thesis by auto
qed

end
