(* ===== verification/Server.thy ===== *)
theory Server
  imports Ipc
begin

section \<open>The control socket\<close>

text \<open>
  \<open>crates/cluster-daemon/src/server.rs\<close>: the connections through which clients reach the daemon. A
  connection reads from a stream, which is all the bytes the client will ever send followed by the end
  of the stream or a read error (the timeout of the handshake is one), and writes lines until the
  client stops taking them. \<open>handle_conn\<close> is split where its loop is: \<open>greet\<close> is the handshake,
  \<open>serve_line\<close> one turn of the loop. Every turn holds the daemon's lock while it handles its request, so
  the connections interleave turn by turn: \<open>server_step\<close>. What \<open>handle_conn\<close> returns is only logged and
  is left out. JSON (\<open>serde_json\<close>) and the constant-time comparison (\<open>subtle\<close>) come from other crates
  and are the fields of a record of parameters.
\<close>

definition MAX_LINE :: nat where
  "MAX_LINE = 64 * 1024"

definition AUTH_TIMEOUT :: nat where
  "AUTH_TIMEOUT = 10"

subsection \<open>Reading lines\<close>

datatype io_kind = InvalidData | WouldBlock | OtherKind

record stream =
  st_bytes :: rstr
  st_end :: "io_kind option"

text \<open>\<open>read_until(b'\n')\<close> on the bytes at hand.\<close>

fun take_line :: "rstr \<Rightarrow> rstr" where
  "take_line [] = []"
| "take_line (b # bs) = (if b = LF then [b] else b # take_line bs)"

definition ends_with_newline :: "rstr \<Rightarrow> bool" where
  "ends_with_newline s \<longleftrightarrow> s \<noteq> [] \<and> last s = LF"

text \<open>
  \<open>r.by_ref().take(max).read_line(buf)\<close> stops after a newline, after \<open>max\<close> (here \<open>cap\<close>) bytes, at the end of the
  stream or at a read error, and refuses bytes that are not UTF-8 with the kind \<open>InvalidData\<close>.
\<close>

definition read_capped_line :: "nat \<Rightarrow> stream \<Rightarrow> (io_kind + rstr) \<times> stream" where
  "read_capped_line cap s =
    (let line = take_line (take cap (st_bytes s));
         s1 = s\<lparr>st_bytes := drop (length line) (st_bytes s)\<rparr>;
         checked =
           (if \<not> utf8_valid line then Err InvalidData
            else if length line = cap \<and> \<not> ends_with_newline line then Err InvalidData
            else Ok line)
     in if \<not> ends_with_newline line \<and> length line < cap
        then (case st_end s of Some e \<Rightarrow> (Err e, s1) | None \<Rightarrow> (checked, s1))
        else (checked, s1))"

subsection \<open>Codec and bearer\<close>

datatype wire_response = WireResponse response | WireError rstr

record codec =
  cd_parse_auth :: "rstr \<Rightarrow> rstr option"
  cd_parse_request :: "rstr \<Rightarrow> rstr + request"
  cd_encode :: "wire_response \<Rightarrow> rstr option"
  cd_ct_eq :: "rstr \<Rightarrow> rstr \<Rightarrow> bool"

definition authorized :: "codec \<Rightarrow> rstr \<Rightarrow> rstr \<Rightarrow> bool" where
  "authorized C auth_line bearer \<longleftrightarrow>
    (case cd_parse_auth C (trim auth_line) of
       None \<Rightarrow> False
     | Some token \<Rightarrow> length token = length bearer \<and> cd_ct_eq C token bearer)"

definition quoted :: "rstr \<Rightarrow> rstr" where
  "quoted s = [CHR 0x22] @ s @ [CHR 0x22]"

definition err_json :: "codec \<Rightarrow> rstr \<Rightarrow> rstr" where
  "err_json C msg =
    (case cd_encode C (WireError msg) of
       Some out \<Rightarrow> out
     | None \<Rightarrow> ''{'' @ quoted ''type'' @ '':'' @ quoted ''error'' @ '','' @ quoted ''message'' @ '':''
         @ quoted ''error'' @ ''}'')"

definition READY :: rstr where
  "READY = ''{'' @ quoted ''type'' @ '':'' @ quoted ''ready'' @ ''}''"

text \<open>User ids are unsigned; the return code is kept as the bits of a C \<open>int\<close>.\<close>

definition peer_uid_decision :: "32 word \<Rightarrow> 32 word \<Rightarrow> 32 word \<Rightarrow> bool" where
  "peer_uid_decision rc peer_uid euid \<longleftrightarrow> rc = 0 \<and> peer_uid = euid"

subsection \<open>A connection\<close>

datatype conn_phase = Greeting | Serving | Closed

record conn =
  cn_stream :: stream
  cn_room :: nat
  cn_out :: "rstr list"
  cn_timeout :: "nat option"
  cn_phase :: conn_phase

definition conn_new :: "stream \<Rightarrow> nat \<Rightarrow> conn" where
  "conn_new s room = \<lparr>cn_stream = s, cn_room = room, cn_out = [], cn_timeout = None, cn_phase = Greeting\<rparr>"

definition write_line :: "rstr \<Rightarrow> conn \<Rightarrow> bool \<times> conn" where
  "write_line l c =
    (if cn_room c = 0 then (False, c)
     else (True, c\<lparr>cn_room := cn_room c - 1, cn_out := cn_out c @ [l]\<rparr>))"

definition close_conn :: "conn \<Rightarrow> conn" where
  "close_conn c = c\<lparr>cn_phase := Closed\<rparr>"

definition conn_start :: "32 word \<Rightarrow> 32 word \<Rightarrow> 32 word \<Rightarrow> conn \<Rightarrow> conn" where
  "conn_start euid rc peer_uid c =
    (if \<not> peer_uid_decision rc peer_uid euid then close_conn c
     else c\<lparr>cn_timeout := Some AUTH_TIMEOUT\<rparr>)"

definition greet :: "codec \<Rightarrow> rstr \<Rightarrow> conn \<Rightarrow> conn" where
  "greet C bearer c =
    (case read_capped_line MAX_LINE (cn_stream c) of
       (Err _, s) \<Rightarrow> close_conn (c\<lparr>cn_stream := s\<rparr>)
     | (Ok line, s) \<Rightarrow>
         let c1 = c\<lparr>cn_stream := s\<rparr>
         in if line = [] then close_conn c1
            else if \<not> authorized C line bearer then close_conn (snd (write_line (err_json C ''unauthorized'') c1))
            else case write_line READY c1 of
                   (False, c2) \<Rightarrow> close_conn c2
                 | (True, c2) \<Rightarrow> c2\<lparr>cn_timeout := None, cn_phase := Serving\<rparr>)"

text \<open>The answer to one line, and the daemon after it.\<close>

definition wire_answer :: "codec \<Rightarrow> wire_response \<Rightarrow> rstr" where
  "wire_answer C resp = (case cd_encode C resp of Some out \<Rightarrow> out | None \<Rightarrow> err_json C ''response encode failed'')"

definition answer :: "codec \<Rightarrow> (request \<Rightarrow> 'd \<Rightarrow> response \<times> 'd) \<Rightarrow> rstr \<Rightarrow> 'd \<Rightarrow> rstr \<times> 'd" where
  "answer C handle line d =
    (case (case cd_parse_request C (trim line) of
             Ok req \<Rightarrow> (case handle req d of (r, d') \<Rightarrow> (WireResponse r, d'))
           | Err e \<Rightarrow> (WireError (''bad request: '' @ e), d)) of
       (resp, d') \<Rightarrow> (wire_answer C resp, d'))"

definition serve_line :: "codec \<Rightarrow> (request \<Rightarrow> 'd \<Rightarrow> response \<times> 'd) \<Rightarrow> 'd \<Rightarrow> conn \<Rightarrow> 'd \<times> conn" where
  "serve_line C handle d c =
    (case read_capped_line MAX_LINE (cn_stream c) of
       (Err e, s) \<Rightarrow>
         let c1 = c\<lparr>cn_stream := s\<rparr>
         in (d, if e = InvalidData then close_conn (snd (write_line (err_json C ''request too large'') c1))
                else close_conn c1)
     | (Ok line, s) \<Rightarrow>
         let c1 = c\<lparr>cn_stream := s\<rparr>
         in if line = [] then (d, close_conn c1)
            else if trim line = [] then (d, c1)
            else case answer C handle line d of
                   (out, d') \<Rightarrow> (case write_line out c1 of (ok, c2) \<Rightarrow> (d', if ok then c2 else close_conn c2)))"

subsection \<open>The whole connection\<close>

lemma length_take_line: "length (take_line bs) \<le> length bs"
  by (induction bs) auto

lemma take_line_Nil: "take_line bs = [] \<longleftrightarrow> bs = []"
  by (cases bs) auto

lemma read_capped_line_stream:
  assumes "read_capped_line n s = (r, s')"
  shows "length (st_bytes s') \<le> length (st_bytes s)" and "r = Ok line \<Longrightarrow> line \<noteq> [] \<Longrightarrow> length (st_bytes s') < length (st_bytes s)"
proof -
  let ?l = "take_line (take n (st_bytes s))"
  have s': "st_bytes s' = drop (length ?l) (st_bytes s)" and r: "r = Ok line \<Longrightarrow> line = ?l"
    using assms by (auto simp: read_capped_line_def Let_def split: option.splits if_splits)
  show "length (st_bytes s') \<le> length (st_bytes s)" by (simp add: s')
  assume "r = Ok line" and "line \<noteq> []"
  with r have ne: "?l \<noteq> []" by simp
  then have "st_bytes s \<noteq> []" by (auto simp: take_line_Nil)
  with ne show "length (st_bytes s') < length (st_bytes s)" by (simp add: s')
qed

lemma write_line_fields:
  "cn_stream (snd (write_line l c)) = cn_stream c" "cn_phase (snd (write_line l c)) = cn_phase c"
  by (simp_all add: write_line_def)

lemma serve_line_progress:
  assumes "serve_line C handle d c = (d', c')" and "cn_phase c' = Serving"
  shows "length (st_bytes (cn_stream c')) < length (st_bytes (cn_stream c))"
proof -
  obtain r s where r: "read_capped_line MAX_LINE (cn_stream c) = (r, s)" by fastforce
  note rr = read_capped_line_stream [OF r]
  have "cn_stream c' = s \<and> (\<exists>line. r = Ok line \<and> line \<noteq> [])"
    using assms write_line_fields
    by (auto simp: serve_line_def r close_conn_def Let_def write_line_def
        split: sum.splits prod.splits if_splits)
  with rr(2) show ?thesis by blast
qed

function conn_loop :: "codec \<Rightarrow> (request \<Rightarrow> 'd \<Rightarrow> response \<times> 'd) \<Rightarrow> 'd \<Rightarrow> conn \<Rightarrow> 'd \<times> conn" where
  "conn_loop C handle d c =
    (if cn_phase c = Serving
     then (case serve_line C handle d c of (d', c') \<Rightarrow> conn_loop C handle d' c')
     else (d, c))"
  by pat_completeness auto
termination
  by (relation "measure (\<lambda>(C, handle, d, c).
        if cn_phase c = Serving then Suc (length (st_bytes (cn_stream c))) else 0)")
    (auto split: prod.splits dest: serve_line_progress)

declare conn_loop.simps [simp del]

lemma conn_loop_closed [simp]: "cn_phase c \<noteq> Serving \<Longrightarrow> conn_loop C handle d c = (d, c)"
  by (simp add: conn_loop.simps)

definition handle_conn ::
  "codec \<Rightarrow> rstr \<Rightarrow> 32 word \<Rightarrow> (request \<Rightarrow> 'd \<Rightarrow> response \<times> 'd) \<Rightarrow> 32 word \<Rightarrow> 32 word \<Rightarrow> conn \<Rightarrow> 'd \<Rightarrow> 'd \<times> conn" where
  "handle_conn C bearer euid handle rc peer_uid c d =
    (let c1 = conn_start euid rc peer_uid c
     in if cn_phase c1 = Closed then (d, c1) else conn_loop C handle d (greet C bearer c1))"

subsection \<open>Who reaches the daemon\<close>

text \<open>What \<open>subtle\<close> documents of its comparison of byte slices.\<close>

definition ct_eq_doc :: "codec \<Rightarrow> bool" where
  "ct_eq_doc C \<longleftrightarrow> (\<forall>a b. length a = length b \<longrightarrow> cd_ct_eq C a b = (a = b))"

lemma authorized_iff:
  "ct_eq_doc C \<Longrightarrow> authorized C line bearer \<longleftrightarrow> cd_parse_auth C (trim line) = Some bearer"
  by (auto simp: authorized_def ct_eq_doc_def split: option.splits)

lemma greet_cases:
  obtains (serving) line s where "read_capped_line MAX_LINE (cn_stream c) = (Ok line, s)" and "line \<noteq> []"
      and "authorized C line bearer" and "cn_phase (greet C bearer c) = Serving"
      and "greet C bearer c =
        c\<lparr>cn_stream := s, cn_room := cn_room c - 1, cn_out := cn_out c @ [READY], cn_timeout := None, cn_phase := Serving\<rparr>"
  | (closed) "cn_phase (greet C bearer c) = Closed"
      and "set (cn_out (greet C bearer c)) \<subseteq> insert (err_json C ''unauthorized'') (set (cn_out c))"
proof (cases "cn_phase (greet C bearer c) = Serving")
  case True
  then show thesis
    by (auto simp: greet_def Let_def write_line_def close_conn_def split: sum.splits prod.splits if_splits
        intro: serving)
next
  case False
  then have "cn_phase (greet C bearer c) = Closed"
      "set (cn_out (greet C bearer c)) \<subseteq> insert (err_json C ''unauthorized'') (set (cn_out c))"
    by (auto simp: greet_def Let_def write_line_def close_conn_def split: sum.splits prod.splits if_splits)
  then show thesis by (rule closed)
qed

text \<open>C15. Nobody reaches the daemon without the bearer: a connection from another user, or whose first line
  does not carry exactly the bearer, leaves the daemon as it was and is sent nothing but the refusal.\<close>

theorem unauthorized_conn_harmless:
  assumes "ct_eq_doc C"
    and "handle_conn C bearer euid handle rc peer_uid (conn_new stream room) d = (d', c')"
    and "d' \<noteq> d \<or> \<not> set (cn_out c') \<subseteq> {err_json C ''unauthorized''}"
  shows "rc = 0 \<and> peer_uid = euid
    \<and> (\<exists>line s. read_capped_line MAX_LINE stream = (Ok line, s) \<and> cd_parse_auth C (trim line) = Some bearer)"
proof (cases "peer_uid_decision rc peer_uid euid")
  case True
  let ?c = "conn_start euid rc peer_uid (conn_new stream room)"
  have c: "cn_stream ?c = stream" "cn_out ?c = []" "cn_phase ?c = Greeting"
    using True by (simp_all add: conn_start_def conn_new_def)
  have h: "conn_loop C handle d (greet C bearer ?c) = (d', c')"
    using assms(2) c(3) by (simp add: handle_conn_def Let_def)
  show ?thesis
  proof (cases rule: greet_cases [of ?c C bearer])
    case (serving line s)
    with True c(1) authorized_iff [OF assms(1)] show ?thesis by (auto simp: peer_uid_decision_def)
  next
    case closed
    with h have "d' = d \<and> c' = greet C bearer ?c" by (simp add: conn_loop.simps)
    with assms(3) closed(2) c(2) show ?thesis by auto
  qed
next
  case False
  with assms(2) have "d' = d \<and> cn_out c' = []"
    by (auto simp: handle_conn_def conn_start_def conn_new_def close_conn_def)
  with assms(3) show ?thesis by auto
qed

subsection \<open>Turns\<close>

text \<open>The turns of a connection one by one; several connections take theirs in any order.\<close>

definition conn_step ::
  "codec \<Rightarrow> rstr \<Rightarrow> (request \<Rightarrow> 'd \<Rightarrow> response \<times> 'd) \<Rightarrow> 'd \<Rightarrow> conn \<Rightarrow> 'd \<times> conn" where
  "conn_step C bearer handle d c =
    (case cn_phase c of
       Greeting \<Rightarrow> (d, greet C bearer c)
     | Serving \<Rightarrow> serve_line C handle d c
     | Closed \<Rightarrow> (d, c))"

definition conn_turns ::
  "codec \<Rightarrow> rstr \<Rightarrow> (request \<Rightarrow> 'd \<Rightarrow> response \<times> 'd) \<Rightarrow> nat \<Rightarrow> 'd \<times> conn \<Rightarrow> 'd \<times> conn" where
  "conn_turns C bearer handle n = (\<lambda>(d, c). conn_step C bearer handle d c) ^^ n"

lemma conn_turns_simps:
  "conn_turns C bearer handle 0 x = x"
  "conn_turns C bearer handle (Suc n) (d, c) = conn_turns C bearer handle n (conn_step C bearer handle d c)"
  by (simp_all add: conn_turns_def funpow_swap1)

lemma conn_turns_closed: "cn_phase c = Closed \<Longrightarrow> conn_turns C bearer handle n (d, c) = (d, c)"
  by (induction n) (simp_all add: conn_turns_simps conn_step_def)

lemma serve_line_phase: "cn_phase c = Serving \<Longrightarrow> cn_phase (snd (serve_line C handle d c)) \<in> {Serving, Closed}"
  by (auto simp: serve_line_def Let_def close_conn_def write_line_def split: sum.splits prod.splits if_splits)

lemma conn_loop_turns:
  assumes "cn_phase c = Serving" and "length (st_bytes (cn_stream c)) < n"
  shows "conn_turns C bearer handle n (d, c) = conn_loop C handle d c
    \<and> cn_phase (snd (conn_loop C handle d c)) = Closed"
  using assms
proof (induction n arbitrary: c d)
  case (Suc n)
  obtain d' c' where s: "serve_line C handle d c = (d', c')" by fastforce
  have t: "conn_turns C bearer handle (Suc n) (d, c) = conn_turns C bearer handle n (d', c')"
    and l: "conn_loop C handle d c = conn_loop C handle d' c'"
    using Suc.prems(1) s by (simp_all add: conn_turns_simps conn_step_def conn_loop.simps [of C handle d c])
  show ?case
  proof (cases "cn_phase c' = Serving")
    case True
    from serve_line_progress [OF s True] Suc.prems(2) have "length (st_bytes (cn_stream c')) < n" by simp
    from Suc.IH [OF True this] t l show ?thesis by simp
  next
    case False
    with serve_line_phase [OF Suc.prems(1), of C handle d] s have "cn_phase c' = Closed" by simp
    with t l show ?thesis by (simp add: conn_turns_closed)
  qed
qed simp

lemma read_capped_line_length:
  "length (st_bytes (snd (read_capped_line n s))) \<le> length (st_bytes s)"
  using read_capped_line_stream(1) [of n s] by (cases "read_capped_line n s") auto

lemma greet_stream: "length (st_bytes (cn_stream (greet C bearer c))) \<le> length (st_bytes (cn_stream c))"
  using read_capped_line_length [of MAX_LINE "cn_stream c"]
  by (auto simp: greet_def Let_def close_conn_def write_line_def split: sum.splits prod.splits if_splits)

text \<open>C19. No client can hold a connection forever by what it sends: whatever its stream, the connection is
  closed after at most two turns more than it sent bytes, and the turns taken one by one, as the
  connections of a server interleave, do what \<open>handle_conn\<close> does.\<close>

theorem handle_conn_terminates:
  "conn_turns C bearer handle (length (st_bytes stream) + 2) (d, conn_start euid rc peer_uid (conn_new stream room))
     = handle_conn C bearer euid handle rc peer_uid (conn_new stream room) d
   \<and> cn_phase (snd (handle_conn C bearer euid handle rc peer_uid (conn_new stream room) d)) = Closed"
proof -
  let ?c = "conn_start euid rc peer_uid (conn_new stream room)" and ?n = "length (st_bytes stream)"
  consider "cn_phase ?c = Closed" | "cn_phase ?c = Greeting" "cn_stream ?c = stream"
    by (cases "peer_uid_decision rc peer_uid euid") (simp_all add: conn_start_def conn_new_def close_conn_def)
  then show ?thesis
  proof cases
    case 1
    then show ?thesis by (simp only: handle_conn_def Let_def conn_turns_closed) simp
  next
    case 2
    have h: "handle_conn C bearer euid handle rc peer_uid (conn_new stream room) d = conn_loop C handle d (greet C bearer ?c)"
      using 2(1) by (simp add: handle_conn_def Let_def)
    have t: "conn_turns C bearer handle (?n + 2) (d, ?c) = conn_turns C bearer handle (?n + 1) (d, greet C bearer ?c)"
      using 2(1) by (simp add: conn_turns_simps conn_step_def)
    have len: "length (st_bytes (cn_stream (greet C bearer ?c))) < ?n + 1"
      using greet_stream [of C bearer ?c] 2(2) by simp
    show ?thesis
    proof (cases rule: greet_cases [of ?c C bearer])
      case (serving line s)
      from conn_loop_turns [OF serving(4) len] h t show ?thesis by simp
    next
      case closed
      then show ?thesis using h t by (simp only: conn_turns_closed) simp
    qed
  qed
qed

subsection \<open>What a client is answered\<close>

definition wire_line :: "rstr \<Rightarrow> bool" where
  "wire_line l \<longleftrightarrow> ends_with_newline l \<and> LF \<notin> set (butlast l) \<and> utf8_valid l \<and> length l \<le> MAX_LINE"

fun answers :: "codec \<Rightarrow> (request \<Rightarrow> 'd \<Rightarrow> response \<times> 'd) \<Rightarrow> rstr list \<Rightarrow> 'd \<Rightarrow> rstr list \<times> 'd" where
  "answers C handle [] d = ([], d)"
| "answers C handle (l # ls) d =
    (if trim l = [] then answers C handle ls d
     else case answer C handle l d of (out, d1) \<Rightarrow>
            case answers C handle ls d1 of (outs, d2) \<Rightarrow> (out # outs, d2))"

lemma take_line_append: "LF \<notin> set k \<Longrightarrow> take_line (k @ LF # bs) = k @ [LF]"
  by (induction k) auto

lemma read_wire_line:
  assumes "wire_line l"
  shows "read_capped_line MAX_LINE \<lparr>st_bytes = l @ bs, st_end = e\<rparr> = (Ok l, \<lparr>st_bytes = bs, st_end = e\<rparr>)"
proof -
  define k where "k = butlast l"
  have l: "l = k @ [LF]" and k: "LF \<notin> set k" and len: "length l \<le> MAX_LINE"
    using assms append_butlast_last_id [of l] by (auto simp: wire_line_def ends_with_newline_def k_def)
  have "take MAX_LINE (l @ bs) = k @ LF # take (MAX_LINE - length l) bs" using len by (simp add: l take_Cons')
  then have "take_line (take MAX_LINE (l @ bs)) = l" by (simp add: take_line_append [OF k] l)
  then have t: "take_line (take MAX_LINE (st_bytes \<lparr>st_bytes = l @ bs, st_end = e\<rparr>)) = l"
    by (simp only: stream.simps)
  show ?thesis using assms unfolding read_capped_line_def t by (simp add: Let_def wire_line_def)
qed

lemma conn_loop_answers:
  assumes "list_all wire_line ls" and "length ls \<le> cn_room c" and "cn_phase c = Serving"
    and "cn_stream c = \<lparr>st_bytes = concat ls, st_end = None\<rparr>"
  shows "fst (conn_loop C handle d c) = snd (answers C handle ls d)
    \<and> cn_out (snd (conn_loop C handle d c)) = cn_out c @ fst (answers C handle ls d)"
  using assms
proof (induction ls arbitrary: c d)
  case Nil
  have "read_capped_line MAX_LINE \<lparr>st_bytes = [], st_end = None\<rparr> = (Ok [], \<lparr>st_bytes = [], st_end = None\<rparr>)"
    by (simp add: read_capped_line_def MAX_LINE_def utf8_valid_ascii ends_with_newline_def Let_def)
  with Nil show ?case
    by (simp add: conn_loop.simps [of C handle d c] serve_line_def close_conn_def)
next
  case (Cons l ls)
  let ?c1 = "c\<lparr>cn_stream := \<lparr>st_bytes = concat ls, st_end = None\<rparr>\<rparr>"
  have w: "wire_line l" "list_all wire_line ls" "length ls < cn_room c" using Cons.prems by simp_all
  then have ne: "l \<noteq> []" by (auto simp: wire_line_def ends_with_newline_def)
  have r: "read_capped_line MAX_LINE (cn_stream c) = (Ok l, \<lparr>st_bytes = concat ls, st_end = None\<rparr>)"
    using read_wire_line [OF w(1)] Cons.prems(4) by simp
  show ?case
  proof (cases "trim l = []")
    case True
    have "serve_line C handle d c = (d, ?c1)" by (simp add: serve_line_def r ne True)
    then have "conn_loop C handle d c = conn_loop C handle d ?c1"
      by (simp add: conn_loop.simps [of C handle d c] Cons.prems(3))
    with Cons.IH [of ?c1 d] w(2,3) Cons.prems(3) True show ?thesis by simp
  next
    case False
    obtain out d1 where a: "answer C handle l d = (out, d1)" by fastforce
    let ?c2 = "?c1\<lparr>cn_room := cn_room c - 1, cn_out := cn_out c @ [out]\<rparr>"
    have "serve_line C handle d c = (d1, ?c2)"
      using w(3) by (simp add: serve_line_def r ne False a write_line_def)
    then have "conn_loop C handle d c = conn_loop C handle d1 ?c2"
      by (simp add: conn_loop.simps [of C handle d c] Cons.prems(3))
    with Cons.IH [of ?c2 d1] w(2,3) Cons.prems(3) False a show ?thesis by (simp split: prod.splits)
  qed
qed

text \<open>C16. A client that authenticates is served faithfully: it is sent \<open>ready\<close> and then, in order, one line
  for every line it sends that is not blank, the answer to that request on the state the earlier ones
  left; the daemon ends in the state after the last of them.\<close>

theorem conn_transcript:
  assumes "list_all wire_line (auth # ls)" and "authorized C auth bearer" and "length ls < room"
  shows "case handle_conn C bearer euid handle 0 euid (conn_new \<lparr>st_bytes = concat (auth # ls), st_end = None\<rparr> room) d of
    (d', c') \<Rightarrow> d' = snd (answers C handle ls d) \<and> cn_out c' = READY # fst (answers C handle ls d)"
proof -
  let ?s = "\<lparr>st_bytes = concat ls, st_end = None\<rparr>"
  let ?c = "conn_start euid 0 euid (conn_new \<lparr>st_bytes = concat (auth # ls), st_end = None\<rparr> room)"
  have auth: "wire_line auth" "auth \<noteq> []" using assms(1) by (auto simp: wire_line_def ends_with_newline_def)
  define c2 where "c2 = greet C bearer ?c"
  have g: "c2 = \<lparr>cn_stream = ?s, cn_room = room - 1, cn_out = [READY], cn_timeout = None, cn_phase = Serving\<rparr>"
    using assms(2,3) read_wire_line [OF auth(1), of "concat ls" None] auth(2)
    by (simp add: c2_def conn_start_def peer_uid_decision_def greet_def conn_new_def write_line_def)
  have "handle_conn C bearer euid handle 0 euid (conn_new \<lparr>st_bytes = concat (auth # ls), st_end = None\<rparr> room) d
      = conn_loop C handle d c2"
    by (simp add: handle_conn_def c2_def Let_def conn_start_def peer_uid_decision_def conn_new_def)
  with conn_loop_answers [of ls c2 C handle d] assms(1,3) show ?thesis
    by (simp add: g case_prod_unfold)
qed

text \<open>A line that is short enough but not UTF-8 is answered with \<open>request too large\<close> all the same, since
  both are errors of the kind \<open>InvalidData\<close>.\<close>

lemma bad_utf8_too_large:
  assumes "cn_stream c = \<lparr>st_bytes = k @ [LF] @ bs, st_end = e\<rparr>" and "LF \<notin> set k"
    and "length k < MAX_LINE" and "\<not> utf8_valid (k @ [LF])"
  shows "serve_line C handle d c =
    (d, close_conn (snd (write_line (err_json C ''request too large'') (c\<lparr>cn_stream := \<lparr>st_bytes = bs, st_end = e\<rparr>\<rparr>))))"
proof -
  have "take MAX_LINE (k @ LF # bs) = k @ LF # take (MAX_LINE - length k - 1) bs"
    using assms(3) by (simp add: take_Cons')
  then have "take_line (take MAX_LINE (st_bytes (cn_stream c))) = k @ [LF]"
    using assms(1) by (simp add: take_line_append [OF assms(2)])
  then have "read_capped_line MAX_LINE (cn_stream c) = (Err InvalidData, \<lparr>st_bytes = bs, st_end = e\<rparr>)"
    using assms(1,4) by (simp add: read_capped_line_def Let_def ends_with_newline_def)
  then show ?thesis by (simp add: serve_line_def)
qed

subsection \<open>The server\<close>

record 't server =
  sv_daemon :: "'t daemon"
  sv_conns :: "conn list"

text \<open>
  A connection is accepted, a connection takes a turn, or a group's transport moves on its own. \<open>F\<close> is
  what the transport factory may do on a call, \<open>M\<close> how transports may move.
\<close>

inductive server_step ::
  "('t, 'z) mesh_transport_scheme \<Rightarrow> 't transport_factory set \<Rightarrow> ('t \<Rightarrow> 't) set \<Rightarrow> link_verifier \<Rightarrow> codec
    \<Rightarrow> rstr \<Rightarrow> 32 word \<Rightarrow> 't server \<Rightarrow> 't server \<Rightarrow> bool" for T F M V C bearer euid where
  accept: "server_step T F M V C bearer euid s
    (s\<lparr>sv_conns := sv_conns s @ [conn_start euid rc peer_uid (conn_new stream room)]\<rparr>)"
| turn: "mk \<in> F \<Longrightarrow> i < length (sv_conns s) \<Longrightarrow>
    conn_step C bearer (handle_request T mk V) (sv_daemon s) (sv_conns s ! i) = (d', c') \<Longrightarrow>
    server_step T F M V C bearer euid s (s\<lparr>sv_daemon := d', sv_conns := (sv_conns s)[i := c']\<rparr>)"
| mesh: "f \<in> M \<Longrightarrow> server_step T F M V C bearer euid s (s\<lparr>sv_daemon := transport_moves g f (sv_daemon s)\<rparr>)"

inductive_cases server_stepE: "server_step T F M V C bearer euid s s'"

definition client_event ::
  "'t transport_factory set \<Rightarrow> ('t \<Rightarrow> 't) set \<Rightarrow> codec \<Rightarrow> 't daemon_event \<Rightarrow> bool" where
  "client_event F M C ev \<longleftrightarrow>
    (case ev of
       EvRequest mk req \<Rightarrow> mk \<in> F \<and> Ok req \<in> range (cd_parse_request C)
     | EvTransport _ f \<Rightarrow> f \<in> M
     | _ \<Rightarrow> False)"

lemma answer_state:
  "snd (answer C handle line d) = d
    \<or> (\<exists>req. cd_parse_request C (trim line) = Ok req \<and> snd (answer C handle line d) = snd (handle req d))"
  by (cases "cd_parse_request C (trim line)") (auto simp: answer_def split: prod.splits)

lemma conn_step_state:
  assumes "conn_step C bearer handle d c = (d', c')"
  shows "d' = d \<or> (\<exists>req. Ok req \<in> range (cd_parse_request C) \<and> d' = snd (handle req d))"
proof -
  have "fst (serve_line C handle d c) = d \<or> (\<exists>line. fst (serve_line C handle d c) = snd (answer C handle line d))"
    by (simp add: serve_line_def Let_def split: sum.splits prod.splits) (metis snd_conv)
  then have "fst (serve_line C handle d c) = d
      \<or> (\<exists>req. Ok req \<in> range (cd_parse_request C) \<and> fst (serve_line C handle d c) = snd (handle req d))"
    using answer_state [of C handle _ d] by (metis rangeI)
  with assms show ?thesis by (auto simp: conn_step_def split: conn_phase.splits)
qed

lemma server_step_events:
  assumes "server_step T F M V C bearer euid s s'"
  shows "\<exists>evs. list_all (client_event F M C) evs \<and> sv_daemon s' = daemon_run T V evs (sv_daemon s)"
  using assms
proof cases
  case accept
  then show ?thesis by (intro exI [of _ "[]"]) (simp add: daemon_run_def)
next
  case (turn mk i d' c')
  from conn_step_state [OF turn(4)] show ?thesis
  proof
    assume "d' = sv_daemon s"
    with turn(1) show ?thesis by (intro exI [of _ "[]"]) (simp add: daemon_run_def)
  next
    assume "\<exists>req. Ok req \<in> range (cd_parse_request C) \<and> d' = snd (handle_request T mk V req (sv_daemon s))"
    then obtain req where "Ok req \<in> range (cd_parse_request C)" "d' = snd (handle_request T mk V req (sv_daemon s))"
      by blast
    with turn(1,2) show ?thesis
      by (intro exI [of _ "[EvRequest mk req]"]) (simp add: daemon_run_def client_event_def)
  qed
next
  case (mesh f g)
  then show ?thesis
    by (intro exI [of _ "[EvTransport g f]"]) (simp add: daemon_run_def client_event_def)
qed

lemma server_reach_events:
  assumes "(server_step T F M V C bearer euid)\<^sup>*\<^sup>* \<lparr>sv_daemon = d, sv_conns = []\<rparr> s"
  shows "\<exists>evs. list_all (client_event F M C) evs \<and> sv_daemon s = daemon_run T V evs d"
  using assms
proof (induction rule: rtranclp_induct)
  case base
  show ?case by (intro exI [of _ "[]"]) (simp add: daemon_run_def)
next
  case (step s s')
  from step.IH obtain evs where e: "list_all (client_event F M C) evs" "sv_daemon s = daemon_run T V evs d" by blast
  from server_step_events [OF step.hyps(2)] obtain evs'
    where "list_all (client_event F M C) evs'" "sv_daemon s' = daemon_run T V evs' (sv_daemon s)" by blast
  with e show ?case by (intro exI [of _ "evs @ evs'"]) (simp add: daemon_run_append)
qed

text \<open>A client that authenticates and sends a request has it carried out.\<close>

lemma greet_wire_line:
  assumes "wire_line auth" and "authorized C auth bearer"
  shows "greet C bearer (conn_start euid 0 euid (conn_new \<lparr>st_bytes = auth @ bs, st_end = e\<rparr> (Suc n))) =
    \<lparr>cn_stream = \<lparr>st_bytes = bs, st_end = e\<rparr>, cn_room = n, cn_out = [READY], cn_timeout = None, cn_phase = Serving\<rparr>"
proof -
  have "auth \<noteq> []" using assms(1) by (auto simp: wire_line_def ends_with_newline_def)
  then show ?thesis
    using assms(2) read_wire_line [OF assms(1), of bs e]
    by (simp add: conn_start_def peer_uid_decision_def greet_def conn_new_def write_line_def)
qed

lemma serve_wire_line:
  assumes "wire_line l" and "trim l \<noteq> []" and "cd_parse_request C (trim l) = Ok req" and "handle req d = (r, d')"
  shows "serve_line C handle d
      \<lparr>cn_stream = \<lparr>st_bytes = l @ bs, st_end = e\<rparr>, cn_room = Suc n, cn_out = out, cn_timeout = t, cn_phase = Serving\<rparr> =
    (d', \<lparr>cn_stream = \<lparr>st_bytes = bs, st_end = e\<rparr>, cn_room = n,
      cn_out = out @ [wire_answer C (WireResponse r)], cn_timeout = t, cn_phase = Serving\<rparr>)"
proof -
  have "l \<noteq> []" using assms(1) by (auto simp: wire_line_def ends_with_newline_def)
  then show ?thesis
    using assms(2-4) read_wire_line [OF assms(1), of bs e]
    by (simp add: serve_line_def answer_def write_line_def)
qed

lemma server_request:
  assumes "mk \<in> F" and "wire_line auth" and "authorized C auth bearer"
    and "wire_line l" and "trim l \<noteq> []" and "cd_parse_request C (trim l) = Ok req"
    and "handle_request T mk V req (sv_daemon s) = (r, d')"
  shows "\<exists>c. (server_step T F M V C bearer euid)\<^sup>*\<^sup>* s \<lparr>sv_daemon = d', sv_conns = sv_conns s @ [c]\<rparr>
    \<and> cn_out c = [READY, wire_answer C (WireResponse r)]"
proof -
  let ?step = "server_step T F M V C bearer euid" and ?n = "length (sv_conns s)"
  define c0 where "c0 = conn_start euid 0 euid (conn_new \<lparr>st_bytes = auth @ l @ [], st_end = None\<rparr> (Suc (Suc 0)))"
  define c1 where "c1 = greet C bearer c0"
  obtain c2 where c2: "serve_line C (handle_request T mk V) (sv_daemon s) c1 = (d', c2)"
      "cn_out c2 = [READY, wire_answer C (WireResponse r)]"
    unfolding c1_def c0_def greet_wire_line [OF assms(2,3)]
      serve_wire_line [where handle = "handle_request T mk V", OF assms(4-7)] by simp
  have ph: "cn_phase c0 = Greeting" "cn_phase c1 = Serving"
    unfolding c1_def c0_def greet_wire_line [OF assms(2,3)]
    by (simp_all add: conn_start_def peer_uid_decision_def conn_new_def)
  have s0: "?step s (s\<lparr>sv_conns := sv_conns s @ [c0]\<rparr>)" unfolding c0_def by (rule accept)
  have s1: "?step (s\<lparr>sv_conns := sv_conns s @ [c0]\<rparr>) (s\<lparr>sv_conns := sv_conns s @ [c1]\<rparr>)"
    using turn [OF assms(1), of ?n "s\<lparr>sv_conns := sv_conns s @ [c0]\<rparr>" C bearer T V "sv_daemon s" c1 M euid] ph(1)
    by (simp add: conn_step_def c1_def)
  have s2: "?step (s\<lparr>sv_conns := sv_conns s @ [c1]\<rparr>) (s\<lparr>sv_daemon := d', sv_conns := sv_conns s @ [c2]\<rparr>)"
    using turn [OF assms(1), of ?n "s\<lparr>sv_conns := sv_conns s @ [c1]\<rparr>" C bearer T V d' c2 M euid] ph(2) c2(1)
    by (simp add: conn_step_def)
  have "?step\<^sup>*\<^sup>* s (s\<lparr>sv_daemon := d', sv_conns := sv_conns s @ [c2]\<rparr>)"
    using s0 s1 s2 by (meson rtranclp.rtrancl_into_rtrancl rtranclp.rtrancl_refl)
  moreover have "s\<lparr>sv_daemon := d', sv_conns := sv_conns s @ [c2]\<rparr> = \<lparr>sv_daemon = d', sv_conns = sv_conns s @ [c2]\<rparr>"
    by simp
  ultimately show ?thesis using c2(2) by metis
qed

text \<open>C18. Every request of an authenticated client gets through: whatever the server is doing, and whatever
  its other connections do, a client with the bearer can connect and have a request carried out on the
  daemon as it stands, and it is sent \<open>ready\<close> and the response.\<close>

theorem client_request_served:
  assumes "mk \<in> F" and "wire_line auth" and "authorized C auth bearer"
    and "wire_line l" and "trim l \<noteq> []" and "cd_parse_request C (trim l) = Ok req"
    and "handle_request T mk V req (sv_daemon s) = (r, d')"
  shows "\<exists>c. (server_step T F M V C bearer euid)\<^sup>*\<^sup>* s \<lparr>sv_daemon = d', sv_conns = sv_conns s @ [c]\<rparr>
    \<and> cn_out c = [READY, wire_answer C (WireResponse r)]"
  using assms by (rule server_request)

subsection \<open>A concrete client\<close>

definition stub_codec :: codec where
  "stub_codec =
    \<lparr>cd_parse_auth = Some, cd_parse_request = (\<lambda>s. if s = ''j'' then Ok (ReqJoin ''g'')
       else if s = ''r'' then Ok (ReqSetRoster ''g'' sample_roster [] []) else Err ''?''),
     cd_encode = (\<lambda>r. case r of WireResponse RespOk \<Rightarrow> Some ''ok'' | _ \<Rightarrow> Some ''error''), cd_ct_eq = (=)\<rparr>"

definition sample_stream :: stream where
  "sample_stream = \<lparr>st_bytes = concat [''t'' @ [LF], ''j'' @ [LF]], st_end = None\<rparr>"

lemma sample_lines:
  "wire_line (''t'' @ [LF])" "wire_line (''j'' @ [LF])" "trim (''t'' @ [LF]) = ''t''" "trim (''j'' @ [LF]) = ''j''"
  "wire_line (''r'' @ [LF])" "trim (''r'' @ [LF]) = ''r''"
proof -
  have "[LF] \<in> set ws_seqs" by code_simp
  then have "trim ([b] @ [LF]) = [b]" if "is_ascii_graphic b" for b
    using trim_white_space [of "[]" "[[LF]]" "[b]"] that by simp
  then show "trim (''t'' @ [LF]) = ''t''" "trim (''j'' @ [LF]) = ''j''" "trim (''r'' @ [LF]) = ''r''"
    by (simp_all add: is_ascii_graphic_def)
  have "wire_line ([b] @ [LF])" if "is_ascii_graphic b" "b \<noteq> LF" for b
    using that utf8_valid_ascii [of "[b, LF]"]
    by (simp add: wire_line_def ends_with_newline_def MAX_LINE_def is_ascii_graphic_def)
  from this [of "CHR ''t''"] this [of "CHR ''j''"] this [of "CHR ''r''"]
  show "wire_line (''t'' @ [LF])" "wire_line (''j'' @ [LF])" "wire_line (''r'' @ [LF])" by (simp_all add: is_ascii_graphic_def)
qed

definition sample_conn :: conn where
  "sample_conn = \<lparr>cn_stream = \<lparr>st_bytes = concat [''j'' @ [LF]], st_end = None\<rparr>, cn_room = 1, cn_out = [READY],
     cn_timeout = None, cn_phase = Serving\<rparr>"

lemma sample_authorized: "authorized stub_codec (''t'' @ [LF]) ''t''"
  unfolding authorized_def sample_lines by (simp add: stub_codec_def)

lemma sample_greet: "greet stub_codec ''t'' (conn_start 0 0 0 (conn_new sample_stream 2)) = sample_conn"
proof -
  have "read_capped_line MAX_LINE sample_stream = (Ok (''t'' @ [LF]), \<lparr>st_bytes = ''j'' @ [LF], st_end = None\<rparr>)"
    using read_wire_line [OF sample_lines(1), of "''j'' @ [LF]" None] by (simp add: sample_stream_def)
  with sample_authorized show ?thesis
    by (simp add: greet_def conn_start_def conn_new_def peer_uid_decision_def write_line_def sample_conn_def)
qed

theorem conn_transcript_witness:
  "case handle_conn stub_codec ''t'' 0 (\<lambda>req d. (RespOk, Suc d)) 0 0 (conn_new sample_stream 2) 5 of
    (d', c') \<Rightarrow> d' = 6 \<and> cn_out c' = [READY, ''ok'']"
proof -
  note sample_authorized
  moreover have "answers stub_codec (\<lambda>req d. (RespOk, Suc d)) [''j'' @ [LF]] 5 = ([''ok''], 6)"
    using sample_lines(4) by (simp add: answer_def wire_answer_def stub_codec_def)
  ultimately show ?thesis
    using conn_transcript [where auth = "''t'' @ [LF]" and ls = "[''j'' @ [LF]]" and C = stub_codec and bearer = "''t''"
        and room = 2 and euid = 0 and handle = "\<lambda>req d. (RespOk, Suc d)" and d = 5]
      sample_lines(1,2)
    by (simp add: sample_stream_def case_prod_unfold)
qed

theorem unauthorized_conn_harmless_witness:
  "\<exists>d' c'. handle_conn stub_codec ''t'' 0 (\<lambda>req d. (RespOk, Suc d)) 0 0 (conn_new sample_stream 2) 5 = (d', c')
    \<and> (\<exists>line s. read_capped_line MAX_LINE sample_stream = (Ok line, s) \<and> cd_parse_auth stub_codec (trim line) = Some ''t'')"
proof -
  let ?h = "\<lambda>req d. (RespOk, Suc d)"
  obtain d' c' where h: "handle_conn stub_codec ''t'' 0 ?h 0 0 (conn_new sample_stream 2) 5 = (d', c')" by fastforce
  have "answers stub_codec ?h [''j'' @ [LF]] (5 :: nat) = ([''ok''], 6)"
    using sample_lines(4) by (simp add: answer_def wire_answer_def stub_codec_def)
  then have "fst (conn_loop stub_codec ?h 5 (greet stub_codec ''t'' (conn_start 0 0 0 (conn_new sample_stream 2)))) \<noteq> 5"
    using conn_loop_answers [of "[''j'' @ [LF]]" sample_conn stub_codec ?h 5] sample_lines(2)
    by (simp add: sample_greet) (simp add: sample_conn_def)
  then have "d' \<noteq> 5"
    using h by (simp add: handle_conn_def Let_def conn_start_def conn_new_def peer_uid_decision_def)
  then show ?thesis
    using unauthorized_conn_harmless [OF _ h] h by (simp add: ct_eq_doc_def stub_codec_def)
qed

theorem client_request_served_witness:
  "\<exists>s :: in_process_transport server. (server_step in_process UNIV UNIV stub_verifier stub_codec ''t'' 0)\<^sup>*\<^sup>*
      \<lparr>sv_daemon = daemon_with_factory [], sv_conns = []\<rparr> s
    \<and> sv_daemon s = snd (handle_request in_process sample_factory stub_verifier (ReqJoin ''g'') (daemon_with_factory []))"
proof -
  let ?s = "\<lparr>sv_daemon = daemon_with_factory [], sv_conns = []\<rparr> :: in_process_transport server"
  have "trim (''j'' @ [LF]) \<noteq> []" "cd_parse_request stub_codec (trim (''j'' @ [LF])) = Ok (ReqJoin ''g'')"
    unfolding sample_lines(4) by (simp_all add: stub_codec_def)
  from client_request_served [OF UNIV_I sample_lines(1) sample_authorized sample_lines(2) this prod.collapse [symmetric]]
  show ?thesis by (metis (no_types, lifting) server.select_convs(1))
qed

end
