(* ===== verification/Secret_File.thy ===== *)
theory Secret_File
  imports Server
begin

section \<open>Secret files and the socket's directory\<close>

text \<open>
  The checks of \<open>crates/cluster-daemon/src/lib.rs\<close> (\<open>assert_secure_file\<close>, \<open>read_secret_file\<close>) and of
  \<open>crates/cluster-daemon/src/server.rs\<close> (\<open>check_socket_dir_for\<close>, \<open>harden\<close>), for Unix. What the operating
  system answers is a record of parameters: metadata, which the program reads from the descriptor it
  has open, and the bytes behind it, as a stream that may end in a read error. Modes and user ids are
  32-bit words.
\<close>

definition MAX_SECRET_FILE :: nat where
  "MAX_SECRET_FILE = 4096"

record file_meta =
  fi_regular :: bool
  fi_mode :: "32 word"
  fi_uid :: "32 word"

record os_file =
  fl_meta :: "rstr + file_meta"
  fl_data :: stream

record os =
  os_open_nofollow :: "rstr \<Rightarrow> rstr + os_file"
  os_stat :: "rstr \<Rightarrow> rstr + file_meta"
  os_euid :: "32 word"
  os_var :: "rstr \<Rightarrow> rstr option"
  os_args :: "rstr list"

text \<open>Why a secret file is refused, with the values that the messages print.\<close>

datatype secret_error =
    OpenFailed rstr
  | StatFailed rstr
  | NotRegular
  | Accessible "32 word"
  | WrongOwner "32 word" "32 word"
  | ReadFailed io_kind
  | TooBig
  | NotUtf8

definition permission_bits :: "file_meta \<Rightarrow> 32 word" where
  "permission_bits md = and (fi_mode md) 0x1FF"

definition check_secret_meta :: "32 word \<Rightarrow> file_meta \<Rightarrow> secret_error + unit" where
  "check_secret_meta euid md =
    (let mode = permission_bits md
     in if and mode 0x3F \<noteq> 0 then Err (Accessible mode)
        else if fi_uid md \<noteq> euid then Err (WrongOwner (fi_uid md) euid)
        else Ok ())"

definition assert_secure_file :: "os \<Rightarrow> rstr \<Rightarrow> secret_error + unit" where
  "assert_secure_file S path =
    and_then (map_err StatFailed (os_stat S path)) (check_secret_meta (os_euid S))"

text \<open>\<open>f.take(n).read_to_end(buf)\<close>.\<close>

definition read_to_end_capped :: "nat \<Rightarrow> stream \<Rightarrow> io_kind + rstr" where
  "read_to_end_capped n s =
    (if n \<le> length (st_bytes s) then Ok (take n (st_bytes s))
     else case st_end s of Some e \<Rightarrow> Err e | None \<Rightarrow> Ok (st_bytes s))"

definition read_capped :: "stream \<Rightarrow> secret_error + rstr" where
  "read_capped s =
    and_then (map_err ReadFailed (read_to_end_capped (MAX_SECRET_FILE + 1) s)) (\<lambda>buf.
      if MAX_SECRET_FILE < length buf then Err TooBig
      else if \<not> utf8_valid buf then Err NotUtf8
      else Ok buf)"

definition read_secret_file :: "os \<Rightarrow> rstr \<Rightarrow> secret_error + rstr" where
  "read_secret_file S path =
    and_then (map_err OpenFailed (os_open_nofollow S path)) (\<lambda>f.
    and_then (map_err StatFailed (fl_meta f)) (\<lambda>md.
      if \<not> fi_regular md then Err NotRegular
      else and_then (check_secret_meta (os_euid S) md) (\<lambda>_. read_capped (fl_data f))))"

subsection \<open>What is accepted\<close>

lemma and_mask_zero_iff: "and w (mask n) = 0 \<longleftrightarrow> {i. bit w i} \<inter> {..<n} = {}" for w :: "32 word"
proof -
  have "bit w i \<Longrightarrow> i < 32" for i using bit_imp_le_length [of w i] by simp
  then show ?thesis by (simp add: bit_eq_iff bit_and_iff bit_mask_iff set_eq_iff) blast
qed

lemma permission_bits_private: "and (permission_bits md) 0x3F = 0 \<longleftrightarrow> {i. bit (fi_mode md) i} \<inter> {..<6} = {}"
proof -
  have "and (permission_bits md) 0x3F = and (fi_mode md) (mask 6)"
    by (simp add: permission_bits_def and.assoc mask_eq_exp_minus_1)
  then show ?thesis by (simp only: and_mask_zero_iff)
qed

lemma check_secret_meta_Ok_iff:
  "check_secret_meta euid md = Ok () \<longleftrightarrow> {i. bit (fi_mode md) i} \<inter> {..<6} = {} \<and> fi_uid md = euid"
  by (simp add: check_secret_meta_def Let_def permission_bits_private)

lemma read_capped_Ok_iff:
  "read_capped s = Ok t \<longleftrightarrow>
    s = \<lparr>st_bytes = t, st_end = None\<rparr> \<and> length t \<le> MAX_SECRET_FILE \<and> utf8_valid t"
  by (cases s) (auto simp: read_capped_def read_to_end_capped_def and_then_Ok_iff split: option.splits if_splits)

text \<open>What a private file is: a regular file behind no link, owned by the daemon's user, with the six
  permission bits for group and others clear, and with the text in it.\<close>

definition private_file :: "os \<Rightarrow> rstr \<Rightarrow> rstr \<Rightarrow> bool" where
  "private_file S path t \<longleftrightarrow>
    (\<exists>md. os_open_nofollow S path = Ok \<lparr>fl_meta = Ok md, fl_data = \<lparr>st_bytes = t, st_end = None\<rparr>\<rparr>
       \<and> fi_regular md \<and> fi_uid md = os_euid S \<and> {i. bit (fi_mode md) i} \<inter> {..<6} = {}
       \<and> length t \<le> MAX_SECRET_FILE \<and> utf8_valid t)"

lemma read_secret_file_Ok_iff: "read_secret_file S path = Ok t \<longleftrightarrow> private_file S path t"
proof -
  have "read_secret_file S path = Ok t \<longleftrightarrow>
      (\<exists>f md. (os_open_nofollow S path = Ok f \<and> fl_meta f = Ok md \<and> read_capped (fl_data f) = Ok t)
         \<and> fi_regular md \<and> fi_uid md = os_euid S \<and> {i. bit (fi_mode md) i} \<inter> {..<6} = {})"
    by (auto simp: read_secret_file_def and_then_Ok_iff check_secret_meta_Ok_iff)
  moreover have "os_open_nofollow S path = Ok f \<and> fl_meta f = Ok md \<and> read_capped (fl_data f) = Ok t \<longleftrightarrow>
      f = \<lparr>fl_meta = Ok md, fl_data = \<lparr>st_bytes = t, st_end = None\<rparr>\<rparr>
      \<and> os_open_nofollow S path = Ok f \<and> length t \<le> MAX_SECRET_FILE \<and> utf8_valid t" for f md
    by (cases f) (auto simp: read_capped_Ok_iff)
  ultimately show ?thesis unfolding private_file_def by (simp only:) blast
qed

text \<open>C20. A secret is read only from a private file: \<open>read_secret_file\<close> returns a text exactly when the
  path opens without following a link, what is open is a regular file owned by the daemon's user whose
  six permission bits for group and others are clear, and its whole contents, at most
  \<open>MAX_SECRET_FILE\<close> bytes of UTF-8, are that text.\<close>

theorem secret_file_gate:
  "read_secret_file S path = Ok t \<longleftrightarrow>
    (\<exists>md. os_open_nofollow S path = Ok \<lparr>fl_meta = Ok md, fl_data = \<lparr>st_bytes = t, st_end = None\<rparr>\<rparr>
       \<and> fi_regular md \<and> fi_uid md = os_euid S \<and> {i. bit (fi_mode md) i} \<inter> {..<6} = {}
       \<and> length t \<le> MAX_SECRET_FILE \<and> utf8_valid t)"
  unfolding read_secret_file_Ok_iff private_file_def by (rule refl)

subsection \<open>The socket's directory\<close>

datatype dir_error = DirStat rstr | DirOwner "32 word" | DirWritable "32 word"

text \<open>The metadata are those of the parent of the socket's path.\<close>

definition check_socket_dir_for :: "rstr + file_meta \<Rightarrow> 32 word \<Rightarrow> dir_error + unit" where
  "check_socket_dir_for parent euid =
    and_then (map_err DirStat parent) (\<lambda>md.
      let mode = fi_mode md
      in if fi_uid md \<noteq> euid \<and> fi_uid md \<noteq> 0 then Err (DirOwner (fi_uid md))
         else if and mode 0x12 \<noteq> 0 \<and> and mode 0x200 = 0 then Err (DirWritable (and mode 0xFFF))
         else Ok ())"

text \<open>\<open>harden\<close> sets the mode of the socket file to 0600.\<close>

definition harden :: "file_meta \<Rightarrow> file_meta" where
  "harden md = md\<lparr>fi_mode := 0x180\<rparr>"

lemma and_bit_zero_iff: "and w (2 ^ n) = 0 \<longleftrightarrow> \<not> bit w n" for w :: "32 word"
  by (auto simp: and_exp_eq_0_iff_not_bit)

text \<open>The control socket is bound only where no other user can replace it: the directory is accepted
  exactly when it belongs to the daemon's user or to root and is writable for neither group nor others
  or has the sticky bit; and a hardened socket file passes the check made of secret files by its
  owner.\<close>

theorem socket_dir_gate:
  "(check_socket_dir_for parent euid = Ok () \<longleftrightarrow>
     (\<exists>md. parent = Ok md \<and> fi_uid md \<in> {euid, 0}
        \<and> ({i. bit (fi_mode md) i} \<inter> {1, 4} = {} \<or> bit (fi_mode md) 9)))
   \<and> check_secret_meta (fi_uid md) (harden md) = Ok ()"
proof
  have "and w 0x12 = 0 \<longleftrightarrow> {i. bit w i} \<inter> {1, 4} = {}" for w :: "32 word"
  proof -
    have "and w 0x12 = or (and w (2 ^ 1)) (and w (2 ^ 4))" by (simp flip: bit.conj_disj_distrib)
    also have "\<dots> = 0 \<longleftrightarrow> and w (2 ^ 1) = 0 \<and> and w (2 ^ 4) = 0" by (rule or_eq_0_iff)
    finally show ?thesis unfolding and_bit_zero_iff by auto
  qed
  moreover have "and w 0x200 = 0 \<longleftrightarrow> \<not> bit w 9" for w :: "32 word"
    using and_bit_zero_iff [of w 9] by simp
  ultimately show "check_socket_dir_for parent euid = Ok () \<longleftrightarrow>
     (\<exists>md. parent = Ok md \<and> fi_uid md \<in> {euid, 0}
        \<and> ({i. bit (fi_mode md) i} \<inter> {1, 4} = {} \<or> bit (fi_mode md) 9))"
    by (auto simp: check_socket_dir_for_def and_then_Ok_iff Let_def split: if_splits)
  show "check_secret_meta (fi_uid md) (harden md) = Ok ()"
    by (simp add: check_secret_meta_def harden_def permission_bits_def)
qed

end
