(* ===== verification/Swarm_Config.thy ===== *)
theory Swarm_Config
  imports Swarm
begin

section \<open>How the swarm of a group is built\<close>

text \<open>
  \<open>build_swarm\<close>, \<open>gossipsub_config\<close> and \<open>mdns_behaviour\<close> of
  \<open>crates/cluster-daemon/src/libp2p_transport.rs\<close>: the settings that the program hands to libp2p. A swarm
  is represented by those settings; whether libp2p accepts each of them, and with which error text it
  does not, is a field of \<open>net\<close>, like its answers when the swarm is subscribed and made to listen, and
  may differ from call to call. Durations are milliseconds.
\<close>

definition IDENTIFY_PROTOCOL :: rstr where
  "IDENTIFY_PROTOCOL = ''/citrate/cluster/1.0.0''"

definition GOSSIPSUB_HEARTBEAT :: nat where
  "GOSSIPSUB_HEARTBEAT = 200"

definition IDLE_TIMEOUT :: nat where
  "IDLE_TIMEOUT = 60000"

definition MAX_ESTABLISHED_INCOMING :: "32 word" where
  "MAX_ESTABLISHED_INCOMING = 64"

definition MAX_PENDING_INCOMING :: "32 word" where
  "MAX_PENDING_INCOMING = 16"

definition MAX_ESTABLISHED_PER_PEER :: "32 word" where
  "MAX_ESTABLISHED_PER_PEER = 2"

definition MDNS_QUERY_INTERVAL :: nat where
  "MDNS_QUERY_INTERVAL = 30000"

definition MDNS_TTL :: nat where
  "MDNS_TTL = 120000"

text \<open>Of each configuration the fields that the program sets; the others keep libp2p's defaults.\<close>

record gossip_config =
  gc_heartbeat_interval :: nat
  gc_validation_strict :: bool
  gc_flood_publish :: bool

record connection_limits =
  cl_established_incoming :: "32 word option"
  cl_pending_incoming :: "32 word option"
  cl_established_per_peer :: "32 word option"

record mdns_config =
  mc_ttl :: nat
  mc_query_interval :: nat
  mc_enable_ipv6 :: bool

record 'k cluster_behaviour =
  cb_signing_key :: 'k
  cb_gossip :: gossip_config
  cb_score :: "score_params \<times> score_thresholds"
  cb_identify :: "rstr \<times> 'k"
  cb_limits :: connection_limits
  cb_mdns :: "mdns_config option"

record 'k swarm_settings =
  ss_tcp_nodelay :: bool
  ss_noise_key :: 'k
  ss_noise_prologue :: rstr
  ss_behaviour :: "'k cluster_behaviour"
  ss_idle_timeout :: nat

record ('k, 'p) net =
  nt_with_tcp :: "bool \<Rightarrow> 'k \<Rightarrow> rstr \<Rightarrow> rstr + unit"
  nt_gossip_config :: "gossip_config \<Rightarrow> rstr + unit"
  nt_gossipsub :: "'k \<Rightarrow> gossip_config \<Rightarrow> rstr + unit"
  nt_peer_score :: "score_params \<Rightarrow> score_thresholds \<Rightarrow> rstr + unit"
  nt_mdns :: "mdns_config \<Rightarrow> 'p \<Rightarrow> rstr + unit"
  nt_behaviour_error :: "rstr \<Rightarrow> rstr"
  nt_topic_hash :: "rstr \<Rightarrow> rstr"
  nt_subscribe :: "rstr \<Rightarrow> rstr + unit"
  nt_listen :: "'p multiaddr \<Rightarrow> rstr + 'p multiaddr list"

datatype 'p transport_error =
    BadSecret rstr
  | SelfAddress
  | RuntimeError rstr
  | Build rstr
  | Subscribe rstr
  | Listen "'p multiaddr" rstr
  | TransportClosed

definition NO_MDNS_BUILD :: rstr where
  "NO_MDNS_BUILD = ''this cluster-daemon was built without mDNS (cargo feature `mdns`); unset CITRATE_CLUSTER_MDNS''"

subsection \<open>The behaviours\<close>

definition gossipsub_config :: "('k, 'p) net \<Rightarrow> rstr + gossip_config" where
  "gossipsub_config N =
    (let c = \<lparr>gc_heartbeat_interval = GOSSIPSUB_HEARTBEAT, gc_validation_strict = True, gc_flood_publish = False\<rparr>
     in and_then (nt_gossip_config N c) (\<lambda>_. Ok c))"

text \<open>The first argument is whether the build has the \<open>mdns\<close> feature: there are two functions of this
  name, and the feature selects one.\<close>

definition mdns_behaviour :: "bool \<Rightarrow> ('k, 'p) net \<Rightarrow> bool \<Rightarrow> 'p \<Rightarrow> rstr + mdns_config option" where
  "mdns_behaviour built_in N on peer =
    (if built_in
     then
       if \<not> on then Ok None
       else let cfg = \<lparr>mc_ttl = MDNS_TTL, mc_query_interval = MDNS_QUERY_INTERVAL, mc_enable_ipv6 = False\<rparr>
         in and_then (map_err (\<lambda>e. ''mDNS: '' @ e) (nt_mdns N cfg peer)) (\<lambda>_. Ok (Some cfg))
     else if on then Err NO_MDNS_BUILD else Ok None)"

definition cluster_limits :: connection_limits where
  "cluster_limits =
    \<lparr>cl_established_incoming = Some MAX_ESTABLISHED_INCOMING, cl_pending_incoming = Some MAX_PENDING_INCOMING,
     cl_established_per_peer = Some MAX_ESTABLISHED_PER_PEER\<rparr>"

definition build_behaviour :: "bool \<Rightarrow> ('k, 'p) net \<Rightarrow> 'k \<Rightarrow> 'p \<Rightarrow> bool \<Rightarrow> rstr + 'k cluster_behaviour" where
  "build_behaviour built_in N key peer mdns_on =
    and_then (gossipsub_config N) (\<lambda>gossip.
    and_then (nt_gossipsub N key gossip) (\<lambda>_.
    and_then (nt_peer_score N admission_score_params admission_score_thresholds) (\<lambda>_.
    and_then (mdns_behaviour built_in N mdns_on peer) (\<lambda>mdns.
      Ok \<lparr>cb_signing_key = key, cb_gossip = gossip,
          cb_score = (admission_score_params, admission_score_thresholds),
          cb_identify = (IDENTIFY_PROTOCOL, key), cb_limits = cluster_limits, cb_mdns = mdns\<rparr>))))"

definition build_swarm ::
  "bool \<Rightarrow> ('k, 'p) net \<Rightarrow> 'k \<Rightarrow> 'p \<Rightarrow> rstr \<Rightarrow> bool \<Rightarrow> 'p transport_error + 'k swarm_settings" where
  "build_swarm built_in N key peer group_id mdns_on =
    and_then (map_err (\<lambda>e. Build (''tcp: '' @ e)) (nt_with_tcp N True key group_id)) (\<lambda>_.
    and_then (map_err (\<lambda>e. Build (''behaviour: '' @ nt_behaviour_error N e))
                (build_behaviour built_in N key peer mdns_on)) (\<lambda>behaviour.
      Ok \<lparr>ss_tcp_nodelay = True, ss_noise_key = key, ss_noise_prologue = group_id,
          ss_behaviour = behaviour, ss_idle_timeout = IDLE_TIMEOUT\<rparr>))"

subsection \<open>What a built swarm is\<close>

text \<open>A swarm is built from three things, its key, its group and the mDNS switch; libp2p can only refuse.\<close>

definition cluster_settings :: "'k \<Rightarrow> rstr \<Rightarrow> bool \<Rightarrow> 'k swarm_settings" where
  "cluster_settings key group_id mdns_on =
    \<lparr>ss_tcp_nodelay = True, ss_noise_key = key, ss_noise_prologue = group_id,
     ss_behaviour =
       \<lparr>cb_signing_key = key,
        cb_gossip = \<lparr>gc_heartbeat_interval = GOSSIPSUB_HEARTBEAT, gc_validation_strict = True, gc_flood_publish = False\<rparr>,
        cb_score = (admission_score_params, admission_score_thresholds),
        cb_identify = (IDENTIFY_PROTOCOL, key), cb_limits = cluster_limits,
        cb_mdns = (if mdns_on
          then Some \<lparr>mc_ttl = MDNS_TTL, mc_query_interval = MDNS_QUERY_INTERVAL, mc_enable_ipv6 = False\<rparr> else None)\<rparr>,
     ss_idle_timeout = IDLE_TIMEOUT\<rparr>"

lemma cluster_settings_fields:
  "ss_noise_key (cluster_settings key g on) = key" "ss_noise_prologue (cluster_settings key g on) = g"
  "cb_signing_key (ss_behaviour (cluster_settings key g on)) = key"
  "gc_validation_strict (cb_gossip (ss_behaviour (cluster_settings key g on)))"
  "\<not> gc_flood_publish (cb_gossip (ss_behaviour (cluster_settings key g on)))"
  "cb_mdns (ss_behaviour (cluster_settings key g on)) =
    (if on then Some \<lparr>mc_ttl = 120000, mc_query_interval = 30000, mc_enable_ipv6 = False\<rparr> else None)"
  by (simp_all add: cluster_settings_def MDNS_TTL_def MDNS_QUERY_INTERVAL_def)

lemma gossipsub_config_Ok:
  "gossipsub_config N = Ok g \<Longrightarrow>
    g = \<lparr>gc_heartbeat_interval = GOSSIPSUB_HEARTBEAT, gc_validation_strict = True, gc_flood_publish = False\<rparr>"
  by (auto simp: gossipsub_config_def Let_def and_then_Ok_iff)

lemma mdns_behaviour_Ok:
  "mdns_behaviour built_in N on peer = Ok m \<Longrightarrow> on \<le> built_in
    \<and> m = (if on then Some \<lparr>mc_ttl = MDNS_TTL, mc_query_interval = MDNS_QUERY_INTERVAL, mc_enable_ipv6 = False\<rparr> else None)"
  by (auto simp: mdns_behaviour_def Let_def and_then_Ok_iff split: if_splits)

lemma build_swarm_Ok:
  assumes "build_swarm built_in N key peer group_id mdns_on = Ok s"
  shows "s = cluster_settings key group_id mdns_on \<and> mdns_on \<le> built_in"
  using assms
  by (auto simp: build_swarm_def build_behaviour_def and_then_Ok_iff cluster_settings_def
      dest!: gossipsub_config_Ok mdns_behaviour_Ok)

lemma build_swarm_Err: "build_swarm built_in N key peer group_id mdns_on = Err e \<Longrightarrow> \<exists>text. e = Build text"
  by (auto simp: build_swarm_def and_then_def map_err_def split: sum.splits)

end
