(* ===== verification/Startup.thy ===== *)
theory Startup
  imports Secret_File Swarm_Inv Swarm_Config
begin

section \<open>Start-up\<close>

text \<open>
  From the environment to a daemon: \<open>main\<close> (\<open>crates/cluster-daemon/src/main.rs\<close>), \<open>NodeConfig::from_env\<close>,
  \<open>Libp2pTransport::new_on\<close> and \<open>Libp2pFactory::transport_for\<close>
  (\<open>crates/cluster-daemon/src/libp2p_transport.rs\<close>). Parsing a multiaddr, hexadecimal, the construction
  of keys and the tokio runtime come from other crates and are the fields of \<open>node_libs\<close>; the answers of
  libp2p, which may differ from call to call, are the argument of type \<open>net\<close>. The key
  material is a byte string; that it is wiped is not modelled.
\<close>

record ('k, 'p) node_libs =
  nl_parse :: "rstr \<Rightarrow> rstr + 'p multiaddr"
  nl_show :: "'p multiaddr \<Rightarrow> rstr"
  nl_hex_decode :: "rstr \<Rightarrow> rstr option"
  nl_public_key :: "rstr \<Rightarrow> rstr + 'k"
  nl_mdns_built_in :: bool
  nl_runtime :: "rstr + unit"

subsection \<open>Configuration\<close>

datatype config_error =
    SeedFileMissing
  | SeedFileError secret_error
  | SeedEmpty
  | SeedNotHex
  | SeedNot32Bytes
  | ListenMissing
  | ListenInvalid rstr
  | GroupEmpty
  | BadBootstrap rstr rstr
  | BadMdnsFlag rstr
  | NoMdnsBuild

record 'p node_config =
  nc_secret :: rstr
  nc_listen :: "'p multiaddr"
  nc_pinned_group :: "rstr option"
  nc_bootstrap :: "'p multiaddr list"
  nc_mdns :: bool

fun parse_bootstrap :: "(rstr \<Rightarrow> rstr + 'p multiaddr) \<Rightarrow> rstr list \<Rightarrow> config_error + 'p multiaddr list" where
  "parse_bootstrap parse [] = Ok []"
| "parse_bootstrap parse (s # rest) =
    and_then (map_err (BadBootstrap s) (parse (trim s))) (\<lambda>ma.
    and_then (parse_bootstrap parse rest) (\<lambda>mas. Ok (ma # mas)))"

definition read_seed :: "os \<Rightarrow> ('k, 'p) node_libs \<Rightarrow> config_error + rstr" where
  "read_seed S L =
    and_then (ok_or (case os_var S ''CITRATE_CLUSTER_SEED_FILE'' of
                       Some p \<Rightarrow> if p \<noteq> [] then Some p else None
                     | None \<Rightarrow> None) SeedFileMissing) (\<lambda>seed_file.
    and_then (map_err SeedFileError (read_secret_file S seed_file)) (\<lambda>contents.
      let seed_hex = trim contents
      in if seed_hex = [] then Err SeedEmpty
         else and_then (ok_or (nl_hex_decode L seed_hex) SeedNotHex) (\<lambda>seed_bytes.
           if length seed_bytes = 32 then Ok seed_bytes else Err SeedNot32Bytes)))"

definition from_env :: "os \<Rightarrow> ('k, 'p) node_libs \<Rightarrow> config_error + 'p node_config" where
  "from_env S L =
    and_then (read_seed S L) (\<lambda>secret.
    and_then (ok_or (os_var S ''CITRATE_CLUSTER_LISTEN'') ListenMissing) (\<lambda>listen_text.
    and_then (map_err ListenInvalid (nl_parse L listen_text)) (\<lambda>listen.
    and_then (case os_var S ''CITRATE_CLUSTER_GROUP'' of
                Some g \<Rightarrow> if trim g = [] then Err GroupEmpty else Ok (Some g)
              | None \<Rightarrow> Ok None) (\<lambda>pinned_group.
    and_then (case os_var S ''CITRATE_CLUSTER_BOOTSTRAP'' of
                Some list \<Rightarrow> if trim list \<noteq> [] then parse_bootstrap (nl_parse L) (split_on (CHR '','') list) else Ok []
              | None \<Rightarrow> Ok []) (\<lambda>bootstrap.
    and_then (map_err BadMdnsFlag (parse_flag (os_var S ''CITRATE_CLUSTER_MDNS''))) (\<lambda>mdns.
      if mdns \<and> \<not> nl_mdns_built_in L then Err NoMdnsBuild
      else Ok \<lparr>nc_secret = secret, nc_listen = listen, nc_pinned_group = pinned_group,
                nc_bootstrap = bootstrap, nc_mdns = mdns\<rparr>))))))"

subsection \<open>The transport of a group\<close>

fun transport_error_text :: "('p multiaddr \<Rightarrow> rstr) \<Rightarrow> 'p transport_error \<Rightarrow> rstr" where
  "transport_error_text to_string (BadSecret e) = ''invalid secp256k1 secret: '' @ e"
| "transport_error_text to_string SelfAddress =
    ''could not derive this node'' @ [CHR 0x27] @ ''s address from its key''"
| "transport_error_text to_string (RuntimeError e) = ''tokio runtime: '' @ e"
| "transport_error_text to_string (Build e) = ''swarm build: '' @ e"
| "transport_error_text to_string (Subscribe e) = ''subscribe to group topic: '' @ e"
| "transport_error_text to_string (Listen addr reason) = ''listen on '' @ to_string addr @ '': '' @ reason"
| "transport_error_text to_string TransportClosed = SWARM_GONE"

record 'p libp2p_config =
  lc_secret :: rstr
  lc_listen :: "'p multiaddr"
  lc_group_id :: rstr
  lc_bootstrap :: "'p multiaddr list"
  lc_mdns :: bool

text \<open>\<open>lp_settings\<close> and \<open>lp_swarm\<close> are of the swarm that the transport's task drives: what it was built
  from, and its state.\<close>

record ('k, 'p) libp2p =
  lp_self_address :: rstr
  lp_topic :: rstr
  lp_local_peer :: 'p
  lp_settings :: "'k swarm_settings"
  lp_swarm :: "'p swarm"

definition identity_from_secret ::
  "('k, 'p) node_libs \<Rightarrow> ('k, 's, 'p) peer_keys \<Rightarrow> rstr \<Rightarrow> 'p transport_error + rstr \<times> 'p" where
  "identity_from_secret L K secret =
    and_then (map_err BadSecret (nl_public_key L secret)) (\<lambda>pk.
    and_then (ok_or (address_from_public_key K pk) SelfAddress) (\<lambda>address.
      Ok (address, pk_peer_id K pk)))"

definition new_on ::
  "('k, 'p) node_libs \<Rightarrow> ('k, 's, 'p) peer_keys \<Rightarrow> ('k, 'p) net \<Rightarrow> 'p libp2p_config \<Rightarrow> 'p transport_error + ('k, 'p) libp2p" where
  "new_on L K N cfg =
    (if lc_mdns cfg \<and> \<not> nl_mdns_built_in L then Err (Build NO_MDNS_BUILD)
     else
       and_then (map_err BadSecret (nl_public_key L (lc_secret cfg))) (\<lambda>pk.
       and_then (ok_or (address_from_public_key K pk) SelfAddress) (\<lambda>self_address.
       and_then (build_swarm (nl_mdns_built_in L) N pk (pk_peer_id K pk) (lc_group_id cfg) (lc_mdns cfg)) (\<lambda>settings.
       and_then (map_err Subscribe (nt_subscribe N (lc_group_id cfg))) (\<lambda>_.
       and_then (map_err (Listen (lc_listen cfg)) (nt_listen N (lc_listen cfg))) (\<lambda>listeners.
         Ok \<lparr>lp_self_address = self_address, lp_topic = lc_group_id cfg, lp_local_peer = pk_peer_id K pk,
              lp_settings = settings,
              lp_swarm = swarm_init (nt_topic_hash N (lc_group_id cfg)) (lc_bootstrap cfg) listeners\<rparr>))))))"

text \<open>A transport on a runtime of its own, and the factory, whose swarms share one.\<close>

definition swarm_runtime :: "('k, 'p) node_libs \<Rightarrow> 'p transport_error + unit" where
  "swarm_runtime L = map_err RuntimeError (nl_runtime L)"

definition libp2p_new ::
  "('k, 'p) node_libs \<Rightarrow> ('k, 's, 'p) peer_keys \<Rightarrow> ('k, 'p) net \<Rightarrow> 'p libp2p_config
    \<Rightarrow> 'p transport_error + ('k, 'p) libp2p" where
  "libp2p_new L K N cfg = and_then (swarm_runtime L) (\<lambda>_. new_on L K N cfg)"

definition factory_new :: "('k, 'p) node_libs \<Rightarrow> 'p node_config \<Rightarrow> 'p transport_error + 'p node_config" where
  "factory_new L node = and_then (swarm_runtime L) (\<lambda>_. Ok node)"

text \<open>The queries of a transport that is running, and the dial of an address.\<close>

definition lp_listeners :: "('k, 'p) libp2p \<Rightarrow> 'p transport_error + 'p multiaddr list" where
  "lp_listeners t = (if sw_running (lp_swarm t) then Ok (sw_listeners (lp_swarm t)) else Err TransportClosed)"

definition lp_seed_multiaddrs :: "('k, 'p) libp2p \<Rightarrow> 'p transport_error + 'p multiaddr list" where
  "lp_seed_multiaddrs t =
    (if sw_running (lp_swarm t) then Ok (seed_addrs_from (sw_listeners (lp_swarm t)) (lp_local_peer t))
     else Err TransportClosed)"

definition lp_dial_multiaddr :: "'p multiaddr \<Rightarrow> ('k, 'p) libp2p \<Rightarrow> ('p transport_error + unit) \<times> ('k, 'p) libp2p" where
  "lp_dial_multiaddr addr t =
    (if sw_running (lp_swarm t) then (Ok (), t\<lparr>lp_swarm := send_cmd (CmdDial addr) (lp_swarm t)\<rparr>)
     else (Err TransportClosed, t))"

lemma lp_seed_addrs:
  "lt_seed_addrs to_string (lp_local_peer t) (lp_swarm t) =
    map_err (transport_error_text to_string) (map_sum id (map to_string) (lp_seed_multiaddrs t))"
  by (simp add: lt_seed_addrs_def lp_seed_multiaddrs_def SWARM_GONE_def map_err_def)

text \<open>The second attempt of \<open>transport_for\<close> is made in the net \<open>N'\<close> that the first has left.\<close>

definition transport_for ::
  "('k, 'p) node_libs \<Rightarrow> ('k, 's, 'p) peer_keys \<Rightarrow> ('k, 'p) net \<Rightarrow> ('k, 'p) net \<Rightarrow> 'p node_config \<Rightarrow> rstr
    \<Rightarrow> rstr + ('k, 'p) libp2p" where
  "transport_for L K N N' node grp =
    (if trim grp = [] then Err ''empty group id''
     else let pinned = (nc_pinned_group node = Some grp);
              listen = (if pinned then nc_listen node else group_listen (pk_keccak256 K) (nc_listen node) grp);
              bootstrap = (if pinned then nc_bootstrap node else []);
              cfg = (\<lambda>listen. \<lparr>lc_secret = nc_secret node, lc_listen = listen, lc_group_id = grp,
                               lc_bootstrap = bootstrap, lc_mdns = nc_mdns node\<rparr>)
          in case new_on L K N (cfg listen) of
               Ok t \<Rightarrow> Ok t
             | Err e \<Rightarrow>
                 (case e of
                    Listen _ _ \<Rightarrow>
                      if \<not> pinned
                      then map_err (transport_error_text (nl_show L)) (new_on L K N' (cfg (ephemeral listen)))
                      else Err (transport_error_text (nl_show L) e)
                  | _ \<Rightarrow> Err (transport_error_text (nl_show L) e)))"

subsection \<open>The program\<close>

datatype 'p boot_error =
    Required rstr
  | BearerFileError secret_error
  | BearerEmpty
  | SelfAddrInvalid
  | ConfigFailed config_error
  | IdentityFailed "'p transport_error"
  | IdentityMismatch rstr rstr
  | RuntimeFailed "'p transport_error"
  | IdentitySeed config_error

text \<open>What the program goes on to do: print its identity, or serve on a socket with a bearer.\<close>

datatype 'p boot =
    PrintIdentity rstr 'p
  | ServeInProcess rstr rstr rstr
  | ServeLibp2p rstr rstr rstr "'p node_config"

definition required :: "os \<Rightarrow> rstr \<Rightarrow> 'p boot_error + rstr" where
  "required S key = ok_or (os_var S key) (Required key)"

definition print_identity :: "os \<Rightarrow> ('k, 'p) node_libs \<Rightarrow> ('k, 's, 'p) peer_keys \<Rightarrow> 'p boot_error + 'p boot" where
  "print_identity S L K =
    and_then (required S ''CITRATE_CLUSTER_SEED_FILE'') (\<lambda>seed_file.
    and_then (map_err (IdentitySeed \<circ> SeedFileError) (read_secret_file S seed_file)) (\<lambda>seed_hex.
    and_then (ok_or (nl_hex_decode L (trim seed_hex)) (IdentitySeed SeedNotHex)) (\<lambda>seed_bytes.
      if length seed_bytes \<noteq> 32 then Err (IdentitySeed SeedNot32Bytes)
      else and_then (map_err IdentityFailed (identity_from_secret L K seed_bytes)) (\<lambda>(address, peer).
        Ok (PrintIdentity address peer)))))"

definition program_main :: "os \<Rightarrow> ('k, 'p) node_libs \<Rightarrow> ('k, 's, 'p) peer_keys \<Rightarrow> 'p boot_error + 'p boot" where
  "program_main S L K =
    (if ''--print-identity'' \<in> set (os_args S) then print_identity S L K
     else
       and_then (required S ''CITRATE_CLUSTER_SOCKET'') (\<lambda>socket.
       and_then (required S ''CITRATE_CLUSTER_BEARER_FILE'') (\<lambda>bearer_file.
       and_then (map_err BearerFileError (read_secret_file S bearer_file)) (\<lambda>contents.
         let bearer = trim contents
         in if bearer = [] then Err BearerEmpty
            else
              and_then (required S ''CITRATE_CLUSTER_SELF_ADDR'') (\<lambda>self_addr.
              and_then (ok_or (canonical_address self_addr) SelfAddrInvalid) (\<lambda>self_canonical.
                if os_var S ''CITRATE_CLUSTER_LISTEN'' \<noteq> None
                then
                  and_then (map_err ConfigFailed (from_env S L)) (\<lambda>node.
                  and_then (map_err IdentityFailed (identity_from_secret L K (nc_secret node))) (\<lambda>(derived_addr, _).
                    if derived_addr \<noteq> self_canonical then Err (IdentityMismatch self_canonical derived_addr)
                    else and_then (map_err RuntimeFailed (factory_new L node)) (\<lambda>factory.
                      Ok (ServeLibp2p self_addr socket bearer factory))))
                else Ok (ServeInProcess self_addr socket bearer)))))))"

text \<open>The daemon that is served, and its transport factory on libp2p.\<close>

definition booted_daemon :: "rstr \<Rightarrow> 'p node_config \<Rightarrow> 'p swarm daemon" where
  "booted_daemon self_addr node =
    (case nc_pinned_group node of
       Some grp \<Rightarrow> daemon_single_group self_addr grp
     | None \<Rightarrow> daemon_with_factory self_addr)"

definition libp2p_factory ::
  "('k, 'p) node_libs \<Rightarrow> ('k, 's, 'p) peer_keys \<Rightarrow> ('k, 'p) net \<Rightarrow> ('k, 'p) net \<Rightarrow> 'p node_config
    \<Rightarrow> 'p swarm transport_factory" where
  "libp2p_factory L K N N' node grp = map_sum id lp_swarm (transport_for L K N N' node grp)"

subsection \<open>What a transport is\<close>

lemma new_on_Ok_iff:
  "new_on L K N cfg = Ok t \<longleftrightarrow>
    (lc_mdns cfg \<longrightarrow> nl_mdns_built_in L)
    \<and> (\<exists>pk a ls. nl_public_key L (lc_secret cfg) = Ok pk \<and> address_from_public_key K pk = Some a
        \<and> build_swarm (nl_mdns_built_in L) N pk (pk_peer_id K pk) (lc_group_id cfg) (lc_mdns cfg) =
            Ok (cluster_settings pk (lc_group_id cfg) (lc_mdns cfg)) \<and> nt_subscribe N (lc_group_id cfg) = Ok ()
        \<and> nt_listen N (lc_listen cfg) = Ok ls
        \<and> t = \<lparr>lp_self_address = a, lp_topic = lc_group_id cfg, lp_local_peer = pk_peer_id K pk,
               lp_settings = cluster_settings pk (lc_group_id cfg) (lc_mdns cfg),
               lp_swarm = swarm_init (nt_topic_hash N (lc_group_id cfg)) (lc_bootstrap cfg) ls\<rparr>)"
  by (auto simp: new_on_def and_then_Ok_iff split: if_splits dest: build_swarm_Ok)

lemma new_on_identity:
  "new_on L K N cfg = Ok t \<Longrightarrow> identity_from_secret L K (lc_secret cfg) = Ok (lp_self_address t, lp_local_peer t)"
  by (auto simp: new_on_Ok_iff identity_from_secret_def)

lemma identity_from_secret_Ok_iff:
  "identity_from_secret L K secret = Ok (a, p) \<longleftrightarrow>
    (\<exists>pk. nl_public_key L secret = Ok pk \<and> address_from_public_key K pk = Some a \<and> pk_peer_id K pk = p)"
  by (auto simp: identity_from_secret_def and_then_Ok_iff)

text \<open>Which configuration the swarm of a group was built from, and on which attempt.\<close>

definition group_config :: "'p node_config \<Rightarrow> rstr \<Rightarrow> 'p multiaddr \<Rightarrow> 'p libp2p_config" where
  "group_config node grp listen =
    \<lparr>lc_secret = nc_secret node, lc_listen = listen, lc_group_id = grp,
     lc_bootstrap = (if nc_pinned_group node = Some grp then nc_bootstrap node else []), lc_mdns = nc_mdns node\<rparr>"

lemma transport_for_Ok:
  assumes "transport_for L K N N' node grp = Ok t"
  obtains (pinned) "nc_pinned_group node = Some grp" and "new_on L K N (group_config node grp (nc_listen node)) = Ok t"
  | (derived) "nc_pinned_group node \<noteq> Some grp"
      and "new_on L K N (group_config node grp (group_listen (pk_keccak256 K) (nc_listen node) grp)) = Ok t"
  | (fallback) addr reason where "nc_pinned_group node \<noteq> Some grp"
      and "new_on L K N (group_config node grp (group_listen (pk_keccak256 K) (nc_listen node) grp)) = Err (Listen addr reason)"
      and "new_on L K N' (group_config node grp (ephemeral (group_listen (pk_keccak256 K) (nc_listen node) grp))) = Ok t"
  using assms
  by (auto simp: transport_for_def Let_def group_config_def split: if_splits sum.splits transport_error.splits)

text \<open>C23. Each group gets a swarm of its own under the one identity of the node: the transport that the
  factory makes for a group is on that group's topic, holds the node's key, starts with nobody
  authorized or connected, and dials the configured bootstrap peers only for the pinned group. Its Noise
  sessions are scoped to the group by their prologue and made with the key that also signs its messages,
  gossip validates strictly and never floods, and mDNS runs exactly when the node asked for it. The
  pinned group listens on the configured address and nowhere else; another listens on the address
  derived for it or, only when libp2p refused to listen there, on an ephemeral port.\<close>

theorem transport_for_swarm:
  assumes "transport_for L K N N' node grp = Ok t"
  shows "lp_topic t = grp
    \<and> identity_from_secret L K (nc_secret node) = Ok (lp_self_address t, lp_local_peer t)
    \<and> sw_authorized (lp_swarm t) = {||} \<and> sw_connected (lp_swarm t) = {||}
    \<and> sw_dialed (lp_swarm t) = (if nc_pinned_group node = Some grp then map DialUnknown (nc_bootstrap node) else [])
    \<and> (let s = lp_settings t; b = ss_behaviour s
       in nl_public_key L (nc_secret node) = Ok (ss_noise_key s) \<and> cb_signing_key b = ss_noise_key s
          \<and> ss_noise_prologue s = grp \<and> gc_validation_strict (cb_gossip b) \<and> \<not> gc_flood_publish (cb_gossip b)
          \<and> cb_mdns b =
            (if nc_mdns node then Some \<lparr>mc_ttl = 120000, mc_query_interval = 30000, mc_enable_ipv6 = False\<rparr> else None))
    \<and> (let derived = group_listen (pk_keccak256 K) (nc_listen node) grp; ls = sw_listeners (lp_swarm t)
       in if nc_pinned_group node = Some grp then nt_listen N (nc_listen node) = Ok ls
          else nt_listen N derived = Ok ls
            \<or> (\<exists>reason. nt_listen N derived = Err reason) \<and> nt_listen N' (ephemeral derived) = Ok ls)"
proof -
  have refused: "\<exists>reason. nt_listen N (lc_listen cfg) = Err reason" if "new_on L K N cfg = Err (Listen addr reason)"
    for cfg addr reason
    using that by (auto simp: new_on_def and_then_def map_err_def ok_or_def dest: build_swarm_Err
        split: sum.splits option.splits if_splits)
  have new: "lp_topic t = grp
      \<and> identity_from_secret L K (nc_secret node) = Ok (lp_self_address t, lp_local_peer t)
      \<and> sw_authorized (lp_swarm t) = {||} \<and> sw_connected (lp_swarm t) = {||}
      \<and> sw_dialed (lp_swarm t) = (if nc_pinned_group node = Some grp then map DialUnknown (nc_bootstrap node) else [])
      \<and> (let s = lp_settings t; b = ss_behaviour s
       in nl_public_key L (nc_secret node) = Ok (ss_noise_key s) \<and> cb_signing_key b = ss_noise_key s
          \<and> ss_noise_prologue s = grp \<and> gc_validation_strict (cb_gossip b) \<and> \<not> gc_flood_publish (cb_gossip b)
          \<and> cb_mdns b =
            (if nc_mdns node then Some \<lparr>mc_ttl = 120000, mc_query_interval = 30000, mc_enable_ipv6 = False\<rparr> else None))
      \<and> nt_listen M listen = Ok (sw_listeners (lp_swarm t))"
    if n: "new_on L K M (group_config node grp listen) = Ok t" for M listen
    using n new_on_identity [OF n]
    by (auto simp: new_on_Ok_iff group_config_def swarm_init_def cluster_settings_fields Let_def)
  from assms show ?thesis
  proof (cases rule: transport_for_Ok)
    case pinned
    with new [OF pinned(2)] show ?thesis by (simp add: Let_def)
  next
    case derived
    with new [OF derived(2)] show ?thesis by (simp add: Let_def)
  next
    case (fallback addr reason)
    with new [OF fallback(3)] refused [OF fallback(2)] show ?thesis
      by (simp add: Let_def group_config_def)
  qed
qed

lemma transport_for_identity:
  "transport_for L K N N' node grp = Ok t
    \<Longrightarrow> identity_from_secret L K (nc_secret node) = Ok (lp_self_address t, lp_local_peer t)"
  by (auto elim!: transport_for_Ok dest!: new_on_identity simp: group_config_def)

subsection \<open>What the program serves\<close>

text \<open>What the configuration of a node has to be, from the environment, the files that it names and the
  libraries: the key is in a private file, the addresses parse, the pinned group is not blank.\<close>

definition key_in :: "('k, 'p) node_libs \<Rightarrow> rstr \<Rightarrow> rstr \<Rightarrow> bool" where
  "key_in L t secret \<longleftrightarrow> nl_hex_decode L (trim t) = Some secret \<and> length secret = 32"

definition bootstrap_texts :: "rstr option \<Rightarrow> rstr list" where
  "bootstrap_texts v =
    (case v of None \<Rightarrow> [] | Some t \<Rightarrow> if trim t = [] then [] else map trim (split_on (CHR '','') t))"

definition node_checked :: "os \<Rightarrow> ('k, 'p) node_libs \<Rightarrow> 'p node_config \<Rightarrow> bool" where
  "node_checked S L node \<longleftrightarrow>
    (\<exists>path t. os_var S ''CITRATE_CLUSTER_SEED_FILE'' = Some path \<and> path \<noteq> [] \<and> private_file S path t
       \<and> trim t \<noteq> [] \<and> key_in L t (nc_secret node))
    \<and> (\<exists>t. os_var S ''CITRATE_CLUSTER_LISTEN'' = Some t \<and> nl_parse L t = Ok (nc_listen node))
    \<and> nc_pinned_group node = os_var S ''CITRATE_CLUSTER_GROUP'' \<and> map_option trim (nc_pinned_group node) \<noteq> Some []
    \<and> map (nl_parse L) (bootstrap_texts (os_var S ''CITRATE_CLUSTER_BOOTSTRAP'')) = map Ok (nc_bootstrap node)
    \<and> parse_flag (os_var S ''CITRATE_CLUSTER_MDNS'') = Ok (nc_mdns node) \<and> (nc_mdns node \<longrightarrow> nl_mdns_built_in L)"

text \<open>What has to be there before the program serves: a socket, a bearer that is not blank in a private
  file, and an address.\<close>

definition serve_checked :: "os \<Rightarrow> rstr \<Rightarrow> rstr \<Rightarrow> rstr \<Rightarrow> rstr \<Rightarrow> bool" where
  "serve_checked S self_addr address socket bearer \<longleftrightarrow>
    ''--print-identity'' \<notin> set (os_args S) \<and> os_var S ''CITRATE_CLUSTER_SOCKET'' = Some socket
    \<and> (\<exists>path t. os_var S ''CITRATE_CLUSTER_BEARER_FILE'' = Some path \<and> private_file S path t
         \<and> bearer = trim t \<and> bearer \<noteq> [])
    \<and> os_var S ''CITRATE_CLUSTER_SELF_ADDR'' = Some self_addr \<and> canonical_address self_addr = Some address"

lemma parse_bootstrap_Ok_iff: "parse_bootstrap parse ts = Ok mas \<longleftrightarrow> map parse (map trim ts) = map Ok mas"
  by (induction ts arbitrary: mas) (auto simp: and_then_Ok_iff Cons_eq_map_conv)

lemma read_seed_Ok_iff:
  "read_seed S L = Ok secret \<longleftrightarrow>
    (\<exists>path t. os_var S ''CITRATE_CLUSTER_SEED_FILE'' = Some path \<and> path \<noteq> [] \<and> private_file S path t
       \<and> trim t \<noteq> [] \<and> key_in L t secret)"
  by (auto simp: read_seed_def and_then_Ok_iff read_secret_file_Ok_iff key_in_def Let_def split: option.splits if_splits)

lemma from_env_Ok_iff: "from_env S L = Ok node \<longleftrightarrow> node_checked S L node"
proof -
  have b: "(case v of Some t \<Rightarrow> if trim t \<noteq> [] then parse_bootstrap parse (split_on (CHR '','') t) else Ok [] | None \<Rightarrow> Ok []) = Ok mas
      \<longleftrightarrow> map parse (bootstrap_texts v) = map Ok mas" for v parse and mas :: "'p multiaddr list"
    by (auto simp: bootstrap_texts_def parse_bootstrap_Ok_iff split: option.splits)
  have g: "(case v of Some g \<Rightarrow> if trim g = [] then Err GroupEmpty else Ok (Some g) | None \<Rightarrow> Ok None) = Ok w
      \<longleftrightarrow> w = v \<and> map_option trim w \<noteq> Some []" for v w
    by (auto split: option.splits)
  show ?thesis
    unfolding from_env_def node_checked_def and_then_Ok_iff map_err_simps ok_or_Ok_iff b g read_seed_Ok_iff
    by (cases node) (simp split: if_splits, blast)
qed

lemma factory_new_Ok_iff: "factory_new L node = Ok factory \<longleftrightarrow> factory = node \<and> nl_runtime L = Ok ()"
  by (auto simp: factory_new_def and_then_Ok_iff swarm_runtime_def)

lemma print_identity_Ok_iff:
  "print_identity S L K = Ok b \<longleftrightarrow>
    (\<exists>path t secret address peer. os_var S ''CITRATE_CLUSTER_SEED_FILE'' = Some path \<and> private_file S path t
       \<and> key_in L t secret \<and> identity_from_secret L K secret = Ok (address, peer) \<and> b = PrintIdentity address peer)"
  by (auto simp: print_identity_def required_def and_then_Ok_iff read_secret_file_Ok_iff key_in_def split: if_splits; blast)

lemma serve_checked_iff:
  "''--print-identity'' \<notin> set (os_args S) \<Longrightarrow> program_main S L K = Ok b \<longleftrightarrow>
    (\<exists>self_addr a socket bearer. serve_checked S self_addr a socket bearer
      \<and> (if os_var S ''CITRATE_CLUSTER_LISTEN'' = None then b = ServeInProcess self_addr socket bearer
         else \<exists>node p. node_checked S L node \<and> identity_from_secret L K (nc_secret node) = Ok (a, p)
           \<and> nl_runtime L = Ok () \<and> b = ServeLibp2p self_addr socket bearer node))"
  by (auto simp: program_main_def serve_checked_def required_def and_then_Ok_iff read_secret_file_Ok_iff
      from_env_Ok_iff factory_new_Ok_iff Let_def split: if_splits)

text \<open>C21. The program goes on exactly when all that it needs is there and passes its checks, and it
  refuses to start otherwise. Asked for its identity it prints the address and the peer of the 32-byte
  key in the private file that is configured, and nothing else. It serves only on a configured socket,
  with a bearer that is not blank from a private file and under a well-formed address; on libp2p, when
  and only when a listen address is configured, only with a node that is checked: a 32-byte key from a
  private file whose address is the configured one, addresses that all parse, a pinned group that is
  not blank, mDNS only where it is built in, and a runtime.\<close>

theorem program_fails_closed:
  "program_main S L K = Ok b \<longleftrightarrow>
    (case b of
       PrintIdentity address peer \<Rightarrow> ''--print-identity'' \<in> set (os_args S)
         \<and> (\<exists>path t secret. os_var S ''CITRATE_CLUSTER_SEED_FILE'' = Some path \<and> private_file S path t
              \<and> key_in L t secret \<and> identity_from_secret L K secret = Ok (address, peer))
     | ServeInProcess self_addr socket bearer \<Rightarrow>
         (\<exists>address. serve_checked S self_addr address socket bearer) \<and> os_var S ''CITRATE_CLUSTER_LISTEN'' = None
     | ServeLibp2p self_addr socket bearer node \<Rightarrow>
         (\<exists>address peer. serve_checked S self_addr address socket bearer \<and> node_checked S L node
            \<and> identity_from_secret L K (nc_secret node) = Ok (address, peer) \<and> nl_runtime L = Ok ()))"
proof (cases "''--print-identity'' \<in> set (os_args S)")
  case True
  then have "program_main S L K = print_identity S L K" by (simp add: program_main_def)
  with True show ?thesis by (auto simp: print_identity_Ok_iff serve_checked_def split: boot.splits)
next
  case False
  have listen: "node_checked S L node \<Longrightarrow> os_var S ''CITRATE_CLUSTER_LISTEN'' \<noteq> None" for node
    by (auto simp: node_checked_def)
  show ?thesis unfolding serve_checked_iff [OF False] using False listen by (auto split: boot.splits if_splits)
qed

text \<open>C22. One identity: the address under which a booted daemon speaks to its client is, for every group,
  the address of the key that the group's transport presents on the wire.\<close>

theorem booted_identity:
  assumes "program_main S L K = Ok (ServeLibp2p self_addr socket bearer node)"
    and "transport_for L K N N' node grp = Ok t"
  shows "d_self (booted_daemon self_addr node) = lp_self_address t \<and> d_single (booted_daemon self_addr node) = nc_pinned_group node"
proof -
  have "''--print-identity'' \<notin> set (os_args S)"
    using assms(1) by (auto simp: program_main_def print_identity_Ok_iff)
  with assms(1) obtain a p where a: "canonical_address self_addr = Some a"
    and i: "identity_from_secret L K (nc_secret node) = Ok (a, p)"
    by (auto simp: serve_checked_iff serve_checked_def split: if_splits)
  from transport_for_identity [OF assms(2)] i have "lp_self_address t = a" by simp
  with a show ?thesis
    by (auto simp: booted_daemon_def daemon_single_group_def daemon_with_factory_def split: option.splits)
qed

subsection \<open>A concrete start\<close>

definition stub_text :: rstr where
  "stub_text = replicate 32 (CHR ''a'')"

lemma stub_text [simp]: "length stub_text = 32" "stub_text \<noteq> []" "utf8_valid stub_text" "trim stub_text = stub_text"
proof -
  have "list_all is_ascii_graphic stub_text" by (simp add: stub_text_def list_all_iff is_ascii_graphic_def)
  then show "utf8_valid stub_text" "trim stub_text = stub_text" by (rule utf8_valid_graphic trim_graphic)+
qed (simp_all add: stub_text_def)

definition stub_file :: os_file where
  "stub_file = \<lparr>fl_meta = Ok \<lparr>fi_regular = True, fi_mode = 0x180, fi_uid = 7\<rparr>,
     fl_data = \<lparr>st_bytes = stub_text, st_end = None\<rparr>\<rparr>"

definition stub_os :: os where
  "stub_os = \<lparr>os_open_nofollow = (\<lambda>_. Ok stub_file), os_stat = (\<lambda>_. Err []), os_euid = 7,
     os_var = (\<lambda>v. if v \<in> {''CITRATE_CLUSTER_GROUP'', ''CITRATE_CLUSTER_BOOTSTRAP'', ''CITRATE_CLUSTER_MDNS''} then None
                   else if v = ''CITRATE_CLUSTER_SELF_ADDR'' then Some (addr_of ''a1'') else Some ''x''),
     os_args = []\<rparr>"

definition stub_libs :: "(nat, nat) node_libs" where
  "stub_libs = \<lparr>nl_parse = (\<lambda>_. Ok [Tcp 0]), nl_show = (\<lambda>_. []), nl_hex_decode = Some,
     nl_public_key = (\<lambda>_. Ok 5), nl_mdns_built_in = False, nl_runtime = Ok ()\<rparr>"

definition stub_net :: "(nat, nat) net" where
  "stub_net = \<lparr>nt_with_tcp = (\<lambda>_ _ _. Ok ()), nt_gossip_config = (\<lambda>_. Ok ()),
     nt_gossipsub = (\<lambda>_ _. Ok ()), nt_peer_score = (\<lambda>_ _. Ok ()), nt_mdns = (\<lambda>_ _. Ok ()),
     nt_behaviour_error = id, nt_topic_hash = id, nt_subscribe = (\<lambda>_. Ok ()),
     nt_listen = (\<lambda>a. Ok [a])\<rparr>"

definition stub_node :: "nat node_config" where
  "stub_node = \<lparr>nc_secret = stub_text, nc_listen = [Tcp 0], nc_pinned_group = None,
     nc_bootstrap = [], nc_mdns = False\<rparr>"

lemma stub_secret: "read_secret_file stub_os path = Ok stub_text"
  by (simp add: read_secret_file_def stub_os_def stub_file_def check_secret_meta_def permission_bits_def
      read_capped_def read_to_end_capped_def MAX_SECRET_FILE_def)

lemma stub_vars:
  "os_var stub_os ''CITRATE_CLUSTER_SOCKET'' = Some ''x''" "os_var stub_os ''CITRATE_CLUSTER_BEARER_FILE'' = Some ''x''"
  "os_var stub_os ''CITRATE_CLUSTER_SEED_FILE'' = Some ''x''" "os_var stub_os ''CITRATE_CLUSTER_LISTEN'' = Some ''x''"
  "os_var stub_os ''CITRATE_CLUSTER_SELF_ADDR'' = Some (addr_of ''a1'')" "os_var stub_os ''CITRATE_CLUSTER_GROUP'' = None"
  "os_var stub_os ''CITRATE_CLUSTER_BOOTSTRAP'' = None" "os_var stub_os ''CITRATE_CLUSTER_MDNS'' = None"
  "os_args stub_os = []"
  by (simp_all add: stub_os_def)

lemma stub_boot:
  "program_main stub_os stub_libs stub_keys = Ok (ServeLibp2p (addr_of ''a1'') ''x'' (stub_text) stub_node)"
proof -
  have "read_seed stub_os stub_libs = Ok (stub_text)"
    by (simp add: read_seed_def stub_vars stub_secret stub_libs_def Let_def)
  then have "from_env stub_os stub_libs = Ok stub_node"
    by (simp add: from_env_def stub_vars stub_libs_def parse_flag_def stub_node_def)
  then show ?thesis
    by (simp add: program_main_def required_def stub_vars stub_secret Let_def
        identity_from_secret_def) (simp add: stub_libs_def factory_new_def swarm_runtime_def)
qed

lemma stub_transport:
  "transport_for stub_libs stub_keys stub_net stub_net stub_node ''g'' =
    Ok \<lparr>lp_self_address = addr_of ''a1'', lp_topic = ''g'', lp_local_peer = 5,
       lp_settings = cluster_settings 5 ''g'' False, lp_swarm = swarm_init ''g'' [] [[Tcp 0]]\<rparr>"
proof -
  have "trim ''g'' = ''g''" by (rule trim_graphic) (simp add: is_ascii_graphic_def)
  then show ?thesis
    by (simp add: transport_for_def new_on_def Let_def stub_node_def group_listen_def)
      (simp add: stub_libs_def stub_net_def build_swarm_def build_behaviour_def gossipsub_config_def
        mdns_behaviour_def cluster_settings_def Let_def)
qed

theorem program_fails_closed_witness:
  "serve_checked stub_os (addr_of ''a1'') (addr_of ''a1'') ''x'' stub_text \<and> node_checked stub_os stub_libs stub_node"
  using program_fails_closed [THEN iffD1, OF stub_boot] by (auto simp: serve_checked_def)

theorem booted_identity_witness:
  "d_self (booted_daemon (addr_of ''a1'') stub_node) = addr_of ''a1''"
  using booted_identity [OF stub_boot stub_transport] by simp

theorem transport_for_swarm_witness:
  "identity_from_secret stub_libs stub_keys (nc_secret stub_node) = Ok (addr_of ''a1'', 5)"
  using transport_for_swarm [OF stub_transport] by simp

end
