(* ===== verification/Swarm_Live.thy ===== *)
theory Swarm_Live
  imports Swarm_Inv
begin

section \<open>Evictions take hold\<close>

text \<open>
  The invariants of \<open>Swarm_Inv\<close> say what holds at every moment; here is what the task gets done. From any
  reachable state it can finish the arm it is in, take the commands that are queued and see the
  connections it is closing closed: the run \<open>settle\<close>, after which only authorized addresses are
  connected.
\<close>

lemma task_arms_keep_authorized:
  "sw_authorized (on_pending q t) = sw_authorized t" "sw_authorized (on_sweep now t) = sw_authorized t"
  "sw_authorized (on_redial K t) = sw_authorized t" "sw_authorized (on_cmd c t) = sw_authorized t"
  "sw_authorized (on_established now p t) = sw_authorized t" "sw_authorized (on_identify K p key t) = sw_authorized t"
  "sw_authorized (on_message topic src bytes t) = sw_authorized t"
  "sw_authorized (on_discovered K l found t) = sw_authorized t" "sw_authorized (on_expired gone t) = sw_authorized t"
  "sw_authorized (on_closed p t) = sw_authorized t"
proof -
  show "sw_authorized (on_pending q t) = sw_authorized t" by (cases q) simp_all
  show "sw_authorized (on_sweep now t) = sw_authorized t" by (simp add: on_sweep_eq Let_def)
  show "sw_authorized (on_redial K t) = sw_authorized t" using on_redial_eq [of K t] by auto
  show "sw_authorized (on_discovered K l found t) = sw_authorized t" using on_discovered_eq [of K l found t] by auto
  show "sw_authorized (on_cmd c t) = sw_authorized t"
    by (cases c) (auto simp: swarm_dial_def fold_disconnect)
qed (auto simp: on_established_def on_identify_def on_message_def on_expired_def on_closed_def Let_def
    gate_peer_def ungate_peer_def disconnect_peer_id_def split: option.splits)

lemma on_cmd_keeps:
  "sw_running (on_cmd c t) = sw_running t" "sw_pending (on_cmd c t) = sw_pending t" "sw_cmds (on_cmd c t) = sw_cmds t"
  by (cases c; simp add: swarm_dial_def fold_disconnect)+

lemma on_closed_keeps:
  "sw_running (on_closed p t) = sw_running t" "sw_pending (on_closed p t) = sw_pending t"
  "sw_cmds (on_closed p t) = sw_cmds t" "sw_closing (on_closed p t) = sw_closing t |-| {|p|}"
  by (simp_all add: on_closed_def Let_def split: option.splits)

lemmas task_arms_keep = task_arms_keep_authorized on_cmd_keeps on_closed_keeps

definition take_cmds :: "('p::linorder) swarm \<Rightarrow> 'p swarm" where
  "take_cmds s = fold on_cmd (sw_cmds s) (s\<lparr>sw_cmds := []\<rparr>)"

definition close_all :: "('p::linorder) swarm \<Rightarrow> 'p swarm" where
  "close_all s = fold on_closed (sorted_list_of_fset (sw_closing s)) s"

definition settle :: "('p::linorder) swarm \<Rightarrow> 'p swarm" where
  "settle s = close_all (take_cmds (on_pending (sw_pending s) s))"

lemma on_cmd_queue: "on_cmd c (s\<lparr>sw_cmds := cs\<rparr>) = (on_cmd c s)\<lparr>sw_cmds := cs\<rparr>"
  by (cases c) (simp_all add: swarm_dial_def fold_disconnect)

lemma fold_cmd_fields:
  "sw_authorized (fold on_cmd cs s) = sw_authorized s" "sw_running (fold on_cmd cs s) = sw_running s"
  "sw_pending (fold on_cmd cs s) = sw_pending s" "sw_cmds (fold on_cmd cs s) = sw_cmds s"
  by (induction cs arbitrary: s) (simp_all add: task_arms_keep)

lemma take_cmds_reach:
  assumes "sw_running s" and "sw_pending s = NoPending"
  shows "swarm_reach K l s (take_cmds s)"
proof -
  have "swarm_reach K l (s\<lparr>sw_cmds := cs\<rparr>) (fold on_cmd cs (s\<lparr>sw_cmds := []\<rparr>))" for cs
    using assms
  proof (induction cs arbitrary: s)
    case (Cons c cs)
    have "swarm_step K l (s\<lparr>sw_cmds := c # cs\<rparr>) (on_cmd c ((s\<lparr>sw_cmds := c # cs\<rparr>)\<lparr>sw_cmds := cs\<rparr>))"
      using Cons.prems by (intro task_cmd) simp_all
    then have "swarm_step K l (s\<lparr>sw_cmds := c # cs\<rparr>) ((on_cmd c s)\<lparr>sw_cmds := cs\<rparr>)" by (simp add: on_cmd_queue)
    moreover have "swarm_reach K l ((on_cmd c s)\<lparr>sw_cmds := cs\<rparr>) (fold on_cmd cs ((on_cmd c s)\<lparr>sw_cmds := []\<rparr>))"
      using Cons.prems by (intro Cons.IH) (simp_all add: task_arms_keep)
    ultimately show ?case by (simp add: on_cmd_queue converse_rtranclp_into_rtranclp)
  qed simp
  from this [of "sw_cmds s"] show ?thesis by (simp add: take_cmds_def)
qed

lemma fold_closed_fields:
  fixes s :: "('p::linorder) swarm"
  shows
  "sw_authorized (fold on_closed ps s) = sw_authorized s" "sw_running (fold on_closed ps s) = sw_running s"
  "sw_pending (fold on_closed ps s) = sw_pending s" "sw_cmds (fold on_closed ps s) = sw_cmds s"
  by (induction ps arbitrary: s) (simp_all add: task_arms_keep)

lemma fold_closed_closing: "sw_closing (fold on_closed ps s) = sw_closing s |-| fset_of_list ps"
proof (induction ps arbitrary: s)
  case (Cons p ps)
  have "sw_closing s |-| {|p|} |-| fset_of_list ps = sw_closing s |-| fset_of_list (p # ps)" by auto
  with Cons.IH [of "on_closed p s"] show ?case by (simp add: task_arms_keep)
qed simp

lemma close_all_closing: "sw_closing (close_all s) = {||}"
proof -
  have "fset_of_list (sorted_list_of_fset A) = A" for A :: "'a fset" by (simp add: fset_eq_iff fset_of_list_elem)
  then show ?thesis by (simp add: close_all_def fold_closed_closing)
qed

lemma close_all_reach:
  assumes "sw_running s" and "sw_pending s = NoPending"
  shows "swarm_reach K l s (close_all s)"
proof -
  have "swarm_reach K l s (fold on_closed ps s)" for ps
    using assms
  proof (induction ps arbitrary: s)
    case (Cons p ps)
    have "swarm_step K l s (on_closed p s)" using Cons.prems by (rule task_closed)
    moreover have "swarm_reach K l (on_closed p s) (fold on_closed ps (on_closed p s))"
      using Cons.prems by (intro Cons.IH) (simp_all add: task_arms_keep)
    ultimately show ?case by (simp add: converse_rtranclp_into_rtranclp)
  qed simp
  then show ?thesis by (simp add: close_all_def)
qed

lemma settle_reach:
  assumes "sw_running s"
  shows "swarm_reach K l s (settle s)" and "sw_authorized (settle s) = sw_authorized s"
    and "sw_running (settle s)" and "sw_pending (settle s) = NoPending" and "sw_cmds (settle s) = []"
    and "sw_closing (settle s) = {||}"
proof -
  let ?s1 = "on_pending (sw_pending s) s"
  have p: "sw_pending ?s1 = NoPending" "sw_running ?s1"
    using assms by (cases "sw_pending s"; simp)+
  have "swarm_reach K l s ?s1"
  proof (cases "sw_pending s = NoPending")
    case False
    from task_pending [OF assms this] show ?thesis by (rule r_into_rtranclp)
  qed simp
  also have "swarm_reach K l ?s1 (take_cmds ?s1)" using p(2,1) by (rule take_cmds_reach)
  also have "swarm_reach K l (take_cmds ?s1) (settle s)"
    unfolding settle_def using p by (intro close_all_reach) (simp_all add: take_cmds_def fold_cmd_fields)
  finally show "swarm_reach K l s (settle s)" .
  show "sw_authorized (settle s) = sw_authorized s" "sw_running (settle s)" "sw_pending (settle s) = NoPending"
    "sw_cmds (settle s) = []"
    using p by (simp_all add: settle_def close_all_def take_cmds_def fold_closed_fields fold_cmd_fields task_arms_keep)
  show "sw_closing (settle s) = {||}" unfolding settle_def by (rule close_all_closing)
qed

lemma settle_connected:
  assumes "inj_peer_id K" and "swarm_reach K l (swarm_init topic_hash bootstrap listeners) s" and "sw_running s"
  shows "sw_connected (settle s) |\<subseteq>| sw_authorized s"
proof -
  note settled = settle_reach [OF assms(3)]
  have "swarm_reach K l (swarm_init topic_hash bootstrap listeners) (settle s)"
    using assms(2) settled(1) by (rule rtranclp_trans)
  then have "conn_ok K (settle s)" using assms(1) by (rule swarm_reach_ok(3))
  from quiescent_connected [OF this settled(3,5,6)] settled(2) show ?thesis by simp
qed

text \<open>C14. An eviction takes hold: from every reachable state of a running task, whatever raced, the task
  can settle by its own arms, without any further command from the daemon; then no command is left, no
  connection is half closed, and every connected address is one that was authorized to begin with.\<close>

theorem evictions_take_hold:
  assumes "inj_peer_id K" and "(swarm_step K l)\<^sup>*\<^sup>* (swarm_init topic_hash bootstrap listeners) s"
    and "sw_running s"
  shows "(swarm_step K l)\<^sup>*\<^sup>* s (settle s) \<and> sw_connected (settle s) |\<subseteq>| sw_authorized s
    \<and> sw_cmds (settle s) = [] \<and> sw_closing (settle s) = {||}"
  using settle_connected [OF assms] settle_reach [OF assms(3)] by simp

theorem evictions_take_hold_witness:
  "sw_connected race4 = {|addr_of ''a1''|} \<and> sw_connected (settle race4) |\<subseteq>| {||}"
  using evictions_take_hold [OF stub_keys_inj race_reach4 [of 0]]
  by (simp add: race4_eq race3_eq race2_eq race0_eq swarm_init_def)

subsection \<open>The race of an eviction with \<open>identify\<close>\<close>

text \<open>
  The steps that leave an address alone: it is not evicted once more, and no connection of a peer
  that identified with it closes.
\<close>

definition leaves_alone :: "rstr \<Rightarrow> 'p swarm \<Rightarrow> 'p swarm \<Rightarrow> bool" where
  "leaves_alone a u v \<longleftrightarrow>
    (\<nexists>raw. canonical_address raw = Some a \<and> v = lt_disconnect raw u)
    \<and> (\<nexists>p. fmlookup (sw_peer_addr u) p = Some a \<and> v = on_closed p u)"

lemma on_pending_connected: "sw_connected t |\<subseteq>| sw_connected (on_pending q t)"
  by (cases q) auto

lemma leaves_alone_connected:
  assumes "swarm_step K l u v" and "leaves_alone a u v" and "a |\<in>| sw_connected u"
  shows "a |\<in>| sw_connected v"
  using assms(1)
proof cases
  case (surface_disconnect raw)
  with assms(2) have "canonical_address raw \<noteq> Some a" by (auto simp: leaves_alone_def)
  with surface_disconnect assms(3) show ?thesis by (auto simp: lt_disconnect_def send_cmd_def split: option.splits)
next
  case (task_closed p)
  with assms(2) have "fmlookup (sw_peer_addr u) p \<noteq> Some a" by (auto simp: leaves_alone_def)
  with task_closed assms(3) show ?thesis by (auto simp: on_closed_def Let_def split: option.splits)
next
  case (task_cmd c cs)
  then show ?thesis using assms(3) by (cases c) (simp_all add: swarm_dial_def fold_disconnect)
next
  case (surface_add_peers parse addrs)
  with assms(3) show ?thesis by (auto simp: lt_add_peers_def fold_send_dial split: sum.splits)
next
  case task_redial
  with assms(3) show ?thesis using on_redial_eq [of K u] by auto
next
  case (task_discovered found)
  with assms(3) show ?thesis using on_discovered_eq [of K l found u] by auto
next
  case task_pending
  with assms(3) on_pending_connected show ?thesis by auto
next
  case (task_identify p key)
  with assms(3) show ?thesis
    by (auto simp: on_identify_def Let_def ungate_peer_def gate_peer_def disconnect_peer_id_def split: option.splits)
qed (use assms(3) in \<open>auto simp: lt_dial_def lt_publish_def lt_drain_def send_cmd_def on_sweep_eq Let_def
    on_established_def gate_peer_def on_message_fields on_expired_def split: option.splits\<close>)

text \<open>C40. The documented \<open>connected \<subseteq> admitted\<close> does not hold at every moment on the wire. \<open>identify\<close> checks
  the authorized set and inserts into the connected set under two separate locks. Whenever an eviction
  of the address falls in between, the rest of the arm connects the evicted address; it then stays
  connected, the command to disconnect it waiting in the queue, through every run of the swarm in which
  it is not evicted once more and no connection of a peer with that address closes; and it is
  disconnected when the task has taken its commands and the connections they close are closed.\<close>

theorem eviction_races_identify:
  assumes "inj_peer_id K" and "(swarm_step K l)\<^sup>*\<^sup>* (swarm_init topic_hash bootstrap listeners) s"
    and "sw_running s" and "sw_pending s = PendingConnected a" and "canonical_address raw = Some a"
    and "t = on_pending (sw_pending s) (lt_disconnect raw s)"
  shows "(swarm_step K l)\<^sup>*\<^sup>* s t
    \<and> a |\<notin>| sw_authorized t \<and> a |\<in>| sw_connected t \<and> CmdDisconnect a \<in> set (sw_cmds t)
    \<and> ((\<lambda>u v. swarm_step K l u v \<and> leaves_alone a u v)\<^sup>*\<^sup>* t u \<longrightarrow> a |\<in>| sw_connected u)
    \<and> (swarm_step K l)\<^sup>*\<^sup>* t (settle t) \<and> a |\<notin>| sw_connected (settle t)"
proof -
  let ?s1 = "lt_disconnect raw s"
  have s1: "swarm_step K l s ?s1" by (rule surface_disconnect)
  have f: "sw_running ?s1" "sw_pending ?s1 = PendingConnected a" "a |\<notin>| sw_authorized ?s1"
      "CmdDisconnect a \<in> set (sw_cmds ?s1)"
    using assms(3-5) by (simp_all add: lt_disconnect_def send_cmd_def)
  with assms(4,6) have t: "t = on_pending (sw_pending ?s1) ?s1" by simp
  have "swarm_step K l ?s1 t" unfolding t using f(1,2) by (intro task_pending) simp_all
  with s1 have st: "swarm_reach K l s t" by (meson rtranclp.rtrancl_into_rtrancl rtranclp.rtrancl_refl)
  have ct: "a |\<in>| sw_connected t" "a |\<notin>| sw_authorized t" "CmdDisconnect a \<in> set (sw_cmds t)" "sw_running t"
    using f by (simp_all add: t)
  have stays: "a |\<in>| sw_connected u" if "(\<lambda>u v. swarm_step K l u v \<and> leaves_alone a u v)\<^sup>*\<^sup>* t u"
    using that by (induction rule: rtranclp_induct) (auto simp: ct(1) intro: leaves_alone_connected)
  have "swarm_reach K l (swarm_init topic_hash bootstrap listeners) t"
    using assms(2) st by (rule rtranclp_trans)
  from settle_connected [OF assms(1) this ct(4)] ct(2) have "a |\<notin>| sw_connected (settle t)" by blast
  with st ct stays settle_reach(1) [OF ct(4)] show ?thesis by blast
qed

theorem eviction_races_identify_witness:
  "addr_of ''a1'' |\<notin>| sw_authorized race4 \<and> addr_of ''a1'' |\<in>| sw_connected race4
    \<and> addr_of ''a1'' |\<notin>| sw_connected (settle race4)"
proof -
  have "sw_running race2" "sw_pending race2 = PendingConnected (addr_of ''a1'')"
    by (simp_all add: race2_eq race0_eq swarm_init_def)
  moreover have "race4 = on_pending (sw_pending race2) (lt_disconnect (addr_of ''a1'') race2)"
    by (simp add: race4_def race3_def) (simp add: lt_disconnect_def send_cmd_def)
  ultimately show ?thesis
    using eviction_races_identify [OF stub_keys_inj race_reach2 [of 0], of "addr_of ''a1''" "addr_of ''a1''" race4 race4]
    by simp
qed

end
