(* ===== verification/Served.thy ===== *)
theory Served
  imports Startup Libp2p_Daemon Swarm_Live
begin

section \<open>A served daemon on libp2p\<close>

text \<open>
  The parts together: \<open>main\<close> boots a daemon, its factory starts a swarm for each group, the control
  socket feeds it requests, and the tasks of the swarms run on their own. The reachable states of a
  swarm are a transport invariant that the daemon's operations keep, so the locale of
  \<open>Libp2p_Daemon\<close> is interpreted once more, with that invariant.
\<close>

definition swarm_ok :: "('k, 's, 'p::linorder) peer_keys \<Rightarrow> 'p \<Rightarrow> 'p swarm \<Rightarrow> bool" where
  "swarm_ok K l t \<longleftrightarrow> (\<exists>topic_hash bootstrap listeners. swarm_reach K l (swarm_init topic_hash bootstrap listeners) t)"

lemma swarm_ok_init: "swarm_ok K l (swarm_init topic_hash bootstrap listeners)"
  by (auto simp: swarm_ok_def)

lemma swarm_ok_step: "swarm_ok K l t \<Longrightarrow> swarm_step K l t t' \<Longrightarrow> swarm_ok K l t'"
  unfolding swarm_ok_def by (meson rtranclp.rtrancl_into_rtrancl)

lemma swarm_ok_surface:
  assumes "swarm_ok K l t"
  shows "swarm_ok K l (lt_dial p t)" "swarm_ok K l (lt_disconnect p t)" "swarm_ok K l (lt_publish a b t)"
    "swarm_ok K l (snd (lt_drain t))" "swarm_ok K l (snd (lt_add_peers parse l as t))"
  using assms by (blast intro: swarm_ok_step swarm_step.intros)+

interpretation sw: authorizing_transport "libp2p_transport parse to_string l" "swarm_ok K l" sw_authorized
  for parse to_string l K
  by unfold_locales
    (simp_all add: swarm_ok_surface lt.dial_connected [simplified] lt.disconnect_connected [simplified]
      lt.dial_authorized [simplified] lt.disconnect_authorized [simplified]
      lt.publish_keeps [simplified] lt.drain_keeps [simplified] lt.add_peers_keeps [simplified])

text \<open>The swarm's own moves: steps of the task and of the network, which leave the authorized set alone.\<close>

definition task_moves :: "('k, 's, 'p::linorder) peer_keys \<Rightarrow> 'p \<Rightarrow> ('p swarm \<Rightarrow> 'p swarm) set" where
  "task_moves K l = {f. \<forall>t. f t = t \<or> (swarm_step K l t (f t) \<and> sw_authorized (f t) = sw_authorized t)}"

text \<open>What a booted daemon is served with.\<close>

definition booted_transport :: "('k, 'p) node_libs \<Rightarrow> 'p \<Rightarrow> 'p swarm mesh_transport" where
  "booted_transport L l =
    libp2p_transport (\<lambda>text. case nl_parse L text of Ok ma \<Rightarrow> Some ma | Err _ \<Rightarrow> None) (nl_show L) l"

definition booted_factories ::
  "('k, 'p) node_libs \<Rightarrow> ('k, 's, 'p) peer_keys \<Rightarrow> 'p node_config \<Rightarrow> 'p swarm transport_factory set" where
  "booted_factories L K node = {libp2p_factory L K N N' node |N N'. True}"

definition served ::
  "('k, 'p::linorder) node_libs \<Rightarrow> ('k, 's, 'p) peer_keys \<Rightarrow> 'p \<Rightarrow> link_verifier \<Rightarrow> codec \<Rightarrow> 32 word
    \<Rightarrow> rstr \<Rightarrow> rstr \<Rightarrow> 'p node_config \<Rightarrow> 'p swarm server \<Rightarrow> bool" where
  "served L K l V C euid self_addr bearer node s \<longleftrightarrow>
    (server_step (booted_transport L l) (booted_factories L K node) (task_moves K l) V C bearer euid)\<^sup>*\<^sup>*
      \<lparr>sv_daemon = booted_daemon self_addr node, sv_conns = []\<rparr> s"

lemma booted_factory_fresh:
  assumes "mk \<in> booted_factories L K node"
  shows "mk g = Ok t \<Longrightarrow> swarm_ok K l t \<and> sw_authorized t = {||}"
proof -
  assume "mk g = Ok t"
  with assms obtain N N' lp where "transport_for L K N N' node g = Ok lp" and t: "t = lp_swarm lp"
    by (auto simp: booted_factories_def libp2p_factory_def map_sum_Ok_iff)
  then obtain th b ls where "lp_swarm lp = swarm_init th b ls"
    by (auto elim!: transport_for_Ok simp: new_on_Ok_iff)
  then show ?thesis unfolding t by (simp add: swarm_ok_init) (simp add: swarm_init_def)
qed

lemma client_events_mesh:
  fixes K :: "('k, 's, 'p::linorder) peer_keys"
  assumes "client_event (booted_factories L K node) (task_moves K l) C ev"
  shows "authorizing_transport.mesh_event (swarm_ok K l) sw_authorized ev \<and> \<not> is_drop ev"
proof (cases ev)
  case (EvTransport g f)
  with assms have "f \<in> task_moves K l" by (simp add: client_event_def)
  then have f: "f t = t \<or> swarm_step K l t (f t) \<and> sw_authorized (f t) = sw_authorized t" for t
    by (simp add: task_moves_def)
  have "swarm_ok K l (f t) \<and> sw_authorized (f t) = sw_authorized t" if "swarm_ok K l t" for t
    using f [of t] that swarm_ok_step [OF that, of "f t"] by metis
  then show ?thesis by (simp add: EvTransport)
qed (use assms in \<open>auto simp: client_event_def sw.fresh_factory_def dest: booted_factory_fresh\<close>)

text \<open>What every reachable state of the server keeps.\<close>

lemma served_inv:
  fixes K :: "('k, 's, 'p::linorder) peer_keys"
  assumes "served L K l V C euid self_addr bearer node s"
  shows "daemon_ok (sv_daemon s)" and "d_single (sv_daemon s) = nc_pinned_group node"
    and "fmlookup (d_groups (sv_daemon s)) g = Some ses
      \<Longrightarrow> swarm_ok K l (s_transport ses) \<and> sw_authorized (s_transport ses) = mem_allowed (s_membership ses)"
proof -
  from server_reach_events [OF assms [unfolded served_def]] obtain evs
    where evs: "list_all (client_event (booted_factories L K node) (task_moves K l) C) evs"
      and s: "sv_daemon s = daemon_run (booted_transport L l) V evs (booted_daemon self_addr node)"
    by blast
  have init: "daemon_ok (booted_daemon self_addr node)" "d_single (booted_daemon self_addr node) = nc_pinned_group node"
  proof -
    show "daemon_ok (booted_daemon self_addr node)" by (simp add: booted_daemon_def split: option.splits)
  qed (simp add: booted_daemon_def daemon_with_factory_def daemon_single_group_def split: option.splits)
  show "daemon_ok (sv_daemon s)" unfolding s using init(1) by (rule daemon_run_ok)
  show "d_single (sv_daemon s) = nc_pinned_group node" by (simp add: s daemon_run_single init(2))
  have "list_all (\<lambda>ev. authorizing_transport.mesh_event (swarm_ok K l) sw_authorized ev \<and> \<not> is_drop ev) evs"
    using evs client_events_mesh [of L K node l C] by (simp add: list_all_iff)
  moreover have "sw.wires_ok P (booted_daemon self_addr node)" for P :: "'p swarm cluster_session \<Rightarrow> bool"
    by (simp add: booted_daemon_def sw.wires_ok_init split: option.splits)
  ultimately have "sw.wires_ok (authorizing_transport.wire_exact (swarm_ok K l) sw_authorized) (sv_daemon s)"
    unfolding s booted_transport_def by (rule sw.wires_exact_run [rotated])
  then show "fmlookup (d_groups (sv_daemon s)) g = Some ses
      \<Longrightarrow> swarm_ok K l (s_transport ses) \<and> sw_authorized (s_transport ses) = mem_allowed (s_membership ses)"
    by (auto dest: sw.wires_okD simp: sw.wire_exact_def sw.wire_ok_def)
qed

text \<open>A move that is a step when it may be taken.\<close>

lemma task_movesI:
  assumes "\<And>t. may t \<Longrightarrow> swarm_step K l t (f t)" and "\<And>t. sw_authorized (f t) = sw_authorized t"
  shows "(\<lambda>t. if may t then f t else t) \<in> task_moves K l"
  using assms by (simp add: task_moves_def)

subsection \<open>Served states to look at\<close>

text \<open>A client may send any request, and a transport may make any of its moves.\<close>

lemma served_request:
  assumes "served L K l V C euid self_addr bearer node s" and "mk \<in> booted_factories L K node"
    and "wire_line auth" and "authorized C auth bearer"
    and "wire_line line" and "trim line \<noteq> []" and "cd_parse_request C (trim line) = Ok req"
  shows "\<exists>cs. served L K l V C euid self_addr bearer node
    \<lparr>sv_daemon = snd (handle_request (booted_transport L l) mk V req (sv_daemon s)), sv_conns = cs\<rparr>"
  using server_request [OF assms(2-7) prod.collapse [symmetric], where T = "booted_transport L l" and V = V and s = s and M = "task_moves K l" and euid = euid]
    assms(1)
  unfolding served_def by (meson rtranclp_trans)

lemma served_mesh:
  assumes "served L K l V C euid self_addr bearer node s" and "f \<in> task_moves K l"
  shows "served L K l V C euid self_addr bearer node (s\<lparr>sv_daemon := transport_moves g f (sv_daemon s)\<rparr>)"
  using assms(1) unfolding served_def by (rule rtranclp.rtrancl_into_rtrancl) (rule server_step.mesh [OF assms(2)])

lemma fold_lt_dial: "\<exists>A. fold lt_dial ps t = t\<lparr>sw_authorized := A\<rparr>"
proof (induction ps arbitrary: t)
  case Nil
  show ?case by (intro exI [of _ "sw_authorized t"]) simp
next
  case (Cons p ps)
  obtain A where "lt_dial p t = t\<lparr>sw_authorized := A\<rparr>"
    by (cases "canonical_address p") (auto simp: lt_dial_def intro: that [of "sw_authorized t"])
  moreover obtain B where "fold lt_dial ps (t\<lparr>sw_authorized := A\<rparr>) = (t\<lparr>sw_authorized := A\<rparr>)\<lparr>sw_authorized := B\<rparr>"
    using Cons.IH by blast
  ultimately show ?case by (auto intro!: exI [of _ B])
qed

text \<open>One client that joins a group, another that sets its roster.\<close>

definition sample_effective :: roster where
  "sample_effective = effective_roster sample_roster registry_new"

definition sample_session :: "nat swarm cluster_session" where
  "sample_session = roster_session (booted_transport stub_libs 0) sample_effective
     (session_new [] (swarm_init ''g'' [] [[Tcp 0]]))"

lemma sample_group_joined:
  fixes T mk V a
  defines "d \<equiv> snd (handle_request T (libp2p_factory stub_libs stub_keys stub_net stub_net stub_node) V
      (ReqJoin ''g'') (booted_daemon a stub_node))"
  shows "fmlookup (d_groups d) ''g'' = Some (session_new [] (swarm_init ''g'' [] [[Tcp 0]]))"
    and "d_devices d = fmempty" and "d_single d = None"
proof -
  have g: "trim ''g'' = ''g''" by (rule trim_graphic) (simp add: is_ascii_graphic_def)
  have mk: "libp2p_factory stub_libs stub_keys stub_net stub_net stub_node ''g'' = Ok (swarm_init ''g'' [] [[Tcp 0]])"
    by (simp add: libp2p_factory_def stub_transport)
  have node: "nc_pinned_group stub_node = None" by (simp add: stub_node_def)
  note defs = d_def daemon_join_def ensure_group_allowed_def booted_daemon_def daemon_with_factory_def
    ensure_session_def MAX_GROUPS_def put_session_def
  show "fmlookup (d_groups d) ''g'' = Some (session_new [] (swarm_init ''g'' [] [[Tcp 0]]))"
    by (simp add: g mk node defs)
  show "d_devices d = fmempty" by (simp add: g mk node defs)
  show "d_single d = None" by (simp add: g mk node defs)
qed

lemma sample_set_roster:
  assumes "fmlookup (d_groups d) ''g'' = Some (session_new [] (swarm_init ''g'' [] [[Tcp 0]]))"
    and "d_devices d = fmempty" and "d_single d = None"
  shows "fmlookup (d_groups (snd (handle_request (booted_transport stub_libs 0) mk stub_verifier
      (ReqSetRoster ''g'' sample_roster [] []) d))) ''g'' = Some sample_session"
proof -
  have reg: "registry_new = snd (registry_update stub_verifier (map signed_link_of_wire [])
      (map signed_revocation_of_wire []) (gd_registry (fm_get_or group_devices_default (d_devices d) ''g'')))"
    by (simp add: assms(2) group_devices_default_def registry_update_def registry_new_def sorted_list_of_fmap_def)
  show ?thesis
    using set_roster_session [OF assms(1,3) reg, of "booted_transport stub_libs 0" mk sample_roster]
    by (simp add: handle_request_state sample_session_def sample_effective_def)
qed

lemma sample_session_wire:
  "s_transport sample_session = (swarm_init ''g'' [] [[Tcp 0]])\<lparr>sw_authorized := allowed_set sample_effective\<rparr>"
  "mem_allowed (s_membership sample_session) = allowed_set sample_effective"
  "addr_of ''a1'' |\<in>| allowed_set sample_effective"
proof -
  let ?s = "session_new [] (swarm_init ''g'' [] [[Tcp 0]]) :: nat swarm cluster_session"
  note fold_lt_dial
  moreover have "s_transport sample_session =
      fold lt_dial (sorted_list_of_fset (allowed_set sample_effective)) (swarm_init ''g'' [] [[Tcp 0]])"
    by (simp add: sample_session_def roster_session_def booted_transport_def session_simps membership_simps
        sorted_list_of_fset_def)
  ultimately obtain A where A: "s_transport sample_session = (swarm_init ''g'' [] [[Tcp 0]])\<lparr>sw_authorized := A\<rparr>"
    by metis
  have "lt.wire_ok ?s" by (rule lt.wire_ok_new) (simp_all add: swarm_init_def)
  then have "sw_authorized (s_transport sample_session) = allowed_set sample_effective"
    unfolding sample_session_def booted_transport_def by (rule lt.wire_ok_roster(2))
  with A show "s_transport sample_session = (swarm_init ''g'' [] [[Tcp 0]])\<lparr>sw_authorized := allowed_set sample_effective\<rparr>"
    by simp
  show "mem_allowed (s_membership sample_session) = allowed_set sample_effective"
    by (simp add: sample_session_def membership_simps)
  show "addr_of ''a1'' |\<in>| allowed_set sample_effective"
    unfolding sample_effective_def effective_roster_no_devices
    by (simp add: allowed_set_def sample_roster_def insert_some_def allowed_entry_def role_rank_member)
qed

text \<open>A peer of that group connects, identifies itself, and is counted as connected.\<close>

definition sample_moves :: "(nat swarm \<Rightarrow> nat swarm) list" where
  "sample_moves =
    [\<lambda>t. if sw_running t \<and> sw_pending t = NoPending then on_established 0 7 t else t,
     \<lambda>t. if sw_running t \<and> sw_pending t = NoPending \<and> 7 |\<in>| sw_live t then on_identify stub_keys 7 7 t else t,
     \<lambda>t. if sw_running t \<and> sw_pending t \<noteq> NoPending then on_pending (sw_pending t) t else t]"

lemma sample_moves_task: "list_all (\<lambda>f. f \<in> task_moves stub_keys 0) sample_moves"
proof -
  note step = swarm_step.intros and auth = task_arms_keep_authorized
  have "f \<in> task_moves stub_keys 0" if "f \<in> set sample_moves" for f
    using that unfolding sample_moves_def
    by (auto intro!: task_movesI step simp: auth)
  then show ?thesis by (simp add: list_all_iff)
qed

lemma sample_connects:
  assumes "sw_running t" and "sw_pending t = NoPending" and "addr_of ''a1'' |\<in>| sw_authorized t"
  shows "sw_running (fold (\<lambda>f. f) sample_moves t)"
    and "addr_of ''a1'' |\<in>| sw_connected (fold (\<lambda>f. f) sample_moves t)"
  using assms
  by (simp_all add: sample_moves_def on_established_def Let_def gate_peer_def on_identify_def ungate_peer_def)

lemma served_moves:
  assumes "served L K l V C euid self_addr bearer node s" and "list_all (\<lambda>f. f \<in> task_moves K l) fs"
    and "fmlookup (d_groups (sv_daemon s)) g = Some ses"
  shows "\<exists>s'. served L K l V C euid self_addr bearer node s'
    \<and> fmlookup (d_groups (sv_daemon s')) g = Some (ses\<lparr>s_transport := fold (\<lambda>f. f) fs (s_transport ses)\<rparr>)"
  using assms
proof (induction fs arbitrary: s ses)
  case Nil
  then show ?case by auto
next
  case (Cons f fs)
  let ?s = "s\<lparr>sv_daemon := transport_moves g f (sv_daemon s)\<rparr>"
  have "served L K l V C euid self_addr bearer node ?s" using Cons.prems by (simp add: served_mesh)
  moreover have "fmlookup (d_groups (sv_daemon ?s)) g = Some (ses\<lparr>s_transport := f (s_transport ses)\<rparr>)"
    using Cons.prems(3) by (simp add: transport_moves_def)
  ultimately show ?case using Cons.IH [of ?s] Cons.prems(2) by fastforce
qed

lemma sample_served:
  "\<exists>s ses. served stub_libs stub_keys 0 stub_verifier stub_codec 0 (addr_of ''a1'') ''t'' stub_node s
     \<and> fmlookup (d_groups (sv_daemon s)) ''g'' = Some ses
     \<and> sw_running (s_transport ses) \<and> addr_of ''a1'' |\<in>| sw_connected (s_transport ses)"
proof -
  let ?served = "served stub_libs stub_keys 0 stub_verifier stub_codec 0 (addr_of ''a1'') ''t'' stub_node"
  let ?mk = "libp2p_factory stub_libs stub_keys stub_net stub_net stub_node"
  have mk: "?mk \<in> booted_factories stub_libs stub_keys stub_node" by (auto simp: booted_factories_def)
  have j: "trim (''j'' @ [LF]) \<noteq> []" "cd_parse_request stub_codec (trim (''j'' @ [LF])) = Ok (ReqJoin ''g'')"
    unfolding sample_lines by (simp_all add: stub_codec_def)
  have r: "trim (''r'' @ [LF]) \<noteq> []"
      "cd_parse_request stub_codec (trim (''r'' @ [LF])) = Ok (ReqSetRoster ''g'' sample_roster [] [])"
    unfolding sample_lines by (simp_all add: stub_codec_def)
  define d1 where "d1 = snd (handle_request (booted_transport stub_libs 0) ?mk stub_verifier (ReqJoin ''g'')
      (booted_daemon (addr_of ''a1'') stub_node))"
  have "?served \<lparr>sv_daemon = booted_daemon (addr_of ''a1'') stub_node, sv_conns = []\<rparr>" by (simp add: served_def)
  from served_request [OF this mk sample_lines(1) sample_authorized sample_lines(2) j]
  obtain cs where "?served \<lparr>sv_daemon = d1, sv_conns = cs\<rparr>" by (auto simp: d1_def)
  from served_request [OF this mk sample_lines(1) sample_authorized sample_lines(5) r]
  obtain cs' where s: "?served \<lparr>sv_daemon = snd (handle_request (booted_transport stub_libs 0) ?mk stub_verifier
      (ReqSetRoster ''g'' sample_roster [] []) d1), sv_conns = cs'\<rparr>" by (auto simp del: handle_request.simps)
  have "fmlookup (d_groups (snd (handle_request (booted_transport stub_libs 0) ?mk stub_verifier
      (ReqSetRoster ''g'' sample_roster [] []) d1))) ''g'' = Some sample_session"
    unfolding d1_def by (rule sample_set_roster) (rule sample_group_joined)+
  then have "fmlookup (d_groups (sv_daemon \<lparr>sv_daemon = snd (handle_request (booted_transport stub_libs 0) ?mk
      stub_verifier (ReqSetRoster ''g'' sample_roster [] []) d1), sv_conns = cs'\<rparr>)) ''g'' = Some sample_session"
    by (simp only: server.select_convs)
  from served_moves [OF s sample_moves_task this] obtain s' where "?served s'"
    and "fmlookup (d_groups (sv_daemon s')) ''g'' = Some (sample_session\<lparr>s_transport := fold (\<lambda>f. f) sample_moves (s_transport sample_session)\<rparr>)"
    by blast
  moreover have "sw_running (s_transport sample_session)" "sw_pending (s_transport sample_session) = NoPending"
      "addr_of ''a1'' |\<in>| sw_authorized (s_transport sample_session)"
    using sample_session_wire(3) by (simp_all add: sample_session_wire(1) swarm_init_def)
  note sample_connects [OF this]
  ultimately show ?thesis by auto
qed

end
