(* ===== verification/Server_Log.thy ===== *)
theory Server_Log
  imports Server "HOL-Library.Sublist"
begin

section \<open>The server as one log of requests\<close>

text \<open>
  What the interleaving of the connections of \<open>serve\<close> (\<open>crates/cluster-daemon/src/server.rs\<close>) amounts to.
  A schedule lists the steps of the server in order: who connects and what they send, which connection
  takes a turn, how a transport moves. From every schedule a log can be read off, the requests that
  reached the daemon, one after the other, such that the daemon is in the state that the log leads to,
  and every connection was read and answered as \<open>handle_conn\<close> would have done, on the states that the
  daemon had when its requests came up in the log.
\<close>

subsection \<open>Schedules\<close>

datatype 't turn =
    Accept "32 word" "32 word" stream nat
  | Turn nat "'t transport_factory"
  | Move rstr "'t \<Rightarrow> 't"

fun sched_step ::
  "('t, 'z) mesh_transport_scheme \<Rightarrow> link_verifier \<Rightarrow> codec \<Rightarrow> rstr \<Rightarrow> 32 word \<Rightarrow> 't turn \<Rightarrow> 't server \<Rightarrow> 't server" where
  "sched_step T V C bearer euid (Accept rc peer_uid stream room) s =
    s\<lparr>sv_conns := sv_conns s @ [conn_start euid rc peer_uid (conn_new stream room)]\<rparr>"
| "sched_step T V C bearer euid (Turn i mk) s =
    (if i < length (sv_conns s)
     then (case conn_step C bearer (handle_request T mk V) (sv_daemon s) (sv_conns s ! i) of
             (d', c') \<Rightarrow> s\<lparr>sv_daemon := d', sv_conns := (sv_conns s)[i := c']\<rparr>)
     else s)"
| "sched_step T V C bearer euid (Move g f) s = s\<lparr>sv_daemon := transport_moves g f (sv_daemon s)\<rparr>"

definition sched_run ::
  "('t, 'z) mesh_transport_scheme \<Rightarrow> link_verifier \<Rightarrow> codec \<Rightarrow> rstr \<Rightarrow> 32 word \<Rightarrow> 't turn list \<Rightarrow> 't daemon \<Rightarrow> 't server" where
  "sched_run T V C bearer euid sched d = fold (sched_step T V C bearer euid) sched \<lparr>sv_daemon = d, sv_conns = []\<rparr>"

fun turn_ok :: "'t transport_factory set \<Rightarrow> ('t \<Rightarrow> 't) set \<Rightarrow> 't turn \<Rightarrow> bool" where
  "turn_ok F M (Accept rc peer_uid stream room) = True"
| "turn_ok F M (Turn i mk) = (mk \<in> F)"
| "turn_ok F M (Move g f) = (f \<in> M)"

text \<open>The connections of a schedule, in the order in which they were accepted.\<close>

fun accepted :: "'t turn \<Rightarrow> (32 word \<times> 32 word \<times> stream \<times> nat) option" where
  "accepted (Accept rc peer_uid stream room) = Some (rc, peer_uid, stream, room)"
| "accepted _ = None"

fun moved :: "'t turn \<Rightarrow> (rstr \<times> ('t \<Rightarrow> 't)) option" where
  "moved (Move g f) = Some (g, f)"
| "moved _ = None"

definition clients :: "'t turn list \<Rightarrow> (32 word \<times> 32 word \<times> stream \<times> nat) list" where
  "clients sched = List.map_filter accepted sched"

lemma sched_run_snoc [simp]:
  "sched_run T V C bearer euid [] d = \<lparr>sv_daemon = d, sv_conns = []\<rparr>"
  "sched_run T V C bearer euid (sched @ [t]) d = sched_step T V C bearer euid t (sched_run T V C bearer euid sched d)"
  by (simp_all add: sched_run_def)

lemma clients_snoc [simp]:
  "clients [] = []"
  "clients (sched @ [t]) = clients sched @ (case accepted t of None \<Rightarrow> [] | Some c \<Rightarrow> [c])"
  by (simp_all add: clients_def List.map_filter_def split: option.splits)

text \<open>The steps of the server are those of the schedules.\<close>

lemma server_step_turn:
  assumes "server_step T F M V C bearer euid s s'"
  shows "\<exists>t. turn_ok F M t \<and> s' = sched_step T V C bearer euid t s"
  using assms
proof cases
  case (accept rc peer_uid stream room)
  then show ?thesis by (intro exI [of _ "Accept rc peer_uid stream room"]) simp
next
  case (turn mk i d' c')
  then show ?thesis by (intro exI [of _ "Turn i mk"]) simp
next
  case (mesh f g)
  then show ?thesis by (intro exI [of _ "Move g f"]) simp
qed

lemma turn_server_step:
  assumes "turn_ok F M t"
  shows "(server_step T F M V C bearer euid)\<^sup>*\<^sup>* s (sched_step T V C bearer euid t s)"
proof (cases t)
  case (Accept rc peer_uid stream room)
  then show ?thesis by (simp add: r_into_rtranclp server_step.accept)
next
  case (Turn i mk)
  show ?thesis
  proof (cases "i < length (sv_conns s)")
    case True
    obtain d' c' where c: "conn_step C bearer (handle_request T mk V) (sv_daemon s) (sv_conns s ! i) = (d', c')"
      by fastforce
    from Turn assms have "mk \<in> F" by simp
    from server_step.turn [OF this True c] True c Turn show ?thesis by (simp add: r_into_rtranclp)
  qed (simp add: Turn)
next
  case (Move g f)
  with assms show ?thesis by (simp add: r_into_rtranclp server_step.mesh)
qed

lemma server_reach_sched:
  "(server_step T F M V C bearer euid)\<^sup>*\<^sup>* \<lparr>sv_daemon = d, sv_conns = []\<rparr> s \<longleftrightarrow>
    (\<exists>sched. list_all (turn_ok F M) sched \<and> s = sched_run T V C bearer euid sched d)"
proof
  assume "(server_step T F M V C bearer euid)\<^sup>*\<^sup>* \<lparr>sv_daemon = d, sv_conns = []\<rparr> s"
  then show "\<exists>sched. list_all (turn_ok F M) sched \<and> s = sched_run T V C bearer euid sched d"
  proof (induction rule: rtranclp_induct)
    case base
    show ?case by (intro exI [of _ "[]"]) simp
  next
    case (step s s')
    then obtain sched where "list_all (turn_ok F M) sched" "s = sched_run T V C bearer euid sched d" by blast
    moreover from server_step_turn [OF step.hyps(2)] obtain t
      where "turn_ok F M t" "s' = sched_step T V C bearer euid t s" by blast
    ultimately show ?case by (intro exI [of _ "sched @ [t]"]) simp
  qed
next
  have "(server_step T F M V C bearer euid)\<^sup>*\<^sup>* \<lparr>sv_daemon = d, sv_conns = []\<rparr> (sched_run T V C bearer euid sched d)"
    if "list_all (turn_ok F M) sched" for sched
    using that
  proof (induction sched rule: rev_induct)
    case (snoc t sched)
    then show ?case using turn_server_step by (fastforce intro: rtranclp_trans)
  qed simp
  then show "\<exists>sched. list_all (turn_ok F M) sched \<and> s = sched_run T V C bearer euid sched d \<Longrightarrow>
      (server_step T F M V C bearer euid)\<^sup>*\<^sup>* \<lparr>sv_daemon = d, sv_conns = []\<rparr> s" by blast
qed

subsection \<open>Logs\<close>

text \<open>A line that a connection has sent reaches the daemon, or a transport moves.\<close>

datatype 't entry = Line nat rstr "'t transport_factory" | Moved rstr "'t \<Rightarrow> 't"

fun entry_step ::
  "('t, 'z) mesh_transport_scheme \<Rightarrow> link_verifier \<Rightarrow> codec \<Rightarrow> 't entry \<Rightarrow> 't daemon \<Rightarrow> 't daemon" where
  "entry_step T V C (Line i line mk) d = snd (answer C (handle_request T mk V) line d)"
| "entry_step T V C (Moved g f) d = transport_moves g f d"

definition log_run ::
  "('t, 'z) mesh_transport_scheme \<Rightarrow> link_verifier \<Rightarrow> codec \<Rightarrow> 't entry list \<Rightarrow> 't daemon \<Rightarrow> 't daemon" where
  "log_run T V C log d = fold (entry_step T V C) log d"

text \<open>The lines of one connection in the log, each with its answer on the state it met.\<close>

fun transcript ::
  "('t, 'z) mesh_transport_scheme \<Rightarrow> link_verifier \<Rightarrow> codec \<Rightarrow> nat \<Rightarrow> 't entry list \<Rightarrow> 't daemon \<Rightarrow> (rstr \<times> rstr) list" where
  "transcript T V C i [] d = []"
| "transcript T V C i (e # log) d =
    (case e of
       Line j line mk \<Rightarrow> if j = i then [(line, fst (answer C (handle_request T mk V) line d))] else []
     | Moved g f \<Rightarrow> [])
    @ transcript T V C i log (entry_step T V C e d)"

fun entry_moved :: "'t entry \<Rightarrow> (rstr \<times> ('t \<Rightarrow> 't)) option" where
  "entry_moved (Moved g f) = Some (g, f)"
| "entry_moved _ = None"

text \<open>The turn in which an entry came about, and whether it is of one of the first \<open>n\<close> connections.\<close>

fun entry_turn :: "'t entry \<Rightarrow> 't turn" where
  "entry_turn (Line i line mk) = Turn i mk"
| "entry_turn (Moved g f) = Move g f"

fun entry_below :: "nat \<Rightarrow> 't entry \<Rightarrow> bool" where
  "entry_below n (Line i line mk) = (i < n)"
| "entry_below n (Moved g f) = True"

text \<open>What a connection has read: the first lines of a stream, and what is left.\<close>

fun reads :: "stream \<Rightarrow> rstr list \<Rightarrow> stream option" where
  "reads s [] = Some s"
| "reads s (l # ls) =
    (case read_capped_line MAX_LINE s of
       (Ok l', s') \<Rightarrow> if l' = l \<and> l \<noteq> [] then reads s' ls else None
     | (Err e, s') \<Rightarrow> None)"

text \<open>
  How a connection is served, given who connected, what they send and how many lines they take, and its
  transcript. It is not served at all, and told at most that it is unauthorized; or it comes from the
  daemon's own user, its first line carries the bearer, the lines it has sent since that are not blank
  are those of the transcript, and it was sent \<open>ready\<close> and the answers, as many as it takes, after
  which, once it is closed, there may be the refusal of a line that could not be read.
\<close>

definition conn_served ::
  "codec \<Rightarrow> rstr \<Rightarrow> 32 word \<Rightarrow> 32 word \<times> 32 word \<times> stream \<times> nat \<Rightarrow> (rstr \<times> rstr) list \<Rightarrow> conn \<Rightarrow> bool" where
  "conn_served C bearer euid client tr c \<longleftrightarrow>
    (case client of (rc, peer_uid, stream, room) \<Rightarrow>
      let sent = READY # map snd tr
      in (tr = [] \<and> cn_phase c = Closed \<and> cn_out c \<in> {[], [err_json C ''unauthorized'']})
       \<or> (tr = [] \<and> cn_phase c = Greeting \<and> cn_out c = [] \<and> rc = 0 \<and> peer_uid = euid
           \<and> cn_stream c = stream \<and> cn_room c = room)
       \<or> (rc = 0 \<and> peer_uid = euid
           \<and> (\<exists>auth ls s. authorized C auth bearer \<and> reads stream (auth # ls) = Some s
                \<and> map fst tr = filter (\<lambda>l. trim l \<noteq> []) ls
                \<and> (cn_phase c = Serving \<and> cn_stream c = s \<and> cn_out c = sent \<and> cn_room c + length sent = room
                   \<or> cn_phase c = Closed
                      \<and> cn_out c \<in> {take room sent, take room (sent @ [err_json C ''request too large''])}))))"

lemma log_run_snoc [simp]:
  "log_run T V C [] d = d"
  "log_run T V C (log @ [e]) d = entry_step T V C e (log_run T V C log d)"
  by (simp_all add: log_run_def)

lemma log_run_Cons: "log_run T V C (e # log) d = log_run T V C log (entry_step T V C e d)"
  by (simp add: log_run_def)

lemma transcript_snoc:
  "transcript T V C i (log @ [e]) d = transcript T V C i log d @ transcript T V C i [e] (log_run T V C log d)"
  by (induction log arbitrary: d) (simp_all add: log_run_Cons)

lemma transcript_other: "list_all (\<lambda>e. \<forall>line mk. e \<noteq> Line i line mk) log \<Longrightarrow> transcript T V C i log d = []"
  by (induction log arbitrary: d) (auto split: entry.splits)

lemma reads_append: "reads s (ls @ [l]) = Option.bind (reads s ls) (\<lambda>s'. reads s' [l])"
  by (induction ls arbitrary: s) (auto split: prod.splits sum.splits)

subsection \<open>One turn of one connection\<close>

lemma conn_served_start: "conn_served C bearer euid (rc, peer_uid, stream, room) []
    (conn_start euid rc peer_uid (conn_new stream room))"
  by (simp add: conn_served_def conn_start_def conn_new_def close_conn_def peer_uid_decision_def)

lemma conn_servedI:
  assumes "authorized C auth bearer" and "reads stream (auth # ls) = Some s"
    and "map fst tr = filter (\<lambda>l. trim l \<noteq> []) ls"
    and "cn_phase c = Serving \<and> cn_stream c = s \<and> cn_out c = READY # map snd tr
         \<and> cn_room c + length (READY # map snd tr) = room
       \<or> cn_phase c = Closed \<and> cn_out c \<in> {take room (READY # map snd tr),
           take room ((READY # map snd tr) @ [err_json C ''request too large''])}"
  shows "conn_served C bearer euid (0, euid, stream, room) tr c"
  unfolding conn_served_def prod.case Let_def using assms by blast

lemma greet_served:
  assumes "conn_served C bearer euid (rc, peer_uid, stream, room) tr c" and "cn_phase c = Greeting"
  shows "tr = [] \<and> conn_served C bearer euid (rc, peer_uid, stream, room) tr (greet C bearer c)"
proof -
  from assms have g: "tr = []" "cn_out c = []" "rc = 0" "peer_uid = euid" "cn_stream c = stream" "cn_room c = room"
    by (auto simp: conn_served_def Let_def)
  obtain r s where r: "read_capped_line MAX_LINE stream = (r, s)" by fastforce
  show ?thesis
  proof (cases "\<exists>line. r = Ok line \<and> line \<noteq> [] \<and> authorized C line bearer \<and> room \<noteq> 0")
    case True
    then obtain line where l: "r = Ok line" "line \<noteq> []" "authorized C line bearer" "room \<noteq> 0" by blast
    then have gr: "greet C bearer c =
        c\<lparr>cn_stream := s, cn_room := room - 1, cn_out := [READY], cn_timeout := None, cn_phase := Serving\<rparr>"
      using g r by (simp add: greet_def write_line_def)
    have rd: "reads stream [line] = Some s" using l r by simp
    have "conn_served C bearer euid (0, euid, stream, room) [] (greet C bearer c)"
      by (rule conn_servedI [OF l(3) rd]) (use l(4) in \<open>simp_all add: gr\<close>)
    with g show ?thesis by simp
  next
    case False
    then have "cn_phase (greet C bearer c) = Closed \<and> cn_out (greet C bearer c) \<in> {[], [err_json C ''unauthorized'']}"
      using g r by (auto simp: greet_def Let_def close_conn_def write_line_def split: sum.splits prod.splits)
    with g show ?thesis by (simp add: conn_served_def Let_def)
  qed
qed

lemma serve_line_served:
  assumes "conn_served C bearer euid client tr c" and "cn_phase c = Serving"
    and "serve_line C handle d c = (d', c')"
  shows "(d' = d \<and> conn_served C bearer euid client tr c')
    \<or> (\<exists>line. d' = snd (answer C handle line d)
         \<and> conn_served C bearer euid client (tr @ [(line, fst (answer C handle line d))]) c')"
proof -
  obtain rc peer_uid stream room where client: "client = (rc, peer_uid, stream, room)" by (cases client) auto
  from assms(1,2) client obtain auth ls where c: "rc = 0" "peer_uid = euid" "authorized C auth bearer"
    and rd: "reads stream (auth # ls) = Some (cn_stream c)" and tr: "map fst tr = filter (\<lambda>l. trim l \<noteq> []) ls"
    and out: "cn_out c = READY # map snd tr" and room: "cn_room c + length (READY # map snd tr) = room"
    by (auto simp: conn_served_def Let_def)
  have "client = (0, euid, stream, room)" using client c(1,2) by simp
  note servedI = conn_servedI [OF c(3), where stream = stream and room = room and euid = euid, folded this]
  obtain r s where r: "read_capped_line MAX_LINE (cn_stream c) = (r, s)" by fastforce
  let ?c1 = "c\<lparr>cn_stream := s\<rparr>"
  have step: "reads stream (auth # ls @ [line]) = Some s" if "r = Ok line" "line \<noteq> []" for line
    using rd r that reads_append [of stream "auth # ls" line] by simp
  show ?thesis
  proof (cases r)
    case (Inl e)
    then have d: "d' = d" and c': "cn_phase c' = Closed"
        "cn_out c' = READY # map snd tr \<or> cn_out c' = take room ((READY # map snd tr) @ [err_json C ''request too large''])"
      using assms(3) out room
      by (auto simp: serve_line_def r Let_def close_conn_def write_line_def split: if_splits)
    moreover have "take room (READY # map snd tr) = READY # map snd tr" using room by (intro take_all) simp
    ultimately have "conn_served C bearer euid client tr c'" by (intro servedI [OF rd tr]) auto
    with d show ?thesis by blast
  next
    case (Inr line)
    consider (eof) "line = []" | (blank) "line \<noteq> []" "trim line = []" | (request) "line \<noteq> []" "trim line \<noteq> []" by blast
    then show ?thesis
    proof cases
      case eof
      then have "d' = d" "cn_phase c' = Closed" "cn_out c' = READY # map snd tr"
        using assms(3) out by (auto simp: serve_line_def r Inr close_conn_def)
      moreover have "take room (READY # map snd tr) = READY # map snd tr" using room by (intro take_all) simp
      ultimately have "conn_served C bearer euid client tr c'" by (intro servedI [OF rd tr]) auto
      with \<open>d' = d\<close> show ?thesis by blast
    next
      case blank
      then have "d' = d" "c' = ?c1" using assms(3) by (auto simp: serve_line_def r Inr)
      moreover have "conn_served C bearer euid client tr ?c1"
        by (rule servedI [OF step [OF Inr blank(1)]]) (use blank tr out room assms(2) in auto)
      ultimately show ?thesis by blast
    next
      case request
      obtain o1 where a: "answer C handle line d = (o1, d')"
        and c': "c' = (if cn_room c = 0 then close_conn ?c1 else ?c1\<lparr>cn_room := cn_room c - 1, cn_out := cn_out c @ [o1]\<rparr>)"
        using assms(3) request by (auto simp: serve_line_def r Inr Let_def write_line_def split: prod.splits if_splits)
      have "conn_served C bearer euid client (tr @ [(line, o1)]) c'"
      proof (rule servedI [OF step [OF Inr request(1)]])
        show "map fst (tr @ [(line, o1)]) = filter (\<lambda>l. trim l \<noteq> []) (ls @ [line])" using tr request(2) by simp
      qed (use out room assms(2) in \<open>auto simp: c' close_conn_def\<close>)
      with a show ?thesis by (intro disjI2 exI [of _ line]) simp
    qed
  qed
qed

lemma conn_step_served:
  assumes "conn_served C bearer euid client tr c" and "conn_step C bearer handle d c = (d', c')"
  shows "(d' = d \<and> conn_served C bearer euid client tr c')
    \<or> (\<exists>line. d' = snd (answer C handle line d)
         \<and> conn_served C bearer euid client (tr @ [(line, fst (answer C handle line d))]) c')"
proof (cases "cn_phase c")
  case Greeting
  with assms greet_served show ?thesis by (cases client) (auto simp: conn_step_def)
next
  case Serving
  with assms serve_line_served [OF assms(1) Serving] show ?thesis by (simp add: conn_step_def)
next
  case Closed
  with assms show ?thesis by (simp add: conn_step_def)
qed

subsection \<open>The log of a schedule\<close>

text \<open>What a log has to do with a schedule and the state of the server that the schedule leads to.\<close>

definition logged ::
  "('t, 'z) mesh_transport_scheme \<Rightarrow> link_verifier \<Rightarrow> codec \<Rightarrow> rstr \<Rightarrow> 32 word \<Rightarrow> 't turn list \<Rightarrow> 't daemon
    \<Rightarrow> 't entry list \<Rightarrow> 't server \<Rightarrow> bool" where
  "logged T V C bearer euid sched d log s \<longleftrightarrow>
    sv_daemon s = log_run T V C log d
    \<and> subseq (map entry_turn log) sched \<and> list_all (entry_below (length (clients sched))) log
    \<and> List.map_filter entry_moved log = List.map_filter moved sched
    \<and> length (sv_conns s) = length (clients sched)
    \<and> (\<forall>i<length (clients sched).
         conn_served C bearer euid (clients sched ! i) (transcript T V C i log d) (sv_conns s ! i))"

lemma entry_below_mono: "list_all (entry_below m) log \<Longrightarrow> m \<le> n \<Longrightarrow> list_all (entry_below n) log"
  by (induction log) (auto elim!: entry_below.elims)

lemma map_filter_snoc: "List.map_filter f (xs @ [x]) = List.map_filter f xs @ (case f x of None \<Rightarrow> [] | Some y \<Rightarrow> [y])"
  by (simp add: List.map_filter_def split: option.splits)

lemma logged_step:
  assumes "logged T V C bearer euid sched d log s"
  shows "\<exists>log'. logged T V C bearer euid (sched @ [t]) d log' (sched_step T V C bearer euid t s)"
proof -
  have l: "sv_daemon s = log_run T V C log d" "subseq (map entry_turn log) sched" "list_all (entry_below (length (clients sched))) log"
      "List.map_filter entry_moved log = List.map_filter moved sched" "length (sv_conns s) = length (clients sched)"
    and served: "i < length (clients sched) \<Longrightarrow>
      conn_served C bearer euid (clients sched ! i) (transcript T V C i log d) (sv_conns s ! i)" for i
    using assms by (simp_all add: logged_def)
  have l2: "list_all (entry_below (length (clients (sched @ [t])))) log" "subseq (map entry_turn log) (sched @ [t])"
      "subseq (map entry_turn log @ [t]) (sched @ [t])"
    using l(2) entry_below_mono [OF l(3)] by (auto intro: list_emb_append_mono)
  show ?thesis
  proof (cases t)
    case (Accept rc peer_uid stream room)
    let ?n = "length (clients sched)"
    have "transcript T V C ?n log d = []"
      using l(3) by (intro transcript_other) (fastforce simp: list_all_iff)
    then have "logged T V C bearer euid (sched @ [t]) d log (sched_step T V C bearer euid t s)"
      using l l2 served conn_served_start [of C bearer euid rc peer_uid stream room]
      by (auto simp: logged_def Accept map_filter_snoc nth_append less_Suc_eq)
    then show ?thesis by blast
  next
    case (Move g f)
    have "logged T V C bearer euid (sched @ [t]) d (log @ [Moved g f]) (sched_step T V C bearer euid t s)"
      using l l2 served by (simp add: logged_def Move map_filter_snoc transcript_snoc)
    then show ?thesis by blast
  next
    case (Turn i mk)
    show ?thesis
    proof (cases "i < length (clients sched)")
      case True
      obtain d' c' where c: "conn_step C bearer (handle_request T mk V) (sv_daemon s) (sv_conns s ! i) = (d', c')"
        by fastforce
      have s': "sched_step T V C bearer euid t s = s\<lparr>sv_daemon := d', sv_conns := (sv_conns s)[i := c']\<rparr>"
        using True l(5) by (simp add: Turn c)
      have upd: "(sv_conns s)[i := c'] ! j = (if j = i then c' else sv_conns s ! j)" for j
        using True l(5) by (simp add: nth_list_update)
      from conn_step_served [OF served [OF True] c] show ?thesis
      proof
        assume "d' = sv_daemon s \<and> conn_served C bearer euid (clients sched ! i) (transcript T V C i log d) c'"
        then have "logged T V C bearer euid (sched @ [t]) d log (sched_step T V C bearer euid t s)"
          unfolding s' using l l2 served by (auto simp: logged_def Turn map_filter_snoc upd)
        then show ?thesis by blast
      next
        assume "\<exists>line. d' = snd (answer C (handle_request T mk V) line (sv_daemon s))
          \<and> conn_served C bearer euid (clients sched ! i)
              (transcript T V C i log d @ [(line, fst (answer C (handle_request T mk V) line (sv_daemon s)))]) c'"
        then obtain line where d': "d' = snd (answer C (handle_request T mk V) line (sv_daemon s))"
          and c': "conn_served C bearer euid (clients sched ! i)
              (transcript T V C i log d @ [(line, fst (answer C (handle_request T mk V) line (sv_daemon s)))]) c'" by blast
        have "logged T V C bearer euid (sched @ [t]) d (log @ [Line i line mk]) (sched_step T V C bearer euid t s)"
          unfolding s' using l l2 served True d' c'
          by (auto simp: logged_def Turn map_filter_snoc transcript_snoc upd)
        then show ?thesis by blast
      qed
    next
      case False
      have "logged T V C bearer euid (sched @ [t]) d log (sched_step T V C bearer euid t s)"
        using l l2 served False by (simp add: logged_def Turn map_filter_snoc)
      then show ?thesis by blast
    qed
  qed
qed

lemma sched_logged: "\<exists>log. logged T V C bearer euid sched d log (sched_run T V C bearer euid sched d)"
proof (induction sched rule: rev_induct)
  case Nil
  show ?case by (intro exI [of _ "[]"]) (simp add: logged_def List.map_filter_def)
next
  case (snoc t sched)
  then obtain log where "logged T V C bearer euid sched d log (sched_run T V C bearer euid sched d)" by blast
  from logged_step [OF this] show ?case by simp
qed

text \<open>C17. The server does what a daemon with one queue would do. Its reachable states are those that the
  schedules lead to; and for every schedule, however the turns of the connections and the moves of the
  transports interleave, there is a log of lines and of those moves, in the order of their turns, such
  that the daemon is in the state that answering the lines of the log one after the other leads to; and
  every connection either has not been served, or comes from the daemon's own user, has opened with the
  bearer, has exactly the non-blank lines that it sent since then in the log, once each and in their
  order, and was sent \<open>ready\<close> and the answers that these lines got in the log.\<close>

theorem server_runs_daemon:
  "((server_step T F M V C bearer euid)\<^sup>*\<^sup>* \<lparr>sv_daemon = d, sv_conns = []\<rparr> s \<longleftrightarrow>
     (\<exists>sched. list_all (turn_ok F M) sched \<and> s = sched_run T V C bearer euid sched d))
   \<and> (let s = sched_run T V C bearer euid sched d
      in \<exists>log. sv_daemon s = log_run T V C log d
        \<and> subseq (map entry_turn log) sched \<and> list_all (entry_below (length (clients sched))) log
        \<and> List.map_filter entry_moved log = List.map_filter moved sched
        \<and> length (sv_conns s) = length (clients sched)
        \<and> (\<forall>i<length (clients sched).
             conn_served C bearer euid (clients sched ! i) (transcript T V C i log d) (sv_conns s ! i)))"
  using server_reach_sched sched_logged [of T V C bearer euid sched d] unfolding logged_def Let_def by blast

text \<open>A client that sends the bearer and one request, after two turns of its connection.\<close>

lemma sample_sched:
  defines "s \<equiv> sched_run in_process stub_verifier stub_codec ''t'' 0
    [Accept 0 0 sample_stream 2, Turn 0 sample_factory, Turn 0 sample_factory] (daemon_with_factory [])"
  shows "length (sv_conns s) = 1" and "cn_phase (sv_conns s ! 0) = Serving"
    and "cn_out (sv_conns s ! 0) = [READY, ''ok'']"
proof -
  let ?h = "handle_request in_process sample_factory stub_verifier"
    and ?d = "daemon_with_factory [] :: in_process_transport daemon"
  have "trim ''g'' = ''g''" by (rule trim_graphic) (simp add: is_ascii_graphic_def)
  then obtain d' where "?h (ReqJoin ''g'') ?d = (RespOk, d')"
    by (simp add: daemon_join_def ensure_group_allowed_def daemon_with_factory_def ensure_session_def
        MAX_GROUPS_def sample_factory_def ok_or_def respond_def)
  moreover have "trim (''j'' @ [LF]) \<noteq> []" "cd_parse_request stub_codec (trim (''j'' @ [LF])) = Ok (ReqJoin ''g'')"
    unfolding sample_lines(4) by (simp_all add: stub_codec_def)
  ultimately obtain c' where c': "serve_line stub_codec ?h ?d sample_conn = (d', c')"
      "cn_phase c' = Serving" "cn_out c' = [READY, wire_answer stub_codec (WireResponse RespOk)]"
    using serve_wire_line [OF sample_lines(2), where bs = "[]" and e = None and n = 0 and out = "[READY]" and t = None
        and handle = ?h and C = stub_codec and d = ?d]
    by (simp add: sample_conn_def)
  have "cn_phase (conn_start 0 0 0 (conn_new sample_stream 2)) = Greeting" "cn_phase sample_conn = Serving"
    by (simp_all add: conn_start_def conn_new_def peer_uid_decision_def sample_conn_def)
  with c'(1) have "s = \<lparr>sv_daemon = d', sv_conns = [c']\<rparr>"
    by (simp add: s_def sched_run_def conn_step_def sample_greet)
  with c'(2,3) show "length (sv_conns s) = 1" "cn_phase (sv_conns s ! 0) = Serving"
      "cn_out (sv_conns s ! 0) = [READY, ''ok'']"
    by (simp_all add: wire_answer_def stub_codec_def)
qed

lemma sample_reads: "reads sample_stream (auth # l # ls) = Some s \<Longrightarrow> l = ''j'' @ [LF] \<and> ls = []"
proof -
  have "read_capped_line MAX_LINE sample_stream = (Ok (''t'' @ [LF]), \<lparr>st_bytes = ''j'' @ [LF], st_end = None\<rparr>)"
    using read_wire_line [OF sample_lines(1), of "''j'' @ [LF]" None] by (simp add: sample_stream_def)
  moreover have "read_capped_line MAX_LINE \<lparr>st_bytes = ''j'' @ [LF], st_end = None\<rparr> =
      (Ok (''j'' @ [LF]), \<lparr>st_bytes = [], st_end = None\<rparr>)"
    using read_wire_line [OF sample_lines(2), of "[]" None] by simp
  moreover have "read_capped_line MAX_LINE \<lparr>st_bytes = [], st_end = None\<rparr> = (Ok [], \<lparr>st_bytes = [], st_end = None\<rparr>)"
    by (simp add: read_capped_line_def MAX_LINE_def utf8_valid_ascii ends_with_newline_def Let_def)
  ultimately show "reads sample_stream (auth # l # ls) = Some s \<Longrightarrow> l = ''j'' @ [LF] \<and> ls = []"
    by (cases ls) (auto split: if_splits)
qed

theorem server_runs_daemon_witness:
  "\<exists>log. transcript in_process stub_verifier stub_codec 0 log (daemon_with_factory []) = [(''j'' @ [LF], ''ok'')]"
proof -
  let ?sched = "[Accept 0 0 sample_stream 2, Turn 0 sample_factory, Turn 0 sample_factory]"
  let ?s = "sched_run in_process stub_verifier stub_codec ''t'' 0 ?sched (daemon_with_factory [])"
  let ?tr = "\<lambda>log. transcript in_process stub_verifier stub_codec 0 log (daemon_with_factory [])"
  have "clients ?sched = [(0, 0, sample_stream, 2)]" by (simp add: clients_def List.map_filter_def)
  with server_runs_daemon [of in_process UNIV UNIV stub_verifier stub_codec "''t''" 0 "daemon_with_factory []" ?s ?sched]
  obtain log where "conn_served stub_codec ''t'' 0 (0, 0, sample_stream, 2) (?tr log) (sv_conns ?s ! 0)"
    by (auto simp: Let_def)
  then obtain auth ls s where r: "reads sample_stream (auth # ls) = Some s"
      "map fst (?tr log) = filter (\<lambda>l. trim l \<noteq> []) ls" and out: "map snd (?tr log) = [''ok'']"
    using sample_sched by (auto simp: conn_served_def Let_def)
  then obtain l ls' where "ls = l # ls'" by (cases ls) auto
  with r sample_reads [of auth l ls' s] have "map fst (?tr log) = [''j'' @ [LF]]" using sample_lines(4) out by auto
  with out have "?tr log = [(''j'' @ [LF], ''ok'')]" by (cases "?tr log") auto
  then show ?thesis ..
qed

end
