(* ===== verification/Wire_Refinement.thy ===== *)
theory Wire_Refinement
  imports Served
begin

section \<open>The formal model of admission on the wire\<close>

text \<open>
  \<open>formal/ClusterWireAdmission.tla\<close> as a step relation over the allowed, the authorized and the connected
  set, and the session of a group over its libp2p swarm as another, of which it is an abstraction: roster
  updates are \<open>SetRoster\<close>, the end of \<open>identify\<close> is \<open>Connect\<close>, a closed connection is \<open>Drop\<close>, and
  everything else leaves the three sets as they are. The formal model takes \<open>identify\<close> in one step;
  the code does so under two locks, so the refinement is stated for runs in which no roster update falls
  between the two.
\<close>

subsection \<open>The abstract machine\<close>

type_synonym wa_state = "rstr fset \<times> rstr fset \<times> rstr fset"

inductive wa_step :: "wa_state \<Rightarrow> wa_state \<Rightarrow> bool" where
  wa_set_roster: "wa_step (al, au, w) (na, na, w |\<inter>| na)"
| wa_connect: "p |\<in>| au \<Longrightarrow> wa_step (al, au, w) (al, au, finsert p w)"
| wa_drop: "p |\<in>| w \<Longrightarrow> wa_step (al, au, w) (al, au, w |-| {|p|})"

definition wa_safe :: "wa_state \<Rightarrow> bool" where
  "wa_safe s \<longleftrightarrow> (case s of (al, au, w) \<Rightarrow> au = al \<and> w |\<subseteq>| al)"

lemma wa_step_safe: "wa_step s s' \<Longrightarrow> wa_safe s \<Longrightarrow> wa_safe s'"
  by (induction rule: wa_step.induct) (auto simp: wa_safe_def)

lemma wa_steps_safe: "wa_step\<^sup>*\<^sup>* s s' \<Longrightarrow> wa_safe s \<Longrightarrow> wa_safe s'"
  by (induction rule: rtranclp_induct) (auto intro: wa_step_safe)

lemma wa_drops: "wa_step\<^sup>*\<^sup>* (al, au, w) (al, au, w |-| {|a|})"
proof (cases "a |\<in>| w")
  case True
  then show ?thesis by (intro r_into_rtranclp wa_drop)
next
  case False
  then have "w |-| {|a|} = w" by auto
  then show ?thesis by simp
qed

subsection \<open>The session over its swarm\<close>

inductive mesh_step ::
  "('k, 's, 'p::linorder) peer_keys \<Rightarrow> 'p \<Rightarrow> 'p swarm mesh_transport
    \<Rightarrow> 'p swarm cluster_session \<Rightarrow> 'p swarm cluster_session \<Rightarrow> bool" for K l T where
  mesh_roster: "sw_pending (s_transport s) = NoPending \<Longrightarrow> mesh_step K l T s (roster_session T roster s)"
| mesh_join: "mesh_step K l T s (snd (session_join T address role s))"
| mesh_sync: "mesh_step K l T s (sync_admitted_from_wire T s)"
| mesh_move: "swarm_step K l (s_transport s) t \<Longrightarrow> sw_authorized t = sw_authorized (s_transport s) \<Longrightarrow>
    mesh_step K l T s (s\<lparr>s_transport := t\<rparr>)"

definition wire_view :: "'p swarm cluster_session \<Rightarrow> wa_state" where
  "wire_view s = (mem_allowed (s_membership s), sw_authorized (s_transport s), sw_connected (s_transport s))"

text \<open>What is in flight is authorized, and so is what is connected.\<close>

definition flight_ok :: "'p swarm \<Rightarrow> bool" where
  "flight_ok t \<longleftrightarrow> sw_connected t |\<subseteq>| sw_authorized t
    \<and> (\<forall>a. sw_pending t = PendingConnected a \<longrightarrow> a |\<in>| sw_authorized t)"

lemma on_identify_flight:
  "sw_connected (on_identify K p key t) = sw_connected t"
  "sw_pending t = NoPending \<Longrightarrow> sw_pending (on_identify K p key t) = PendingConnected a \<Longrightarrow> a |\<in>| sw_authorized t"
  by (auto simp: on_identify_def Let_def disconnect_peer_id_def gate_peer_def ungate_peer_def
      split: option.splits if_splits)

lemma quiet_arms:
  "sw_connected (on_sweep now t) = sw_connected t" "sw_pending (on_sweep now t) = sw_pending t"
  "sw_connected (on_redial K t) = sw_connected t" "sw_pending (on_redial K t) = sw_pending t"
  "sw_connected (on_cmd c t) = sw_connected t" "sw_connected (on_established now p t) = sw_connected t"
  "sw_pending (on_established now p t) = sw_pending t"
  "sw_connected (on_discovered K l found t) = sw_connected t" "sw_pending (on_discovered K l found t) = sw_pending t"
  "sw_connected (on_expired gone t) = sw_connected t" "sw_pending (on_expired gone t) = sw_pending t"
proof -
  show "sw_connected (on_cmd c t) = sw_connected t" by (cases c) (simp_all add: swarm_dial_def fold_disconnect)
  show "sw_connected (on_redial K t) = sw_connected t" "sw_pending (on_redial K t) = sw_pending t"
    using on_redial_eq [of K t] by auto
  show "sw_connected (on_discovered K l found t) = sw_connected t" "sw_pending (on_discovered K l found t) = sw_pending t"
    using on_discovered_eq [of K l found t] by auto
qed (simp_all add: on_sweep_eq Let_def on_established_def gate_peer_def on_expired_def)

lemma swarm_step_wire:
  assumes "swarm_step K l t t'" and "sw_authorized t' = sw_authorized t" and "flight_ok t"
  shows "wa_step\<^sup>*\<^sup>* (al, sw_authorized t, sw_connected t) (al, sw_authorized t, sw_connected t') \<and> flight_ok t'"
  using assms(1)
proof cases
  case (surface_disconnect peer)
  show ?thesis
  proof (cases "canonical_address peer")
    case (Some a)
    with assms(3) surface_disconnect assms(2) show ?thesis
      using wa_drops by (auto simp: flight_ok_def lt_disconnect_def send_cmd_def)
  qed (use surface_disconnect assms(3) in \<open>simp add: lt_disconnect_def\<close>)
next
  case task_pending
  show ?thesis
  proof (cases "sw_pending t")
    case (PendingConnected a)
    with assms(3) task_pending show ?thesis
      by (auto simp: flight_ok_def intro: r_into_rtranclp wa_connect)
  qed (use task_pending assms(3) in \<open>simp_all add: flight_ok_def\<close>)
next
  case (task_identify p key)
  with on_identify_flight [where K = K and p = p and key = key and t = t] assms(2,3) show ?thesis by (auto simp: flight_ok_def)
next
  case (task_closed p)
  show ?thesis
  proof (cases "fmlookup (sw_peer_addr t) p")
    case None
    with task_closed assms(3) show ?thesis by (simp add: on_closed_def Let_def flight_ok_def)
  next
    case (Some a)
    with task_closed assms(3) wa_drops show ?thesis by (auto simp: on_closed_def Let_def flight_ok_def)
  qed
next
  case (task_message topic source bytes)
  then have "sw_pending t' \<noteq> PendingConnected a" for a
    by (simp add: on_message_def split: option.splits)
  with task_message assms(2,3) show ?thesis by (simp add: flight_ok_def on_message_fields)
next
  case (surface_add_peers parse addrs)
  with assms(3) show ?thesis by (auto simp: flight_ok_def lt_add_peers_def fold_send_dial split: sum.splits)
qed (use assms(2,3) in \<open>auto simp: flight_ok_def quiet_arms on_cmd_keeps lt_dial_def lt_publish_def lt_drain_def send_cmd_def
    split: option.splits\<close>)

text \<open>A roster update is \<open>SetRoster\<close>.\<close>

lemma fold_lt_disconnect:
  assumes "\<forall>p\<in>set ps. is_canonical p"
  shows "sw_connected (fold lt_disconnect ps t) = sw_connected t |-| fset_of_list ps
    \<and> sw_pending (fold lt_disconnect ps t) = sw_pending t"
  using assms
proof (induction ps arbitrary: t)
  case (Cons p ps)
  have "sw_connected (lt_disconnect p t) = sw_connected t |-| {|p|} \<and> sw_pending (lt_disconnect p t) = sw_pending t"
    using Cons.prems by (simp add: lt_disconnect_def canonical_address_fixed send_cmd_def)
  moreover have "sw_connected t |-| {|p|} |-| fset_of_list ps = sw_connected t |-| fset_of_list (p # ps)" by auto
  ultimately show ?case using Cons by simp
qed simp

lemma roster_session_wire:
  assumes "lt.wire_exact s" and "sw_connected (s_transport s) |\<subseteq>| sw_authorized (s_transport s)"
  shows "sw_connected (s_transport (roster_session (libp2p_transport parse to_string l) roster s)) =
      sw_connected (s_transport s) |\<inter>| allowed_set roster"
    and "sw_pending (s_transport (roster_session (libp2p_transport parse to_string l) roster s)) = sw_pending (s_transport s)"
proof -
  let ?m = "s_membership s" and ?new = "allowed_set roster"
  let ?t1 = "fold lt_disconnect (sorted_list_of_fset (mem_admitted ?m |-| ?new)) (s_transport s)"
  let ?t2 = "fold lt_disconnect (sorted_list_of_fset (mem_allowed ?m |-| ?new)) ?t1"
  have ok: "membership_ok ?m" "sw_authorized (s_transport s) = mem_allowed ?m"
    using assms(1) by (simp_all add: lt.wire_exact_def lt.wire_ok_def)
  then have "\<forall>p\<in>set (sorted_list_of_fset (mem_admitted ?m |-| ?new)). is_canonical p"
      "\<forall>p\<in>set (sorted_list_of_fset (mem_allowed ?m |-| ?new)). is_canonical p"
    by (auto simp: membership_ok_def invariant_holds_def)
  note d = fold_lt_disconnect [OF this(1), of "s_transport s"] fold_lt_disconnect [OF this(2), of ?t1]
  have t2: "sw_connected ?t2 = sw_connected (s_transport s) |-| (mem_admitted ?m |-| ?new) |-| (mem_allowed ?m |-| ?new)"
    using d by simp
  obtain A where A: "fold lt_dial (sorted_list_of_fset ?new) ?t2 = ?t2\<lparr>sw_authorized := A\<rparr>" using fold_lt_dial by blast
  have "sw_connected (s_transport (roster_session (libp2p_transport parse to_string l) roster s)) = sw_connected ?t2"
    by (simp add: roster_session_def A)
  also have "\<dots> = sw_connected (s_transport s) |\<inter>| ?new" unfolding t2 using assms(2) ok(2) by auto
  finally show "sw_connected (s_transport (roster_session (libp2p_transport parse to_string l) roster s)) =
      sw_connected (s_transport s) |\<inter>| ?new" .
  show "sw_pending (s_transport (roster_session (libp2p_transport parse to_string l) roster s)) = sw_pending (s_transport s)"
    using d by (simp add: roster_session_def A)
qed

lemma join_wire:
  assumes "lt.wire_exact s"
  shows "s_transport (snd (session_join (libp2p_transport parse to_string l) address role s)) = s_transport s"
proof (cases "fst (membership_join address role (s_membership s))")
  case True
  then obtain a where a: "canonical_address address = Some a" "a |\<in>| mem_allowed (s_membership s)"
    by (auto simp: membership_join_True_iff admit_def split: option.splits)
  moreover have "sw_authorized (s_transport s) = mem_allowed (s_membership s)"
    using assms by (simp add: lt.wire_exact_def)
  ultimately have "finsert a (sw_authorized (s_transport s)) = sw_authorized (s_transport s)" by auto
  with True a(1) show ?thesis
    by (simp add: session_simps lt_dial_def canonical_address_fixed canonical_address_canonical)
next
  case False
  then show ?thesis by (simp add: session_simps)
qed

lemma mesh_step_refines:
  assumes "mesh_step K l (libp2p_transport parse to_string l) s s'" and "lt.wire_exact s" and "flight_ok (s_transport s)"
  shows "wa_step\<^sup>*\<^sup>* (wire_view s) (wire_view s') \<and> lt.wire_exact s' \<and> flight_ok (s_transport s')"
  using assms(1)
proof cases
  case (mesh_roster roster)
  have c: "sw_connected (s_transport s) |\<subseteq>| sw_authorized (s_transport s)" using assms(3) by (simp add: flight_ok_def)
  have e: "lt.wire_exact s'" unfolding mesh_roster(1) using lt.session_invD(2) [OF lt.wire_exact_inv assms(2)] .
  have m: "mem_allowed (s_membership s') = allowed_set roster" by (simp add: mesh_roster(1) membership_simps)
  with e have v: "wire_view s' = (allowed_set roster, allowed_set roster, sw_connected (s_transport s) |\<inter>| allowed_set roster)"
    by (simp add: wire_view_def lt.wire_exact_def mesh_roster(1) roster_session_wire(1) [OF assms(2) c])
  have "flight_ok (s_transport s')"
    using e m mesh_roster(2) roster_session_wire [OF assms(2) c] by (simp add: flight_ok_def lt.wire_exact_def mesh_roster(1))
  with e v wa_set_roster show ?thesis by (auto simp: wire_view_def)
next
  case (mesh_join address role)
  have "lt.wire_exact s'" unfolding mesh_join using lt.session_invD(3) [OF lt.wire_exact_inv assms(2)] .
  moreover have "s_transport s' = s_transport s" unfolding mesh_join by (rule join_wire [OF assms(2)])
  moreover have "mem_allowed (s_membership s') = mem_allowed (s_membership s)"
    by (simp add: mesh_join session_simps membership_simps)
  ultimately show ?thesis using assms(3) by (simp add: wire_view_def)
next
  case mesh_sync
  have "lt.wire_exact s'" unfolding mesh_sync using lt.session_invD(4) [OF lt.wire_exact_inv assms(2)] .
  with assms(3) show ?thesis by (simp add: wire_view_def mesh_sync session_simps membership_simps)
next
  case (mesh_move t)
  have "lt.wire_exact s'" unfolding mesh_move(1)
    by (rule lt.session_invD(5) [OF lt.wire_exact_inv assms(2)]) (simp_all add: mesh_move(3))
  with swarm_step_wire [OF mesh_move(2,3) assms(3)] show ?thesis by (simp add: wire_view_def mesh_move(1,3))
qed

lemma mesh_steps_refine:
  assumes "(mesh_step K l (libp2p_transport parse to_string l))\<^sup>*\<^sup>* (session_new [] (swarm_init topic_hash bootstrap listeners)) s"
  shows "wa_step\<^sup>*\<^sup>* ({||}, {||}, {||}) (wire_view s) \<and> lt.wire_exact s \<and> flight_ok (s_transport s)"
  using assms
proof (induction rule: rtranclp_induct)
  case base
  show ?case by (simp add: wire_view_def lt.wire_exact_def lt.wire_ok_new flight_ok_def session_simps membership_simps swarm_init_def)
next
  case (step s s')
  then show ?case using mesh_step_refines [OF step.hyps(2)] by (meson rtranclp_trans)
qed

text \<open>C9. The libp2p wire refines the formal model: as long as no roster update falls between the two
  critical sections of an \<open>identify\<close>, whatever rosters, joins and steps of the swarm follow one another,
  the allowed, the authorized and the connected set of a session run as
  \<open>formal/ClusterWireAdmission.tla\<close> lets them, and so the authorized peers are the allowed ones and the
  connected ones are among them.\<close>

theorem mesh_refines_formal:
  assumes "(mesh_step K l (libp2p_transport parse to_string l))\<^sup>*\<^sup>* (session_new [] (swarm_init topic_hash bootstrap listeners)) s"
  shows "wa_step\<^sup>*\<^sup>* ({||}, {||}, {||}) (wire_view s)
    \<and> sw_authorized (s_transport s) = mem_allowed (s_membership s)
    \<and> sw_connected (s_transport s) |\<subseteq>| mem_allowed (s_membership s)"
proof -
  note r = mesh_steps_refine [OF assms]
  have "wa_safe (wire_view s)" by (rule wa_steps_safe [OF conjunct1 [OF r]]) (simp add: wa_safe_def)
  with r show ?thesis by (simp add: wa_safe_def wire_view_def)
qed

text \<open>The run of the peer that connects.\<close>

lemma mesh_moves:
  assumes "list_all (\<lambda>f. f \<in> task_moves K l) fs"
  shows "(mesh_step K l T)\<^sup>*\<^sup>* s (s\<lparr>s_transport := fold (\<lambda>f. f) fs (s_transport s)\<rparr>)"
  using assms
proof (induction fs arbitrary: s)
  case (Cons f fs)
  let ?t = "f (s_transport s)"
  have "?t = s_transport s \<or> swarm_step K l (s_transport s) ?t \<and> sw_authorized ?t = sw_authorized (s_transport s)"
    using Cons.prems by (simp add: task_moves_def)
  then have "(mesh_step K l T)\<^sup>*\<^sup>* s (s\<lparr>s_transport := ?t\<rparr>)" by (auto intro: r_into_rtranclp mesh_move)
  moreover have "(mesh_step K l T)\<^sup>*\<^sup>* (s\<lparr>s_transport := ?t\<rparr>) (s\<lparr>s_transport := fold (\<lambda>f. f) (f # fs) (s_transport s)\<rparr>)"
    using Cons.IH [of "s\<lparr>s_transport := ?t\<rparr>"] Cons.prems by simp
  ultimately show ?case by (rule rtranclp_trans)
qed simp

theorem mesh_refines_formal_witness:
  "\<exists>s :: nat swarm cluster_session. addr_of ''a1'' |\<in>| sw_connected (s_transport s) \<and> wa_step\<^sup>*\<^sup>* ({||}, {||}, {||}) (wire_view s)
    \<and> sw_connected (s_transport s) |\<subseteq>| mem_allowed (s_membership s)"
proof -
  let ?T = "libp2p_transport (\<lambda>text. case nl_parse stub_libs text of Ok ma \<Rightarrow> Some ma | Err _ \<Rightarrow> None) (nl_show stub_libs) 0"
  let ?init = "session_new [] (swarm_init ''g'' [] [[Tcp 0]]) :: nat swarm cluster_session"
  let ?s = "sample_session\<lparr>s_transport := fold (\<lambda>f. f) sample_moves (s_transport sample_session)\<rparr>"
  have "mesh_step stub_keys 0 ?T ?init sample_session"
    unfolding sample_session_def booted_transport_def by (rule mesh_roster) (simp add: session_simps swarm_init_def)
  then have "(mesh_step stub_keys 0 ?T)\<^sup>*\<^sup>* ?init ?s"
    using mesh_moves [OF sample_moves_task, of ?T sample_session] by (rule converse_rtranclp_into_rtranclp)
  note mesh_refines_formal [OF this]
  moreover have "sw_running (s_transport sample_session)" "sw_pending (s_transport sample_session) = NoPending"
      "addr_of ''a1'' |\<in>| sw_authorized (s_transport sample_session)"
    using sample_session_wire(3) by (simp_all add: sample_session_wire(1) swarm_init_def)
  note sample_connects(2) [OF this]
  ultimately have "addr_of ''a1'' |\<in>| sw_connected (s_transport ?s) \<and> wa_step\<^sup>*\<^sup>* ({||}, {||}, {||}) (wire_view ?s)
      \<and> sw_connected (s_transport ?s) |\<subseteq>| mem_allowed (s_membership ?s)" by simp
  then show ?thesis by (rule exI)
qed

end
