(* ===== verification/Fixture.thy ===== *)
theory Fixture
  imports Wire
begin

section \<open>The fleet of the soak runs\<close>

text \<open>
  \<open>crates/cluster-daemon/examples/devicelink_fixture.rs\<close>: the signing side of device links, which the
  daemon itself does not have. It mints fresh keys for members, wallets and devices, signs a link and a
  revocation for every device and writes them to files. The random source is the list of the 32-byte
  blocks still to be read from it; whether a file can be written is a parameter, and so is signing,
  which comes from \<open>k256\<close>. The JSON text of a file is left out: a file holds the values that are
  printed. Files written before an error stay, but an error ends the program and only the error is kept.
\<close>

record ('k, 'v) signer =
  sg_from_slice :: "rstr \<Rightarrow> 'k option"
  sg_verifying_key :: "'k \<Rightarrow> 'v"
  sg_sign_prehash :: "'k \<Rightarrow> rstr \<Rightarrow> (rstr \<times> 8 word) option"
  sg_to_bytes :: "'k \<Rightarrow> rstr"

datatype fixture_error =
    Usage
  | BadCounts
  | OutExists rstr
  | CreateDir
  | NoRandom
  | LinkInvalid
  | RevocationInvalid
  | SignFailed
  | WriteFailed rstr

datatype fixture_file =
    RevocationFile "revocation_wire list"
  | SeedFile rstr
  | RosterFile roster
  | LinksFile "device_link_wire list"
  | FleetFile "64 word" "(rstr \<times> (rstr \<times> rstr \<times> rstr) list) list"

record fixture =
  fx_rand :: "rstr list"
  fx_roster :: roster
  fx_links :: "device_link_wire list"
  fx_summary :: "(rstr \<times> (rstr \<times> rstr \<times> rstr) list) list"
  fx_files :: "(rstr \<times> fixture_file \<times> nat) list"

subsection \<open>Keys, signatures and files\<close>

fun fresh_key :: "('k, 'v) signer \<Rightarrow> rstr list \<Rightarrow> ('k \<times> rstr list) option" where
  "fresh_key S [] = None"
| "fresh_key S (b # bs) = (case sg_from_slice S b of Some k \<Rightarrow> Some (k, bs) | None \<Rightarrow> fresh_key S bs)"

definition fixture_sign :: "('k, 'v) signer \<Rightarrow> ('s, 'r, 'v) crypto \<Rightarrow> 'k \<Rightarrow> rstr \<Rightarrow> rstr option" where
  "fixture_sign S C k msg =
    (case sg_sign_prehash S k (eip191_digest C msg) of
       None \<Rightarrow> None
     | Some (sig, recid) \<Rightarrow> Some (''0x'' @ cr_hex_encode C (sig @ [char_of (unat (27 + recid))])))"

text \<open>\<open>create_new\<close> refuses a name that is there already.\<close>

definition fixture_write ::
  "(rstr \<Rightarrow> bool) \<Rightarrow> rstr \<Rightarrow> fixture_file \<Rightarrow> nat \<Rightarrow> (rstr \<times> fixture_file \<times> nat) list
    \<Rightarrow> fixture_error + (rstr \<times> fixture_file \<times> nat) list" where
  "fixture_write W name body mode files =
    (if name \<in> fst ` set files \<or> \<not> W name then Err (WriteFailed name) else Ok (files @ [(name, body, mode)]))"

definition parse_u32 :: "rstr \<Rightarrow> 32 word option" where
  "parse_u32 s =
    (let ds = (case s of b # rest \<Rightarrow> if b = CHR ''+'' \<and> rest \<noteq> [] then rest else s | [] \<Rightarrow> [])
     in if ds = [] \<or> \<not> list_all is_ascii_digit ds \<or> 2 ^ 32 \<le> read_dec ds then None
        else Some (of_nat (read_dec ds)))"

fun parse_counts :: "rstr list \<Rightarrow> 32 word list option" where
  "parse_counts [] = Some []"
| "parse_counts (s # ss) =
    (case parse_u32 s of None \<Rightarrow> None | Some c \<Rightarrow>
       (case parse_counts ss of None \<Rightarrow> None | Some cs \<Rightarrow> Some (c # cs)))"

subsection \<open>Devices and members\<close>

definition MODE_PUBLIC :: nat where "MODE_PUBLIC = 420"
definition MODE_PRIVATE :: nat where "MODE_PRIVATE = 384"

definition fixture_device ::
  "('k, 'v) signer \<Rightarrow> ('s, 'r, 'v) crypto \<Rightarrow> (rstr \<Rightarrow> bool) \<Rightarrow> 64 word \<Rightarrow> nat \<Rightarrow> 'k \<Rightarrow> 'k \<Rightarrow> nat \<Rightarrow> fixture
    \<Rightarrow> fixture_error + (rstr \<times> rstr \<times> rstr) \<times> fixture" where
  "fixture_device S C W now m member wallet d st =
    (let member_addr = address_of C (sg_verifying_key S member);
         label = ''member '' @ show_dec m @ '' device '' @ show_dec d;
         stem = show_dec m @ ''-'' @ show_dec d
     in and_then (ok_or (fresh_key S (fx_rand st)) NoRandom) (\<lambda>(device, rand).
        and_then (ok_or (device_link_new member_addr (address_of C (sg_verifying_key S device))
            (address_of C (sg_verifying_key S wallet)) (of_nat (d - 1)) label now) LinkInvalid) (\<lambda>link.
        let msg = link_signing_message link
        in and_then (ok_or (fixture_sign S C member msg) SignFailed) (\<lambda>member_sig.
           and_then (ok_or (fixture_sign S C device msg) SignFailed) (\<lambda>device_sig.
           and_then (ok_or (fixture_sign S C wallet msg) SignFailed) (\<lambda>wallet_sig.
           and_then (ok_or (device_revocation_new member_addr (dl_device link) (now + 1)) RevocationInvalid) (\<lambda>rev.
           and_then (ok_or (fixture_sign S C member (revocation_signing_message rev)) SignFailed) (\<lambda>rev_sig.
           and_then (fixture_write W (''revoke-'' @ stem @ ''.json'')
               (RevocationFile [\<lparr>rw_member = dr_member rev, rw_device = dr_device rev,
                  rw_revoked_at = dr_revoked_at rev, rw_member_sig = rev_sig\<rparr>]) MODE_PUBLIC (fx_files st)) (\<lambda>files.
           and_then (fixture_write W (''device-'' @ stem @ ''.seed'')
               (SeedFile (cr_hex_encode C (sg_to_bytes S device))) MODE_PRIVATE files) (\<lambda>files.
           Ok ((dl_device link, label, ''device-'' @ stem @ ''.seed''),
               st\<lparr>fx_rand := rand, fx_files := files,
                  fx_links := fx_links st @
                    [\<lparr>lw_member = dl_member link, lw_device = dl_device link, lw_wallet = dl_wallet link,
                      lw_index = dl_index link, lw_label = dl_label link, lw_issued_at = dl_issued_at link,
                      lw_member_sig = member_sig, lw_device_sig = device_sig, lw_wallet_sig = wallet_sig\<rparr>]\<rparr>)))))))))))"

fun fixture_devices ::
  "('k, 'v) signer \<Rightarrow> ('s, 'r, 'v) crypto \<Rightarrow> (rstr \<Rightarrow> bool) \<Rightarrow> 64 word \<Rightarrow> nat \<Rightarrow> 'k \<Rightarrow> 'k \<Rightarrow> nat list \<Rightarrow> fixture
    \<Rightarrow> fixture_error + (rstr \<times> rstr \<times> rstr) list \<times> fixture" where
  "fixture_devices S C W now m member wallet [] st = Ok ([], st)"
| "fixture_devices S C W now m member wallet (d # ds) st =
    and_then (fixture_device S C W now m member wallet d st) (\<lambda>(dev, st1).
    and_then (fixture_devices S C W now m member wallet ds st1) (\<lambda>(devs, st2). Ok (dev # devs, st2)))"

fun fixture_members ::
  "('k, 'v) signer \<Rightarrow> ('s, 'r, 'v) crypto \<Rightarrow> (rstr \<Rightarrow> bool) \<Rightarrow> 64 word \<Rightarrow> nat \<Rightarrow> 32 word list \<Rightarrow> fixture
    \<Rightarrow> fixture_error + fixture" where
  "fixture_members S C W now m [] st = Ok st"
| "fixture_members S C W now m (n # ns) st =
    and_then (ok_or (fresh_key S (fx_rand st)) NoRandom) (\<lambda>(member, rand1).
    and_then (ok_or (fresh_key S rand1) NoRandom) (\<lambda>(wallet, rand2).
    let member_addr = address_of C (sg_verifying_key S member);
        st1 = st\<lparr>fx_rand := rand2, fx_roster := fx_roster st @ [(member_addr, ''member'')]\<rparr>
    in and_then (fixture_devices S C W now m member wallet [1..<unat n + 1] st1) (\<lambda>(devices, st2).
       fixture_members S C W now (m + 1) ns
         (st2\<lparr>fx_summary := fx_summary st2 @ [(member_addr, devices)]\<rparr>))))"

text \<open>The program: its arguments, whether the output directory is there and can be made, the time.\<close>

definition fixture_main ::
  "('k, 'v) signer \<Rightarrow> ('s, 'r, 'v) crypto \<Rightarrow> (rstr \<Rightarrow> bool) \<Rightarrow> (rstr \<Rightarrow> bool) \<Rightarrow> (rstr \<Rightarrow> bool) \<Rightarrow> 64 word
    \<Rightarrow> rstr list \<Rightarrow> rstr list \<Rightarrow> fixture_error + fixture" where
  "fixture_main S C W path_exists create_dir now rand args =
    (case args of
       [] \<Rightarrow> Err Usage
     | out # rest \<Rightarrow>
         and_then (ok_or (parse_counts rest) Usage) (\<lambda>counts.
           if counts = [] \<or> list_ex (\<lambda>c. c = 0 \<or> 8 < c) counts \<or> 16 < length counts then Err BadCounts
           else if path_exists out then Err (OutExists out)
           else if \<not> create_dir out then Err CreateDir
           else
             and_then (fixture_members S C W now 1 counts
               \<lparr>fx_rand = rand, fx_roster = [], fx_links = [], fx_summary = [], fx_files = []\<rparr>) (\<lambda>st.
             and_then (fixture_write W ''roster.json'' (RosterFile (fx_roster st)) MODE_PUBLIC (fx_files st)) (\<lambda>files.
             and_then (fixture_write W ''links.json'' (LinksFile (fx_links st)) MODE_PUBLIC files) (\<lambda>files.
             and_then (fixture_write W ''fleet.json'' (FleetFile now (fx_summary st)) MODE_PUBLIC files) (\<lambda>files.
             Ok (st\<lparr>fx_files := files\<rparr>)))))))"

subsection \<open>What it signs, the daemon accepts\<close>

text \<open>
  What \<open>k256\<close>, \<open>hex\<close> and Keccak-256 promise: decoding undoes encoding, and a signature of a digest is
  64 bytes in low-s form from which, with its recovery id of 0 or 1, the verifying key is recovered.
\<close>

definition signer_doc :: "('k, 'v) signer \<Rightarrow> ('s, 'r, 'v) crypto \<Rightarrow> bool" where
  "signer_doc S C \<longleftrightarrow>
    hex_encode_doc (cr_hex_encode C) \<and> (\<forall>bs. cr_hex_decode C (cr_hex_encode C bs) = Some bs)
    \<and> (\<forall>m. length (cr_keccak256 C m) = 32)
    \<and> (\<forall>k digest sig recid. sg_sign_prehash S k digest = Some (sig, recid) \<longrightarrow>
         length sig = 64 \<and> recid \<in> {0, 1}
         \<and> (\<exists>s r. cr_sig_from_slice C sig = Some s \<and> cr_normalize_s C s = None \<and> cr_recid_from_byte C recid = Some r
              \<and> cr_recover_from_prehash C digest s r = Some (sg_verifying_key S k)))"

lemma hex_prefixed:
  assumes "hex_encode_doc enc"
  shows "trim_start_matches ''0x'' (trim (''0x'' @ enc bs)) = enc bs"
proof -
  have h: "(48 \<le> code c \<and> code c \<le> 57) \<or> (97 \<le> code c \<and> code c \<le> 102)" if "c \<in> set (enc bs)" for c
    using assms that by (auto simp: hex_encode_doc_def list_all_iff)
  have "is_ascii_graphic c" if "c \<in> set (''0x'' @ enc bs)" for c
    using that h [of c] by (auto simp: is_ascii_graphic_def)
  then have t: "trim (''0x'' @ enc bs) = ''0x'' @ enc bs" by (intro trim_graphic) (simp add: list_all_iff)
  have "\<not> starts_with (enc bs) ''0x''"
  proof
    assume "starts_with (enc bs) ''0x''"
    then have "CHR ''x'' \<in> set (enc bs)" by (auto simp: starts_with_iff)
    from h [OF this] show False by simp
  qed
  then have "trim_start_matches ''0x'' (enc bs) = enc bs" by (simp add: trim_start_matches_id)
  then show ?thesis unfolding t using trim_start_matches_append [of "''0x''" "enc bs"] by simp
qed

lemma sign_recovers:
  assumes "signer_doc S C" and "fixture_sign S C k msg = Some sg"
  shows "eip191_recover C msg sg = Some (address_of C (sg_verifying_key S k))"
proof -
  from assms(2) obtain sig recid where s: "sg_sign_prehash S k (eip191_digest C msg) = Some (sig, recid)"
    and sg: "sg = ''0x'' @ cr_hex_encode C (sig @ [char_of (unat (27 + recid))])"
    by (auto simp: fixture_sign_def split: option.splits)
  from assms(1) s obtain s' r where len: "length sig = 64" and recid: "recid = 0 \<or> recid = 1"
    and k: "cr_sig_from_slice C sig = Some s'" "cr_normalize_s C s' = None" "cr_recid_from_byte C recid = Some r"
      "cr_recover_from_prehash C (eip191_digest C msg) s' r = Some (sg_verifying_key S k)"
    unfolding signer_doc_def by blast
  have "recovery_byte (char_of (unat (27 + recid))) = Some recid"
    using recid by (auto simp: recovery_byte_def)
  moreover have "cr_hex_decode C (trim_start_matches ''0x'' (trim sg)) = Some (sig @ [char_of (unat (27 + recid))])"
    using assms(1) hex_prefixed by (simp add: sg signer_doc_def)
  ultimately show ?thesis using len k by (simp add: eip191_recover_def nth_append)
qed

lemma signer_address: "signer_doc S C \<Longrightarrow> canonical_address (address_of C v) = Some (address_of C v)"
  unfolding signer_doc_def by (intro canonical_address_fixed address_of_canonical) blast+

text \<open>What holds of the links and files made so far.\<close>

definition link_verifies :: "('s, 'r, 'v) crypto \<Rightarrow> device_link_wire \<Rightarrow> bool" where
  "link_verifies C w \<longleftrightarrow> link_signed (eip191_recover C) (signed_link_of_wire w) (sl_link (signed_link_of_wire w))"

fun file_ok :: "('s, 'r, 'v) crypto \<Rightarrow> rstr \<times> fixture_file \<times> nat \<Rightarrow> bool" where
  "file_ok C (name, RevocationFile rs, mode) \<longleftrightarrow>
    list_all (\<lambda>r. revocation_signed (eip191_recover C) (signed_revocation_of_wire r)
      (sr_revocation (signed_revocation_of_wire r))) rs"
| "file_ok C (name, SeedFile s, mode) \<longleftrightarrow> mode = MODE_PRIVATE"
| "file_ok C (name, _, mode) \<longleftrightarrow> True"

definition fixture_ok :: "('s, 'r, 'v) crypto \<Rightarrow> fixture \<Rightarrow> bool" where
  "fixture_ok C st \<longleftrightarrow>
    list_all (\<lambda>w. link_verifies C w \<and> (lw_member w, ''member'') \<in> set (fx_roster st)) (fx_links st)
    \<and> list_all (file_ok C) (fx_files st)
    \<and> list_all (\<lambda>(a, _). canonical_address a = Some a) (fx_roster st)"

lemma device_step:
  assumes "signer_doc S C" and "fixture_device S C W now m member wallet d st = Ok (dev, st')"
    and "fixture_ok C st" and "(address_of C (sg_verifying_key S member), ''member'') \<in> set (fx_roster st)"
  shows "fixture_ok C st' \<and> fx_roster st' = fx_roster st"
proof -
  let ?a = "\<lambda>k. address_of C (sg_verifying_key S k)"
  let ?label = "''member '' @ show_dec m @ '' device '' @ show_dec d"
  obtain device link rev member_sig device_sig wallet_sig rev_sig f1 f2 where
    link: "device_link_new (?a member) (?a device) (?a wallet) (of_nat (d - 1)) ?label now = Some link"
    and rev: "device_revocation_new (?a member) (dl_device link) (now + 1) = Some rev"
    and sigs: "fixture_sign S C member (link_signing_message link) = Some member_sig"
      "fixture_sign S C device (link_signing_message link) = Some device_sig"
      "fixture_sign S C wallet (link_signing_message link) = Some wallet_sig"
      "fixture_sign S C member (revocation_signing_message rev) = Some rev_sig"
    and files: "fx_files st' = fx_files st
        @ [(f1, RevocationFile [\<lparr>rw_member = dr_member rev, rw_device = dr_device rev,
              rw_revoked_at = dr_revoked_at rev, rw_member_sig = rev_sig\<rparr>], MODE_PUBLIC)]
        @ [(f2, SeedFile (cr_hex_encode C (sg_to_bytes S device)), MODE_PRIVATE)]"
    and st': "fx_roster st' = fx_roster st" "fx_links st' = fx_links st @
        [\<lparr>lw_member = dl_member link, lw_device = dl_device link, lw_wallet = dl_wallet link,
          lw_index = dl_index link, lw_label = dl_label link, lw_issued_at = dl_issued_at link,
          lw_member_sig = member_sig, lw_device_sig = device_sig, lw_wallet_sig = wallet_sig\<rparr>]"
    using assms(2)
    by (auto simp: fixture_device_def Let_def and_then_Ok_iff fixture_write_def split: if_splits)
  have a: "dl_member link = ?a member" "dl_device link = ?a device" "dl_wallet link = ?a wallet"
    using link signer_address [OF assms(1)] by (simp_all add: device_link_new_Some_iff)
  have r: "dr_member rev = ?a member" "dr_device rev = ?a device"
    using rev a(2) signer_address [OF assms(1)] by (simp_all add: device_revocation_new_Some_iff)
  note signed = sigs [THEN sign_recovers [OF assms(1)]]
  have "link_renew link = Some link" using device_link_new_ok [OF link] by (rule link_renew_fixed)
  moreover have "sl_link (signed_link_of_wire (last (fx_links st'))) = link"
    by (simp add: st'(2) signed_link_of_wire_def)
  ultimately have v: "link_verifies C (last (fx_links st'))"
    using signed a unfolding link_verifies_def link_signed_def
    by simp (simp add: st'(2) signed_link_of_wire_def)
  let ?rw = "\<lparr>rw_member = dr_member rev, rw_device = dr_device rev,
    rw_revoked_at = dr_revoked_at rev, rw_member_sig = rev_sig\<rparr>"
  have "device_revocation_new (dr_member rev) (dr_device rev) (dr_revoked_at rev) = Some rev"
    using rev r a(2) by (simp add: device_revocation_new_Some_iff)
  moreover have "sr_revocation (signed_revocation_of_wire ?rw) = rev" "sr_member_sig (signed_revocation_of_wire ?rw) = rev_sig"
    by (simp_all add: signed_revocation_of_wire_def)
  ultimately have "file_ok C (f1, RevocationFile [?rw], MODE_PUBLIC)"
    using signed r by (simp add: revocation_signed_def)
  with v show ?thesis using assms(3,4) a(1) by (simp add: fixture_ok_def files st')
qed

lemma devices_step:
  assumes "signer_doc S C" and "fixture_devices S C W now m member wallet ds st = Ok (devs, st')"
    and "fixture_ok C st" and "(address_of C (sg_verifying_key S member), ''member'') \<in> set (fx_roster st)"
  shows "fixture_ok C st' \<and> fx_roster st' = fx_roster st"
  using assms(2-4)
proof (induction ds arbitrary: devs st)
  case (Cons d ds)
  from Cons.prems(1) obtain dev st1 devs' where
    d: "fixture_device S C W now m member wallet d st = Ok (dev, st1)"
    and ds: "fixture_devices S C W now m member wallet ds st1 = Ok (devs', st')"
    by (auto simp: and_then_Ok_iff)
  from device_step [OF assms(1) d Cons.prems(2,3)] Cons.IH [OF ds] Cons.prems(3) show ?case by simp
qed simp

lemma members_step:
  assumes "signer_doc S C" and "fixture_members S C W now m ns st = Ok st'" and "fixture_ok C st"
  shows "fixture_ok C st'"
  using assms(2,3)
proof (induction ns arbitrary: m st)
  case (Cons n ns)
  from Cons.prems(1) obtain member rand wallet rand' devices st2 where
    ds: "fixture_devices S C W now m member wallet [1..<unat n + 1]
      (st\<lparr>fx_rand := rand', fx_roster := fx_roster st @ [(address_of C (sg_verifying_key S member), ''member'')]\<rparr>)
      = Ok (devices, st2)" (is "fixture_devices _ _ _ _ _ _ _ _ ?st1 = _")
    and rest: "fixture_members S C W now (m + 1) ns (st2\<lparr>fx_summary := fx_summary st2 @
      [(address_of C (sg_verifying_key S member), devices)]\<rparr>) = Ok st'" (is "fixture_members _ _ _ _ _ _ ?st3 = _")
    by (auto simp: and_then_Ok_iff Let_def)
  have "fixture_ok C ?st1" using Cons.prems(2) signer_address [OF assms(1)] by (auto simp: fixture_ok_def list_all_iff)
  from devices_step [OF assms(1) ds this] have "fixture_ok C ?st3" by (auto simp: fixture_ok_def list_all_iff)
  with Cons.IH [OF rest] show ?case by simp
qed simp

lemma fixture_main_Ok:
  assumes "signer_doc S C" and "fixture_main S C W path_exists create_dir now rand args = Ok st"
  shows "fixture_ok C st"
proof -
  from assms(2) obtain counts st1 f1 f2 f3 where
    m: "fixture_members S C W now 1 counts
      \<lparr>fx_rand = rand, fx_roster = [], fx_links = [], fx_summary = [], fx_files = []\<rparr> = Ok st1"
    and st: "st = st1\<lparr>fx_files := fx_files st1 @ [(f1, RosterFile (fx_roster st1), MODE_PUBLIC),
      (f2, LinksFile (fx_links st1), MODE_PUBLIC), (f3, FleetFile now (fx_summary st1), MODE_PUBLIC)]\<rparr>"
    by (auto simp: fixture_main_def and_then_Ok_iff fixture_write_def split: list.splits if_splits)
  have "fixture_ok C st1" using assms(1) m by (rule members_step) (simp add: fixture_ok_def)
  then show ?thesis by (simp add: st fixture_ok_def)
qed

text \<open>C25. The fleet fits the daemon: every revocation the fixture writes is one the daemon's verifier
  accepts, its seed files are private, and, when the fresh keys have different addresses and there are no
  more links than an update may carry, an update with its links makes every device of the fleet a device
  of its member, and the roster with these links allows them all.\<close>

theorem fixture_fleet_admitted:
  assumes "signer_doc S C" and "fixture_main S C W path_exists create_dir now rand args = Ok st"
    and "distinct (map lw_device (fx_links st))" and "set (map lw_device (fx_links st)) \<inter> set (map fst (fx_roster st)) = {}"
    and "length (fx_links st) \<le> MAX_LINKS_PER_UPDATE"
    and "reg = snd (registry_update (eip191_recover C) (map signed_link_of_wire (fx_links st)) [] registry_new)"
  shows "list_all (\<lambda>w. registry_member_of (lw_device w) reg = Some (lw_member w)
      \<and> lw_device w |\<in>| allowed_set (effective_roster (fx_roster st) reg)) (fx_links st)
    \<and> list_all (file_ok C) (fx_files st)"
proof -
  let ?V = "eip191_recover C" and ?links = "map signed_link_of_wire (fx_links st)"
  have ok: "fixture_ok C st" using assms(1,2) by (rule fixture_main_Ok)
  have fits: "update_fits ?links []" using assms(5) by (simp add: update_fits_def)
  have reg: "registry_ok reg" unfolding assms(6) by (rule registry_ok_update) (rule registry_ok_new)
  have "registry_member_of (lw_device w) reg = Some (lw_member w)
      \<and> lw_device w |\<in>| allowed_set (effective_roster (fx_roster st) reg)" if w: "w \<in> set (fx_links st)" for w
  proof -
    let ?c = "sl_link (signed_link_of_wire w)"
    have s: "link_signed ?V (signed_link_of_wire w') (sl_link (signed_link_of_wire w'))" if "w' \<in> set (fx_links st)" for w'
      using ok that by (simp add: fixture_ok_def list_all_iff link_verifies_def)
    have c: "dl_device (sl_link (signed_link_of_wire w')) = lw_device w'"
        "dl_member (sl_link (signed_link_of_wire w')) = lw_member w'" for w'
      by (simp_all add: signed_link_of_wire_def)
    have "links_to ?V ?links (lw_device w) m \<longleftrightarrow> m = lw_member w" for m
    proof
      assume "links_to ?V ?links (lw_device w) m"
      then obtain w' c' where w': "w' \<in> set (fx_links st)" "link_signed ?V (signed_link_of_wire w') c'"
          "dl_device c' = lw_device w" "dl_member c' = m" by (auto simp: links_to_def)
      with link_signed_unique [OF s [OF w'(1)] w'(2)] c have "lw_device w' = lw_device w" "m = lw_member w'" by auto
      moreover have "inj_on lw_device (set (fx_links st))" using assms(3) by (simp add: distinct_map)
      from inj_onD [OF this calculation(1) w'(1) w] have "w' = w" .
      ultimately show "m = lw_member w" by simp
    qed (use s [OF w] w c in \<open>auto simp: links_to_def\<close>)
    then have "Collect (links_to ?V ?links (lw_device w)) = {lw_member w}" by auto
    moreover have "reg_revoked reg = {||}"
      unfolding assms(6) registry_update_unfold(1) [OF fits] by (simp add: registry_new_def)
    ultimately have l: "map_option dl_member (fmlookup (reg_links reg) (lw_device w)) = Some (lw_member w)"
      unfolding assms(6) registry_update_member [OF fits] by simp
    have can: "is_canonical (lw_device w)" "is_canonical (lw_member w)"
      using link_signed_ok [OF s [OF w]] c [of w] by (simp_all add: link_ok_def)
    have r: "(lw_member w, ''member'') \<in> set (fx_roster st)"
      using ok w by (simp add: fixture_ok_def list_all_iff)
    have m: "lw_member w |\<in>| allowed_set (fx_roster st)"
      using r canonical_address_fixed [OF can(2)] unfolding allowed_set_member role_rank_member by blast
    have "lw_device w |\<notin>| fmdom (best_roles (fx_roster st))"
    proof
      assume "lw_device w |\<in>| fmdom (best_roles (fx_roster st))"
      then obtain addr role where e: "(addr, role) \<in> set (fx_roster st)" "canonical_address addr = Some (lw_device w)"
        unfolding best_roles_dom by blast
      moreover from e(1) ok have "canonical_address addr = Some addr" by (auto simp: fixture_ok_def list_all_iff)
      ultimately have "lw_device w \<in> set (map fst (fx_roster st))" by force
      with assms(4) w show False by auto
    qed
    then have "live_link (fx_roster st) reg (lw_device w) (lw_member w)"
      using l m by (simp add: live_link_def)
    then have "lw_device w |\<in>| allowed_set (effective_roster (fx_roster st) reg)"
      unfolding effective_allowed_iff [OF reg] by blast
    then show ?thesis using l registry_member_of_canonical [OF can(1)] by simp
  qed
  with ok show ?thesis by (simp add: list_all_iff fixture_ok_def)
qed

subsection \<open>A concrete fleet\<close>

text \<open>Keys that are bytes, a digest that keeps the last byte, signatures that repeat their key.\<close>

definition low_digit :: "nat \<Rightarrow> byte" where
  "low_digit n = char_of (if n < 10 then 48 + n else 87 + n)"

definition low_value :: "byte \<Rightarrow> nat" where
  "low_value c = (if code c < 58 then code c - 48 else code c - 87)"

definition low_hex :: "rstr \<Rightarrow> rstr" where
  "low_hex bs = concat (map (\<lambda>b. [low_digit (code b div 16), low_digit (code b mod 16)]) bs)"

fun low_unhex :: "rstr \<Rightarrow> rstr" where
  "low_unhex (x # y # zs) = char_of (16 * low_value x + low_value y) # low_unhex zs"
| "low_unhex zs = zs"

lemma low_digit_value: "n < 16 \<Longrightarrow> low_value (low_digit n) = n"
  by (simp add: low_value_def low_digit_def)

lemma low_digit_range: "n < 16 \<Longrightarrow>
    (48 \<le> code (low_digit n) \<and> code (low_digit n) \<le> 57) \<or> (97 \<le> code (low_digit n) \<and> code (low_digit n) \<le> 102)"
  by (auto simp: low_digit_def)

lemma low_hex_doc: "hex_encode_doc low_hex" and low_unhex_hex: "low_unhex (low_hex bs) = bs"
proof -
  have d: "code b div 16 < 16" for b :: byte by (simp add: div_less_iff_less_mult)
  have "length (low_hex bs) = 2 * length bs" for bs
    by (induction bs) (simp_all add: low_hex_def)
  moreover have "list_all (\<lambda>c. (48 \<le> code c \<and> code c \<le> 57) \<or> (97 \<le> code c \<and> code c \<le> 102)) (low_hex bs)" for bs
    using low_digit_range d by (induction bs) (simp_all add: low_hex_def)
  ultimately show "hex_encode_doc low_hex" by (simp add: hex_encode_doc_def)
  show "low_unhex (low_hex bs) = bs" by (induction bs) (simp_all add: low_hex_def low_digit_value d)
qed

definition byte_crypto :: "(rstr, 8 word, byte) crypto" where
  "byte_crypto =
    \<lparr>cr_hex_decode = (\<lambda>s. Some (low_unhex s)), cr_hex_encode = low_hex,
     cr_keccak256 = (\<lambda>m. replicate 31 (CHR ''0'') @ [if m = [] then CHR ''0'' else last m]), cr_sig_from_slice = Some,
     cr_normalize_s = (\<lambda>_. None), cr_recid_from_byte = Some, cr_recover_from_prehash = (\<lambda>_ s _. Some (hd s)),
     cr_encoded_point = (\<lambda>k. [CHR 0x04, k])\<rparr>"

definition byte_signer :: "(byte, byte) signer" where
  "byte_signer = \<lparr>sg_from_slice = (\<lambda>b. if b = [] then None else Some (hd b)), sg_verifying_key = id,
     sg_sign_prehash = (\<lambda>k _. Some (replicate 64 k, 1)), sg_to_bytes = (\<lambda>k. [k])\<rparr>"

lemma byte_signer_fields [simp]:
  "sg_from_slice byte_signer [b] = Some b" "sg_verifying_key byte_signer = id"
  by (simp_all add: byte_signer_def)

lemma byte_signer_doc: "signer_doc byte_signer byte_crypto"
proof -
  have "hd (replicate 64 k) = k" for k :: byte by (subst hd_replicate) simp_all
  then show ?thesis
    by (simp add: signer_doc_def byte_signer_def byte_crypto_def low_hex_doc low_unhex_hex)
qed

lemma byte_address_inject: "address_of byte_crypto k = address_of byte_crypto k' \<longleftrightarrow> k = k'"
proof
  assume "address_of byte_crypto k = address_of byte_crypto k'"
  then have "low_unhex (address_of byte_crypto k) = low_unhex (address_of byte_crypto k')" by simp
  then show "k = k'" by (simp add: address_of_def byte_crypto_def low_unhex_hex)
qed simp

text \<open>One member with one device.\<close>

definition sample_fleet :: "fixture_error + fixture" where
  "sample_fleet = fixture_main byte_signer byte_crypto (\<lambda>_. True) (\<lambda>_. False) (\<lambda>_. True) 5
     [''m'', ''w'', ''d''] [''out'', ''1'']"

abbreviation (input) byte_addr :: "byte \<Rightarrow> rstr" where
  "byte_addr \<equiv> address_of byte_crypto"

lemma sample_device:
  fixes st :: fixture
  assumes "fx_rand st = [''d'']" and "fx_files st = []" and "fx_links st = []"
  shows "\<exists>dev st' w files. fixture_device byte_signer byte_crypto (\<lambda>_. True) 5 1 (CHR ''m'') (CHR ''w'') 1 st = Ok (dev, st')
    \<and> fx_links st' = [w] \<and> lw_device w = byte_addr (CHR ''d'') \<and> fx_roster st' = fx_roster st
    \<and> fx_files st' = files \<and> fst ` set files = {''revoke-1-1.json'', ''device-1-1.seed''}"
proof -
  have label: "label_is_valid ''member 1 device 1''"
    by (simp add: label_is_valid_def label_byte_def trim_graphic_ends MAX_LABEL_LEN_def ascii_defs)
  let ?link = "\<lparr>dl_member = byte_addr (CHR ''m''), dl_device = byte_addr (CHR ''d''), dl_wallet = byte_addr (CHR ''w''),
    dl_index = 0, dl_label = ''member 1 device 1'', dl_issued_at = 5\<rparr>"
  have link: "device_link_new (byte_addr (CHR ''m'')) (byte_addr (CHR ''d'')) (byte_addr (CHR ''w'')) 0 ''member 1 device 1'' 5
      = Some ?link"
    by (simp add: device_link_new_Some_iff signer_address [OF byte_signer_doc] byte_address_inject label)
  have rev: "device_revocation_new (byte_addr (CHR ''m'')) (byte_addr (CHR ''d'')) 6 =
      Some \<lparr>dr_member = byte_addr (CHR ''m''), dr_device = byte_addr (CHR ''d''), dr_revoked_at = 6\<rparr>"
    by (simp add: device_revocation_new_Some_iff signer_address [OF byte_signer_doc])
  have sign: "\<exists>sg. fixture_sign byte_signer byte_crypto k msg = Some sg" for k msg
    by (simp add: fixture_sign_def byte_signer_def)
  obtain s1 s2 s3 s4 where sigs: "fixture_sign byte_signer byte_crypto (CHR ''m'') (link_signing_message ?link) = Some s1"
      "fixture_sign byte_signer byte_crypto (CHR ''d'') (link_signing_message ?link) = Some s2"
      "fixture_sign byte_signer byte_crypto (CHR ''w'') (link_signing_message ?link) = Some s3"
      "fixture_sign byte_signer byte_crypto (CHR ''m'') (revocation_signing_message
         \<lparr>dr_member = byte_addr (CHR ''m''), dr_device = byte_addr (CHR ''d''), dr_revoked_at = 6\<rparr>) = Some s4"
    using sign by metis
  show ?thesis
    using assms
    by (simp add: fixture_device_def link rev sigs fixture_write_def show_dec_small Let_def)
qed

lemma sample_fleet_Ok:
  "\<exists>st. sample_fleet = Ok st \<and> map lw_device (fx_links st) = [byte_addr (CHR ''d'')]
    \<and> map fst (fx_roster st) = [byte_addr (CHR ''m'')]"
proof -
  let ?st1 = "\<lparr>fx_rand = [''d''], fx_roster = [(byte_addr (CHR ''m''), ''member'')], fx_links = [], fx_summary = [], fx_files = []\<rparr>"
  have counts: "parse_counts [''1''] = Some [1]"
    by (simp add: parse_u32_def is_ascii_digit_def)
  obtain dev st' w files where d: "fixture_device byte_signer byte_crypto (\<lambda>_. True) 5 1 (CHR ''m'') (CHR ''w'') 1 ?st1 = Ok (dev, st')"
    and w: "fx_links st' = [w]" "lw_device w = byte_addr (CHR ''d'')"
    and st': "fx_roster st' = fx_roster ?st1" "fx_files st' = files" "fst ` set files = {''revoke-1-1.json'', ''device-1-1.seed''}"
    using sample_device [of ?st1] by auto
  have "fixture_members byte_signer byte_crypto (\<lambda>_. True) 5 1 [1]
      \<lparr>fx_rand = [''m'', ''w'', ''d''], fx_roster = [], fx_links = [], fx_summary = [], fx_files = []\<rparr>
      = Ok (st'\<lparr>fx_summary := fx_summary st' @ [(byte_addr (CHR ''m''), [dev])]\<rparr>)"
    using d by simp
  with counts w st' show ?thesis
    by (simp add: sample_fleet_def fixture_main_def fixture_write_def)
qed

theorem fixture_fleet_admitted_witness:
  "\<exists>st reg. sample_fleet = Ok st \<and> byte_addr (CHR ''d'') |\<in>| allowed_set (effective_roster (fx_roster st) reg)"
proof -
  obtain st where st: "sample_fleet = Ok st" "map lw_device (fx_links st) = [byte_addr (CHR ''d'')]"
      "map fst (fx_roster st) = [byte_addr (CHR ''m'')]" using sample_fleet_Ok by (elim exE conjE)
  obtain w where w: "fx_links st = [w]" "lw_device w = byte_addr (CHR ''d'')"
    using st(2) unfolding map_eq_Cons_conv by (elim exE conjE) simp
  have len: "length (fx_links st) \<le> MAX_LINKS_PER_UPDATE" by (simp add: w(1) MAX_LINKS_PER_UPDATE_def)
  have dist: "distinct (map lw_device (fx_links st))" unfolding st(2) by simp
  have disj: "set (map lw_device (fx_links st)) \<inter> set (map fst (fx_roster st)) = {}"
    unfolding st(2,3) by (simp add: byte_address_inject)
  define reg where "reg = snd (registry_update (eip191_recover byte_crypto) (map signed_link_of_wire (fx_links st)) [] registry_new)"
  have "list_all (\<lambda>w. lw_device w |\<in>| allowed_set (effective_roster (fx_roster st) reg)) (fx_links st)"
    using conjunct1 [OF fixture_fleet_admitted [OF byte_signer_doc st(1) [unfolded sample_fleet_def] dist disj len reg_def]]
    unfolding list_all_iff by blast
  moreover have "w \<in> set (fx_links st)" by (simp add: w(1))
  ultimately have "byte_addr (CHR ''d'') |\<in>| allowed_set (effective_roster (fx_roster st) reg)"
    unfolding list_all_iff w(2) [symmetric] by blast
  with st(1) show ?thesis by blast
qed

end
