(* ===== verification/Socket_Bind.thy ===== *)
theory Socket_Bind
  imports Secret_File
begin

section \<open>Binding the control socket\<close>

text \<open>
  \<open>bind_hardened\<close>, \<open>endpoint_name\<close> and the start of \<open>serve\<close> (\<open>crates/cluster-daemon/src/server.rs\<close>). The
  part of the system they change is the process's file mode mask and the metadata of the file at the
  socket's path; what the operating system and the \<open>interprocess\<close> crate answer is the argument of type
  \<open>bind_env\<close>. A socket file is created as POSIX has it: every permission that the mask does not take
  away, and the owner is the process. On Windows, where no file is made, the same name is computed
  from the last component of the path.
\<close>

record socket_fs =
  sf_umask :: "32 word"
  sf_socket :: "file_meta option"

record bind_env =
  be_euid :: "32 word"
  be_parent :: "rstr \<Rightarrow> rstr + file_meta"
  be_fs_name :: "rstr \<Rightarrow> rstr + unit"
  be_remove :: "rstr \<Rightarrow> rstr + unit"
  be_create :: "rstr \<Rightarrow> rstr + unit"
  be_chmod :: "rstr \<Rightarrow> rstr + unit"

datatype bind_error =
    PathNotUtf8
  | BadSocketDir dir_error
  | BadName rstr
  | CreateFailed rstr
  | HardenStat
  | HardenChmod rstr

definition endpoint_name :: "bind_env \<Rightarrow> rstr \<Rightarrow> rstr + unit" where
  "endpoint_name E path = be_fs_name E path"

text \<open>The name on Windows, over the code points of the path's last component if it has one.\<close>

definition endpoint_slug :: "nat list option \<Rightarrow> rstr" where
  "endpoint_slug file_name =
    (let base = (case file_name of Some cs \<Rightarrow> cs | None \<Rightarrow> map code ''citrate.sock'')
     in map (\<lambda>c. if c < 128 \<and> (is_ascii_alphanumeric (char_of c) \<or> char_of c \<in> set ''._-'') then char_of c
                 else CHR ''-'') base)"

text \<open>\<open>umask\<close> sets the mask, of which the nine permission bits count, and returns the previous one.\<close>

definition set_umask :: "32 word \<Rightarrow> socket_fs \<Rightarrow> 32 word \<times> socket_fs" where
  "set_umask m fs = (sf_umask fs, fs\<lparr>sf_umask := and m 0x1FF\<rparr>)"

definition create_sync :: "bind_env \<Rightarrow> rstr \<Rightarrow> socket_fs \<Rightarrow> (rstr + unit) \<times> socket_fs" where
  "create_sync E path fs =
    (case be_create E path of
       Err e \<Rightarrow> (Err e, fs)
     | Ok _ \<Rightarrow> (Ok (), fs\<lparr>sf_socket :=
         Some \<lparr>fi_regular = False, fi_mode = and 0x1FF (not (sf_umask fs)), fi_uid = be_euid E\<rparr>\<rparr>))"

definition harden_socket :: "bind_env \<Rightarrow> rstr \<Rightarrow> socket_fs \<Rightarrow> (bind_error + unit) \<times> socket_fs" where
  "harden_socket E path fs =
    (case sf_socket fs of
       None \<Rightarrow> (Err HardenStat, fs)
     | Some md \<Rightarrow>
         (case be_chmod E path of
            Err e \<Rightarrow> (Err (HardenChmod e), fs)
          | Ok _ \<Rightarrow> (Ok (), fs\<lparr>sf_socket := Some (harden md)\<rparr>)))"

definition bind_hardened :: "bind_env \<Rightarrow> rstr \<Rightarrow> socket_fs \<Rightarrow> (bind_error + unit) \<times> socket_fs" where
  "bind_hardened E path fs =
    (if \<not> utf8_valid path then (Err PathNotUtf8, fs)
     else case and_then (map_err BadSocketDir (check_socket_dir_for (be_parent E path) (be_euid E)))
                 (\<lambda>_. map_err BadName (endpoint_name E path)) of
       Err e \<Rightarrow> (Err e, fs)
     | Ok _ \<Rightarrow>
         (case set_umask 0x7F fs of (old, fs1) \<Rightarrow>
          case create_sync E path fs1 of (res, fs2) \<Rightarrow>
          case set_umask old fs2 of (_, fs3) \<Rightarrow>
            (case res of
               Err e \<Rightarrow> (Err (CreateFailed e), fs3)
             | Ok _ \<Rightarrow> harden_socket E path fs3)))"

text \<open>\<open>serve\<close> up to its accept loop: a socket file left behind is removed, whatever that answers.\<close>

definition serve_bind :: "bind_env \<Rightarrow> rstr \<Rightarrow> socket_fs \<Rightarrow> (bind_error + unit) \<times> socket_fs" where
  "serve_bind E path fs =
    bind_hardened E path (case be_remove E path of Ok _ \<Rightarrow> fs\<lparr>sf_socket := None\<rparr> | Err _ \<Rightarrow> fs)"

subsection \<open>The socket is never open to others\<close>

text \<open>A file that nobody but its owner can use.\<close>

definition private_socket :: "32 word \<Rightarrow> file_meta \<Rightarrow> bool" where
  "private_socket euid md \<longleftrightarrow> fi_uid md = euid \<and> {i. bit (fi_mode md) i} = {7, 8}"

lemma bits_0600: "{i. bit (0x180 :: 32 word) i} = {7, 8}"
proof -
  have "(0x180 :: 32 word) = or (2 ^ 7) (2 ^ 8)" by simp
  also have "{i. bit \<dots> i} = {7, 8}" unfolding bit_or_iff bit_exp_iff by auto
  finally show ?thesis .
qed

lemma created_private: "and 0x1FF (not (0x7F :: 32 word)) = 0x180"
  by simp

text \<open>The mask that the daemon had is the mask it has afterwards, on every path.\<close>

lemma bind_umask:
  assumes "and (sf_umask fs) 0x1FF = sf_umask fs"
  shows "sf_umask (snd (bind_hardened E path fs)) = sf_umask fs"
  using assms
  by (auto simp: bind_hardened_def set_umask_def create_sync_def harden_socket_def split: sum.splits option.splits)

text \<open>A bound socket is private, in a directory where nobody can replace it; and a socket that the call
  has made is private even where the call then fails, so at no moment could another user connect.\<close>

theorem socket_private:
  assumes "bind_hardened E path fs = (r, fs')"
  shows "sf_socket fs' \<in> {sf_socket fs} \<union> Some ` {md. private_socket (be_euid E) md}"
    and "r = Ok () \<Longrightarrow> check_socket_dir_for (be_parent E path) (be_euid E) = Ok ()
      \<and> sf_socket fs' \<in> Some ` {md. private_socket (be_euid E) md}"
  using assms
  by (auto simp: bind_hardened_def set_umask_def create_sync_def harden_socket_def harden_def private_socket_def
      bits_0600 created_private and_then_Ok_iff image_iff split: sum.splits if_splits)

text \<open>The slug keeps the length and has safe characters only, so taking it twice changes nothing.\<close>

definition slug_char :: "byte \<Rightarrow> bool" where
  "slug_char b \<longleftrightarrow> is_ascii_alphanumeric b \<or> b \<in> set ''._-''"

lemma endpoint_slug_safe: "list_all slug_char (endpoint_slug file_name)"
  by (auto simp: endpoint_slug_def Let_def list_all_iff slug_char_def)

lemma endpoint_slug_length: "length (endpoint_slug (Some cs)) = length cs"
  by (simp add: endpoint_slug_def)

lemma endpoint_slug_again:
  "endpoint_slug (Some (map code (endpoint_slug file_name))) = endpoint_slug file_name"
proof -
  have "code b < 128" if "slug_char b" for b
    using that by (auto simp: slug_char_def is_ascii_alphanumeric_def)
  then have "map (\<lambda>c. if c < 128 \<and> (is_ascii_alphanumeric (char_of c) \<or> char_of c \<in> set ''._-'') then char_of c
      else CHR ''-'') (map code s) = s" if "list_all slug_char s" for s
    using that by (induction s) (auto simp: slug_char_def)
  from this [OF endpoint_slug_safe] show ?thesis by (simp add: endpoint_slug_def)
qed

end
