(* ===== verification/Spec2Isabelle.thy ===== *)
theory Spec2Isabelle
  imports
    Cid
    Seed
    Session
    Effective_Roster
    Ipc
    Device_Mesh
    Multiaddr
    Libp2p_Daemon
    Served
    Server_Log
    Wire_Refinement
    Fixture
    Socket_Bind
begin

section \<open>The Citrate cluster daemon\<close>

text \<open>
  This development models citrate-cluster, the sidecar that runs a group's peer-to-peer mesh for one
  user. Its purpose is admission: a peer takes part in the mesh of a group exactly as long as the last
  roster of the group allows its address, by its role or through a signed link of its device key to an
  allowed member. The client, which holds the roster, talks to the daemon over a local socket.

  \<^bold>\<open>Parts and theories.\<close> Each theory opens with the source it translates. Definitions keep the names of
  the source; a method becomes a function from the state before to the result and the state after.

  \<^item> \<open>Cluster_Prelude\<close>, \<open>Rust_Str\<close>: the containers, results and strings of Rust. A \<open>str\<close> is its UTF-8
    bytes; a B-tree or hash container a finite set or map; \<open>Result<T, E>\<close> is \<open>'e + 'a\<close>, the operator \<open>?\<close>
    is \<open>and_then\<close>.
  \<^item> \<open>Admission\<close>, \<open>Cid\<close>, \<open>Membership\<close>, \<open>Session\<close>: \<open>crates/cluster-core/src/lib.rs\<close>, from the rank of a role
    and the canonical form of an address to \<open>ClusterMembership\<close> (allowed and admitted set) and
    \<open>ClusterSession\<close>, which drives a transport.
  \<^item> \<open>Transport\<close>: the traits \<open>ClusterTransport\<close> and \<open>MeshTransport\<close> as records of operations, the contract
    \<open>cluster_transport_laws\<close> as a locale, and the in-process transport (\<open>cluster-daemon/src/transport.rs\<close>).
  \<^item> \<open>Seed\<close>: the seed links of \<open>cluster-core/src/seed.rs\<close>.
  \<^item> \<open>Device\<close>, \<open>Registry\<close>, \<open>Effective_Roster\<close>: \<open>cluster-core/src/device.rs\<close>, links and revocations, the
    registry of a group, and the roster that the two make of a member roster.
  \<^item> \<open>Wire\<close>: \<open>cluster-daemon/src/devices.rs\<close>, the EIP-191 verifier and the records of the requests.
  \<^item> \<open>Daemon\<close>, \<open>Daemon_Inv\<close>, \<open>Ipc\<close>: \<open>ClusterDaemon\<close> (\<open>cluster-daemon/src/lib.rs\<close>), its invariant and frame,
    and \<open>handle_request\<close> (\<open>ipc.rs\<close>) with the runs of the daemon as lists of events.
  \<^item> \<open>Multiaddr\<close>, \<open>Swarm\<close>, \<open>Swarm_Inv\<close>, \<open>Swarm_Live\<close>: \<open>cluster-daemon/src/libp2p_transport.rs\<close>, the address
    helpers, \<open>Libp2pTransport\<close> with its task \<open>swarm_loop\<close> as a step relation, its invariants, and what the
    task gets done.
  \<^item> \<open>Libp2p_Daemon\<close>: the daemon over any transport that enforces an authorized set, as the locale
    \<open>authorizing_transport\<close>, and the libp2p transport as an instance.
  \<^item> \<open>Server\<close>, \<open>Server_Log\<close>, \<open>Secret_File\<close>, \<open>Socket_Bind\<close>: the control socket (\<open>server.rs\<close>), the interleaved
    connections as one log of requests, the checks on secret files and on the directory of the socket,
    and how the socket is bound.
  \<^item> \<open>Swarm_Config\<close>, \<open>Startup\<close>: the settings a swarm is built from (\<open>build_swarm\<close>), and the way from the
    environment to a daemon (\<open>main.rs\<close>, \<open>NodeConfig\<close>, \<open>Libp2pFactory\<close>).
  \<^item> \<open>Served\<close>, \<open>Wire_Refinement\<close>, \<open>Device_Mesh\<close>: the parts together, the formal model of the wire, and the
    safety properties of the formal model of devices.
  \<^item> \<open>Fixture\<close>: the signing side, the program that makes fleets for soak runs (\<open>examples/\<close>).

  \<^bold>\<open>How they interact.\<close> A client's line reaches \<open>handle_request\<close> through \<open>serve_line\<close>; a request changes
  the daemon's groups, each a \<open>cluster_session\<close> over the state of a transport, a shared set and a
  \<open>group_devices\<close>. \<open>set_roster_with_devices\<close> updates the registry, computes the effective roster and
  reconciles the session, which authorizes and disconnects on the transport. The transport's task runs
  beside the daemon: in \<open>daemon_run\<close> its moves are events of their own (\<open>EvTransport\<close>), in \<open>server_step\<close>
  steps of their own, and inside a swarm the surface and the arms of the task interleave freely
  (\<open>swarm_step\<close>), also between the two critical sections of one arm (\<open>sw_pending\<close>).

  \<^bold>\<open>What the lemmas show.\<close> For each component an invariant that every operation keeps: \<open>membership_ok\<close>
  and \<open>session_ok\<close> for a session, \<open>registry_ok\<close> for a registry, \<open>daemon_ok\<close> (through \<open>group_ok\<close>) for a daemon,
  \<open>gate_ok\<close>, \<open>score_ok\<close>, \<open>conn_ok\<close> and \<open>bounds_ok\<close> for a swarm, \<open>session_inv\<close> for a session over an authorizing
  transport. The frame lemmas (\<open>only_group\<close>) show that a request touches its group only. The results
  build on these: admission is by the last roster, in every run of the daemon and in every state of the
  served program; revocations are permanent; the order of an update matters only between links that tie;
  what the network can make the program hold is bounded; the membership takes, operation by operation,
  the actions of the machine of \<open>formal/ClusterAdmission.tla\<close> that it stands for (\<open>op_actions\<close>), the wire
  refines that of \<open>formal/ClusterWireAdmission.tla\<close>, and the admitted devices obey what
  \<open>formal/DeviceLink.tla\<close> asks of them, with revocation by pairs of member and device; evictions take
  hold; nobody without the bearer reaches the daemon, and everybody with it is answered, as by a daemon
  with one queue; the program starts exactly with what it has checked. Some results record
  where the code and its comments part: \<open>eviction_races_identify\<close>, \<open>revoked_key_readmitted\<close>,
  \<open>link_tie_resolved_by_order\<close>, \<open>drop_peer_deauthorizes\<close>, \<open>seed_new_accepts_undecodable\<close>,
  \<open>pct_decode_accepts_sign\<close>, \<open>bad_utf8_too_large\<close>.

  \<^bold>\<open>Parameters.\<close> Code of other crates is an argument, and what is relied on is a named hypothesis with an
  instance where it holds: cryptography and hexadecimal (\<open>crypto\<close>, \<open>signer\<close>, \<open>peer_keys\<close>; \<open>hex_encode_doc\<close>,
  \<open>signer_doc\<close>, \<open>inj_peer_id\<close>), JSON and the constant-time comparison (\<open>codec\<close>; \<open>ct_eq_doc\<close>), multiaddr
  parsing and the tokio runtime (\<open>node_libs\<close>), whether libp2p accepts what a swarm is built from (\<open>net\<close>). The
  operating system is the record \<open>os\<close>, and \<open>bind_env\<close> where a socket is bound. Where an answer may differ from call to call, the argument is given per call
  (\<open>mk\<close>, \<open>N\<close> and \<open>N'\<close>), or is any of a set (\<open>F\<close> and \<open>M\<close> of \<open>server_step\<close>).

  \<^bold>\<open>Bounds and fuel.\<close> No definition takes fuel. The loop of a connection terminates because each turn
  consumes bytes of its stream (\<open>serve_line_progress\<close>); the other loops are structural. \<open>u8\<close>, \<open>u16\<close>, \<open>u32\<close> and
  \<open>u64\<close> values are words; lengths and counts (\<open>usize\<close>), which the program bounds, are natural numbers. The
  scores of gossipsub are whole numbers.

  \<^bold>\<open>Not modelled.\<close> The shape of the JSON text (\<open>serde\<close>); the text of messages that print with \<open>{:?}\<close>; what
  libp2p does with the settings of a swarm (Noise, yamux, identify, connection limits, mDNS) beyond the
  events it raises; threads and the poisoning of locks; on Windows all but the name of the pipe; the wiping of key material; tests and scripts. A panic in another crate and
  running out of memory are not considered.
\<close>

subsection \<open>What spans the components\<close>

lemma daemon_ok_typed:
  assumes "daemon_ok d"
  shows "fmpred (\<lambda>_ ses. fBall (mem_allowed (s_membership ses)) is_canonical
        \<and> fBall (mem_admitted (s_membership ses)) is_canonical) (d_groups d)"
    and "fmpred (\<lambda>_ S. fBall S is_valid_cid) (d_shared d)"
    and "fmpred (\<lambda>_ st. fBall (reg_revoked (gd_registry st)) (\<lambda>(m, dv). is_canonical m \<and> is_canonical dv)
        \<and> fmpred (\<lambda>dv l. dl_device l = dv \<and> link_ok l) (reg_links (gd_registry st))) (d_devices d)"
proof -
  note group = daemon_ok_group [OF assms]
  show "fmpred (\<lambda>_ ses. fBall (mem_allowed (s_membership ses)) is_canonical
        \<and> fBall (mem_admitted (s_membership ses)) is_canonical) (d_groups d)"
    using daemon_ok_session [OF assms] membership_ok_admitted_canonical
    by (fastforce simp: fmpred_iff membership_ok_def)
  show "fmpred (\<lambda>_ S. fBall S is_valid_cid) (d_shared d)"
    unfolding fmpred_iff
  proof (intro allI impI)
    fix g S assume "fmlookup (d_shared d) g = Some S"
    with group [of g] show "fBall S is_valid_cid" by (simp add: group_ok_def group_view_def shared_ok_def)
  qed
  show "fmpred (\<lambda>_ st. fBall (reg_revoked (gd_registry st)) (\<lambda>(m, dv). is_canonical m \<and> is_canonical dv)
        \<and> fmpred (\<lambda>dv l. dl_device l = dv \<and> link_ok l) (reg_links (gd_registry st))) (d_devices d)"
    unfolding fmpred_iff
  proof (intro allI impI)
    fix g st assume "fmlookup (d_devices d) g = Some st"
    with group [of g] have "registry_ok (gd_registry st)" by (simp add: group_ok_def group_view_def)
    then show "fBall (reg_revoked (gd_registry st)) (\<lambda>(m, dv). is_canonical m \<and> is_canonical dv)
        \<and> (\<forall>dv l. fmlookup (reg_links (gd_registry st)) dv = Some l \<longrightarrow> dl_device l = dv \<and> link_ok l)"
      by (auto simp: registry_ok_def)
  qed
qed

text \<open>C32. What the daemon stores is well typed, whatever it is sent: in every run, on every transport, the
  addresses a session allows or admits are canonical, so are the members and devices of the recorded
  revocations, every recorded link is well formed and filed under its own device, and the shared files
  are content ids.\<close>

theorem daemon_state_typed:
  "let d = daemon_run T V evs (daemon_with_factory a)
   in fmpred (\<lambda>_ ses. fBall (mem_allowed (s_membership ses)) is_canonical
        \<and> fBall (mem_admitted (s_membership ses)) is_canonical) (d_groups d)
    \<and> fmpred (\<lambda>_ S. fBall S is_valid_cid) (d_shared d)
    \<and> fmpred (\<lambda>_ st. fBall (reg_revoked (gd_registry st)) (\<lambda>(m, dv). is_canonical m \<and> is_canonical dv)
        \<and> fmpred (\<lambda>dv l. dl_device l = dv \<and> link_ok l) (reg_links (gd_registry st))) (d_devices d)"
proof -
  have "daemon_ok (daemon_run T V evs (daemon_with_factory a))" by (rule daemon_run_ok) simp
  from daemon_ok_typed [OF this] show ?thesis unfolding Let_def by blast
qed

text \<open>C2. The whole program admits by the rosters it was sent: in every state of a daemon served as \<open>main\<close>
  starts it, whatever the clients send and however their turns interleave with the steps of the swarms,
  the authorized set of a group's swarm is the allowed set of its session; that is empty or the one of
  the effective roster of what the group was last sent; the admitted peers are among it; and the group
  is the pinned one, if one is pinned.\<close>

theorem served_admission:
  assumes "served L K l V C euid self_addr bearer node s" and "fmlookup (d_groups (sv_daemon s)) g = Some ses"
  shows "sw_authorized (s_transport ses) = mem_allowed (s_membership ses)
    \<and> mem_admitted (s_membership ses) |\<subseteq>| mem_allowed (s_membership ses)
    \<and> (mem_allowed (s_membership ses) = {||}
       \<or> (\<exists>st. fmlookup (d_devices (sv_daemon s)) g = Some st
            \<and> mem_allowed (s_membership ses) = allowed_set (effective_roster (gd_roster st) (gd_registry st))))
    \<and> (nc_pinned_group node = None \<or> nc_pinned_group node = Some g)"
  using served_inv(3) [OF assms] daemon_ok_group [OF served_inv(1) [OF assms(1)], of g] assms(2)
    served_inv(2) [OF assms(1)]
  by (simp add: group_ok_def group_view_def session_matches_def membership_ok_def invariant_holds_def)

text \<open>C3. Nobody else stays on the wire: in every such state, an address that a running swarm counts as
  connected is one that the group's session allows, or a command to disconnect it is queued, or all its
  connections are being closed; and a connected peer that has not identified itself is gated.\<close>

theorem served_wire:
  assumes "inj_peer_id K" and "served L K l V C euid self_addr bearer node s"
    and "fmlookup (d_groups (sv_daemon s)) g = Some ses" and "sw_running (s_transport ses)"
    and "a |\<in>| sw_connected (s_transport ses)"
  shows "(a |\<in>| mem_allowed (s_membership ses) \<or> CmdDisconnect a \<in> set (sw_cmds (s_transport ses))
        \<or> fmpred (\<lambda>p b. b = a \<longrightarrow> p |\<in>| sw_closing (s_transport ses)) (sw_peer_addr (s_transport ses)))
    \<and> sw_live (s_transport ses) |\<subseteq>| fmdom (sw_peer_addr (s_transport ses)) |\<union>| sw_gated (s_transport ses)"
proof -
  let ?t = "s_transport ses"
  from served_inv(3) [OF assms(2,3)] obtain th b ls where r: "swarm_reach K l (swarm_init th b ls) ?t"
    and au: "sw_authorized ?t = mem_allowed (s_membership ses)" by (auto simp: swarm_ok_def)
  from swarm_reach_ok(3) [OF r assms(1)] assms(4,5) have "a |\<in>| sw_authorized ?t \<or> doomed ?t a"
    by (auto simp: conn_ok_def revoked_ok_def)
  moreover have "sw_live ?t |\<subseteq>| fmdom (sw_peer_addr ?t) |\<union>| sw_gated ?t"
    using gate_okD [OF swarm_reach_ok(1) [OF r]] by auto
  ultimately show ?thesis using au by (auto simp: doomed_def)
qed

theorem daemon_state_typed_witness:
  "\<exists>st. fmlookup (d_devices (daemon_run in_process stub_verifier sample_events (daemon_with_factory []))) ''g'' = Some st
     \<and> (addr_of ''a1'', addr_of ''d1'') |\<in>| reg_revoked (gd_registry st) \<and> is_canonical (addr_of ''d1'')"
proof -
  let ?d = "daemon_run in_process stub_verifier sample_events (daemon_with_factory [])"
  obtain st where st: "fmlookup (d_devices ?d) ''g'' = Some st"
    and r: "(addr_of ''a1'', addr_of ''d1'') |\<in>| reg_revoked (gd_registry st)"
    using sample_run1(1) [of "[]"] sample_revoked by fastforce
  have "fBall (reg_revoked (gd_registry st)) (\<lambda>(m, dv). is_canonical m \<and> is_canonical dv)"
    using daemon_state_typed [of in_process stub_verifier sample_events "[]"] fmpredD [OF _ st]
    unfolding Let_def by blast
  with st r show ?thesis by auto
qed

theorem served_admission_witness:
  "\<exists>s ses. served stub_libs stub_keys 0 stub_verifier stub_codec 0 (addr_of ''a1'') ''t'' stub_node s
     \<and> fmlookup (d_groups (sv_daemon s)) ''g'' = Some ses
     \<and> sw_authorized (s_transport ses) = mem_allowed (s_membership ses)"
proof -
  obtain s ses where s: "served stub_libs stub_keys 0 stub_verifier stub_codec 0 (addr_of ''a1'') ''t'' stub_node s"
    and g: "fmlookup (d_groups (sv_daemon s)) ''g'' = Some ses" using sample_served by blast
  from served_admission [OF s g] s g show ?thesis by blast
qed

theorem served_wire_witness:
  "\<exists>s ses. served stub_libs stub_keys 0 stub_verifier stub_codec 0 (addr_of ''a1'') ''t'' stub_node s
     \<and> fmlookup (d_groups (sv_daemon s)) ''g'' = Some ses \<and> addr_of ''a1'' |\<in>| sw_connected (s_transport ses)
     \<and> sw_live (s_transport ses) |\<subseteq>| fmdom (sw_peer_addr (s_transport ses)) |\<union>| sw_gated (s_transport ses)"
proof -
  obtain s ses where s: "served stub_libs stub_keys 0 stub_verifier stub_codec 0 (addr_of ''a1'') ''t'' stub_node s"
    and g: "fmlookup (d_groups (sv_daemon s)) ''g'' = Some ses" and t: "sw_running (s_transport ses)"
      "addr_of ''a1'' |\<in>| sw_connected (s_transport ses)" using sample_served by blast
  from served_wire [OF stub_keys_inj s g t] s g t show ?thesis by blast
qed

end
